theory Spec2Isabelle
  imports Complex_Main "HOL-Library.Word" "HOL-Library.Monad_Syntax" "HOL-Library.Log_Nat"
begin

unbundle bit_operations_syntax

section \<open>Cuckoo Breeding Ground hash table (src/cbg.hpp)\<close>

text \<open>
  The table is a flat array of cells. Each cell has a metadata word and a payload.
  \<^verbatim>\<open>size_t\<close> is the 64-bit unsigned type of the build the source was tested on.
  The value \<^verbatim>\<open>SIZE_MAX\<close> is the "not found" result of the source; it is never the
  index of a cell.
\<close>

type_synonym size_t = "64 word"

definition SIZE_MAX :: size_t where
  "SIZE_MAX = - 1"

definition L_MAX :: nat where
  "L_MAX = 7"

subsection \<open>Metadata codec\<close>

text \<open>
  One metadata word, bits b7 .. b0: unlucky bucket, bucket is reversed, item is in a
  reversed bucket, distance (2 bits), label (3 bits). The struct-of-arrays layout
  (\<^verbatim>\<open>MetadataLayout_SoA\<close>) keeps a \<^verbatim>\<open>uint16_t\<close> per cell, whose high byte caches a
  byte of the other hash; the array-of-structs and array-of-blocks layouts keep a
  \<^verbatim>\<open>uint8_t\<close>. The codec is written once over a word of any width \<open>'w\<close>; the
  flag \<open>soa\<close> selects the two places where the struct-of-arrays code differs.
  Labels are read as numbers (they are at most 7). A name ending in \<open>_of\<close> is the
  source function of that name applied to the metadata word of a cell; the functions
  on a table and a position follow below under the source's names.
\<close>

definition Get_Label_of :: "'w::len word \<Rightarrow> nat" where
  "Get_Label_of m = unat (m AND 7)"

definition Is_Empty_of :: "'w::len word \<Rightarrow> bool" where
  "Is_Empty_of m \<longleftrightarrow> Get_Label_of m = 0"

definition Set_Empty_of :: "'w::len word \<Rightarrow> 'w word" where
  "Set_Empty_of m = m AND 0xC0"

definition Get_Hash_of :: "bool \<Rightarrow> 'w::len word \<Rightarrow> size_t" where
  "Get_Hash_of soa m = (if soa then ucast (m AND 0xFF00) else 0)"

definition Update_Bin_At_of ::
  "bool \<Rightarrow> 'w::len word \<Rightarrow> size_t \<Rightarrow> bool \<Rightarrow> nat \<Rightarrow> size_t \<Rightarrow> 'w word" where
  "Update_Bin_At_of soa m distance_to_base is_reverse_item label hash =
     ucast ((if soa then hash AND 0xFF00 else 0)
            OR (ucast m AND 0xC0)
            OR (if is_reverse_item then 0x20 else 0)
            OR push_bit 3 (if soa then distance_to_base
                           else ucast (ucast distance_to_base :: 8 word))
            OR (of_nat label :: size_t))"

definition Is_Item_In_Reverse_Bucket_of :: "'w::len word \<Rightarrow> bool" where
  "Is_Item_In_Reverse_Bucket_of m \<longleftrightarrow> m AND 0x20 \<noteq> 0"

definition Distance_to_Entry_Bin_of :: "'w::len word \<Rightarrow> size_t" where
  "Distance_to_Entry_Bin_of m = ucast (drop_bit 3 m AND 3)"

definition Is_Unlucky_Bucket_of :: "'w::len word \<Rightarrow> bool" where
  "Is_Unlucky_Bucket_of m \<longleftrightarrow> m AND 0x80 \<noteq> 0"

definition Set_Unlucky_Bucket_of :: "'w::len word \<Rightarrow> 'w word" where
  "Set_Unlucky_Bucket_of m = m OR 0x80"

definition Is_Bucket_Reversed_of :: "'w::len word \<Rightarrow> bool" where
  "Is_Bucket_Reversed_of m \<longleftrightarrow> m AND 0x40 \<noteq> 0"

definition Set_Bucket_Reversed_of :: "'w::len word \<Rightarrow> 'w word" where
  "Set_Bucket_Reversed_of m = m OR 0x40"

subsection \<open>Reduction of a hash value to a cell index\<close>

text \<open>
  \<^verbatim>\<open>fastrange\<close> is chosen by the preprocessor. On a 32-bit build it is
  \<^verbatim>\<open>fastrange32\<close>. On a 64-bit build \<^verbatim>\<open>fastrange64\<close> has three bodies: the 128-bit
  product, the \<^verbatim>\<open>__umulh\<close> intrinsic (the high half of the same product), and the
  fallback \<^verbatim>\<open>word % p\<close>, which traps when \<open>p\<close> is 0.
\<close>

datatype build = Int128 | Umulh | Fallback

definition fastrange32 :: "32 word \<Rightarrow> 32 word \<Rightarrow> 32 word" where
  "fastrange32 word p = ucast (drop_bit 32 ((ucast word :: 64 word) * (ucast p :: 64 word)))"

definition umulh :: "64 word \<Rightarrow> 64 word \<Rightarrow> 64 word" where
  "umulh a b = ucast (drop_bit 64 ((ucast a :: 128 word) * (ucast b :: 128 word)))"

definition fastrange64 :: "build \<Rightarrow> 64 word \<Rightarrow> 64 word \<Rightarrow> 64 word option" where
  "fastrange64 bld word p =
     (case bld of
        Int128 \<Rightarrow> Some (ucast (drop_bit 64 ((ucast word :: 128 word) * (ucast p :: 128 word))))
      | Umulh \<Rightarrow> Some (umulh word p)
      | Fallback \<Rightarrow> (if p = 0 then None else Some (word mod p)))"

definition fastrange :: "build \<Rightarrow> size_t \<Rightarrow> size_t \<Rightarrow> size_t option" where
  "fastrange bld word p = fastrange64 bld word p"

subsection \<open>Template parameters and the table\<close>

text \<open>
  The template parameters of \<^verbatim>\<open>CBG_IMPL\<close> and the user's collaborators:
  \<open>NUM_ELEMS_BUCKET\<close> (2, 3 or 4 by the \<^verbatim>\<open>static_assert\<close>), \<open>IS_SoA\<close>, the
  build of \<^verbatim>\<open>fastrange\<close>, the double hasher. Keys are compared with equality
  (\<^verbatim>\<open>std::equal_to\<close>). Memory obtained from \<^verbatim>\<open>malloc\<close> and \<^verbatim>\<open>realloc\<close> is not
  initialised by the source: \<open>raw_elem i\<close> and \<open>raw_meta i\<close> are what such memory
  holds at index \<open>i\<close>. The two \<^verbatim>\<open>float\<close> expressions of the source are parameters:
  \<open>load_gate num_elems num_buckets\<close> is \<^verbatim>\<open>num_elems >= num_buckets * _max_load_factor\<close>
  and \<open>grow_mul num_buckets\<close> is \<^verbatim>\<open>size_t(num_buckets * _grow_factor)\<close>.
\<close>

record ('m, 'k, 'v) params =
  NUM_ELEMS_BUCKET :: size_t
  IS_SoA :: bool
  platform :: build
  hasher :: "'k \<Rightarrow> size_t \<times> size_t"
  raw_meta :: "nat \<Rightarrow> 'm"
  raw_elem :: "nat \<Rightarrow> 'k \<times> 'v"
  load_gate :: "size_t \<Rightarrow> size_t \<Rightarrow> bool"
  grow_mul :: "size_t \<Rightarrow> size_t"

definition static_assert :: "('m, 'k, 'v) params \<Rightarrow> bool" where
  "static_assert P \<longleftrightarrow> 2 \<le> NUM_ELEMS_BUCKET P \<and> NUM_ELEMS_BUCKET P \<le> 4"

definition MIN_BINS_SIZE :: "('m, 'k, 'v) params \<Rightarrow> size_t" where
  "MIN_BINS_SIZE P = 2 * NUM_ELEMS_BUCKET P - 2"

text \<open>
  The table: the metadata array, the payload array (a map stores key and value, a set
  is the case of the unit value; the cell type \<open>'m\<close> is a word), and the two counters. A function that reads or writes
  a cell returns \<open>None\<close> when the position is outside the array (undefined behaviour
  of the source).
\<close>

record ('m, 'k, 'v) table =
  metadata :: "'m list"
  elems :: "('k \<times> 'v) list"
  num_elems :: size_t
  num_buckets :: size_t

definition in_range :: "'a list \<Rightarrow> size_t \<Rightarrow> bool" where
  "in_range xs pos \<longleftrightarrow> pos \<noteq> SIZE_MAX \<and> unat pos < length xs"

definition meta_at :: "('w::len word, 'k, 'v) table \<Rightarrow> size_t \<Rightarrow> 'w word option" where
  "meta_at t pos = (if in_range (metadata t) pos then Some (metadata t ! unat pos) else None)"

definition put :: "('w::len word, 'k, 'v) table \<Rightarrow> size_t \<Rightarrow> 'w word \<Rightarrow> ('w word, 'k, 'v) table option" where
  "put t pos m =
     (if in_range (metadata t) pos then Some (t\<lparr>metadata := (metadata t)[unat pos := m]\<rparr>)
      else None)"

definition Get_Label :: "('w::len word, 'k, 'v) table \<Rightarrow> size_t \<Rightarrow> nat option" where
  "Get_Label t pos = map_option Get_Label_of (meta_at t pos)"

definition Is_Empty :: "('w::len word, 'k, 'v) table \<Rightarrow> size_t \<Rightarrow> bool option" where
  "Is_Empty t pos = map_option Is_Empty_of (meta_at t pos)"

definition Set_Empty :: "('w::len word, 'k, 'v) table \<Rightarrow> size_t \<Rightarrow> ('w word, 'k, 'v) table option" where
  "Set_Empty t pos = do { m \<leftarrow> meta_at t pos; put t pos (Set_Empty_of m) }"

definition Get_Hash :: "bool \<Rightarrow> ('w::len word, 'k, 'v) table \<Rightarrow> size_t \<Rightarrow> size_t option" where
  "Get_Hash soa t pos = map_option (Get_Hash_of soa) (meta_at t pos)"

definition Update_Bin_At ::
  "bool \<Rightarrow> ('w::len word, 'k, 'v) table \<Rightarrow> size_t \<Rightarrow> size_t \<Rightarrow> bool \<Rightarrow> nat \<Rightarrow> size_t
     \<Rightarrow> ('w word, 'k, 'v) table option" where
  "Update_Bin_At soa t pos distance_to_base is_reverse_item label hash =
     do { m \<leftarrow> meta_at t pos;
          put t pos (Update_Bin_At_of soa m distance_to_base is_reverse_item label hash) }"

definition Is_Item_In_Reverse_Bucket :: "('w::len word, 'k, 'v) table \<Rightarrow> size_t \<Rightarrow> bool option" where
  "Is_Item_In_Reverse_Bucket t pos = map_option Is_Item_In_Reverse_Bucket_of (meta_at t pos)"

definition Distance_to_Entry_Bin :: "('w::len word, 'k, 'v) table \<Rightarrow> size_t \<Rightarrow> size_t option" where
  "Distance_to_Entry_Bin t pos = map_option Distance_to_Entry_Bin_of (meta_at t pos)"

definition Set_Unlucky_Bucket :: "('w::len word, 'k, 'v) table \<Rightarrow> size_t \<Rightarrow> ('w word, 'k, 'v) table option" where
  "Set_Unlucky_Bucket t pos = do { m \<leftarrow> meta_at t pos; put t pos (Set_Unlucky_Bucket_of m) }"

definition Is_Bucket_Reversed :: "('w::len word, 'k, 'v) table \<Rightarrow> size_t \<Rightarrow> bool option" where
  "Is_Bucket_Reversed t pos = map_option Is_Bucket_Reversed_of (meta_at t pos)"

definition Set_Bucket_Reversed :: "('w::len word, 'k, 'v) table \<Rightarrow> size_t \<Rightarrow> ('w word, 'k, 'v) table option" where
  "Set_Bucket_Reversed t pos = do { m \<leftarrow> meta_at t pos; put t pos (Set_Bucket_Reversed_of m) }"

text \<open>\<^verbatim>\<open>Clear\<close> zeroes a range of metadata (\<^verbatim>\<open>memset\<close> in the struct-of-arrays layout).\<close>

definition Clear :: "('w::len word, 'k, 'v) table \<Rightarrow> size_t \<Rightarrow> size_t \<Rightarrow> ('w word, 'k, 'v) table option" where
  "Clear t initial_pos size_in_bins =
     (if unat initial_pos + unat size_in_bins \<le> length (metadata t)
      then Some (t\<lparr>metadata :=
             take (unat initial_pos) (metadata t) @ replicate (unat size_in_bins) 0
               @ drop (unat initial_pos + unat size_in_bins) (metadata t)\<rparr>)
      else None)"

text \<open>The payload layout (\<^verbatim>\<open>MapLayout_SoA\<close> and its siblings).\<close>

definition MoveElem :: "('m, 'k, 'v) table \<Rightarrow> size_t \<Rightarrow> size_t \<Rightarrow> ('m, 'k, 'v) table option" where
  "MoveElem t dest orig =
     (if in_range (elems t) dest \<and> in_range (elems t) orig
      then Some (t\<lparr>elems := (elems t)[unat dest := elems t ! unat orig]\<rparr>) else None)"

definition SaveElem :: "('m, 'k, 'v) table \<Rightarrow> size_t \<Rightarrow> 'k \<times> 'v \<Rightarrow> ('m, 'k, 'v) table option" where
  "SaveElem t pos elem =
     (if in_range (elems t) pos then Some (t\<lparr>elems := (elems t)[unat pos := elem]\<rparr>) else None)"

definition GetKey :: "('m, 'k, 'v) table \<Rightarrow> size_t \<Rightarrow> 'k option" where
  "GetKey t pos = (if in_range (elems t) pos then Some (fst (elems t ! unat pos)) else None)"

definition GetElem :: "('m, 'k, 'v) table \<Rightarrow> size_t \<Rightarrow> ('k \<times> 'v) option" where
  "GetElem t pos = (if in_range (elems t) pos then Some (elems t ! unat pos) else None)"

definition GetValue :: "('m, 'k, 'v) table \<Rightarrow> size_t \<Rightarrow> 'v option" where
  "GetValue t pos = (if in_range (elems t) pos then Some (snd (elems t ! unat pos)) else None)"

definition cmp_elems :: "('m, 'k, 'v) table \<Rightarrow> size_t \<Rightarrow> 'k \<Rightarrow> bool option" where
  "cmp_elems t pos r = map_option (\<lambda>k. k = r) (GetKey t pos)"

text \<open>The cell offsets \<open>a, a + 1, ..\<close> below \<open>NUM_ELEMS_BUCKET\<close> of a \<^verbatim>\<open>for\<close> loop.\<close>

definition offsets :: "nat \<Rightarrow> size_t \<Rightarrow> size_t list" where
  "offsets a b = map of_nat [a ..< unat b]"

subsection \<open>Insertion algorithm utilities\<close>

fun Calculate_Minimum_loop ::
  "('w::len word, 'k, 'v) table \<Rightarrow> size_t \<Rightarrow> nat \<times> size_t \<Rightarrow> size_t list \<Rightarrow> (nat \<times> size_t) option" where
  "Calculate_Minimum_loop t bucket_pos (minimum, pos) [] = Some (minimum, pos)"
| "Calculate_Minimum_loop t bucket_pos (minimum, pos) (i # js) =
     (if minimum = 0 then Some (minimum, pos)
      else do {
        label_value \<leftarrow> Get_Label t (bucket_pos + i);
        Calculate_Minimum_loop t bucket_pos
          (if minimum > label_value then (label_value, bucket_pos + i) else (minimum, pos)) js
      })"

definition Calculate_Minimum ::
  "('w::len word, 'k, 'v) params \<Rightarrow> ('w word, 'k, 'v) table \<Rightarrow> size_t \<Rightarrow> (nat \<times> size_t) option" where
  "Calculate_Minimum P t bucket_pos = do {
     minimum \<leftarrow> Get_Label t bucket_pos;
     Calculate_Minimum_loop t bucket_pos (minimum, bucket_pos) (offsets 1 (NUM_ELEMS_BUCKET P))
   }"

definition Belong_to_Bucket ::
  "('w::len word, 'k, 'v) params \<Rightarrow> ('w word, 'k, 'v) table \<Rightarrow> size_t \<Rightarrow> size_t option" where
  "Belong_to_Bucket P t elem_pos = do {
     m \<leftarrow> meta_at t elem_pos;
     Some (if Is_Empty_of m then SIZE_MAX
           else elem_pos + (if Is_Item_In_Reverse_Bucket_of m then NUM_ELEMS_BUCKET P - 1 else 0)
                  - Distance_to_Entry_Bin_of m)
   }"

fun count_if :: "(size_t \<Rightarrow> bool option) \<Rightarrow> size_t list \<Rightarrow> size_t option" where
  "count_if p [] = Some 0"
| "count_if p (i # js) = do {
     b \<leftarrow> p i;
     count \<leftarrow> count_if p js;
     Some (if b then count + 1 else count)
   }"

definition Count_Empty ::
  "('w::len word, 'k, 'v) params \<Rightarrow> ('w word, 'k, 'v) table \<Rightarrow> size_t \<Rightarrow> size_t option" where
  "Count_Empty P t pos = count_if (\<lambda>i. Is_Empty t (pos + i)) (offsets 0 (NUM_ELEMS_BUCKET P))"

definition Count_Elems_In_Bucket_Non_Reversed ::
  "('w::len word, 'k, 'v) params \<Rightarrow> ('w word, 'k, 'v) table \<Rightarrow> size_t \<Rightarrow> size_t option" where
  "Count_Elems_In_Bucket_Non_Reversed P t bucket_pos =
     count_if (\<lambda>i. do {
         m \<leftarrow> meta_at t (bucket_pos + i);
         Some (\<not> Is_Item_In_Reverse_Bucket_of m \<and> i = Distance_to_Entry_Bin_of m)
       }) (offsets 0 (NUM_ELEMS_BUCKET P))"

text \<open>The inner loop of \<^verbatim>\<open>Reverse_Bucket\<close>: \<^verbatim>\<open>for (; !Is_Empty(bucket_pos - j); j--)\<close>.\<close>

function find_empty_space :: "('w::len word, 'k, 'v) table \<Rightarrow> size_t \<Rightarrow> size_t \<Rightarrow> size_t option" where
  "find_empty_space t bucket_pos j =
     (case Is_Empty t (bucket_pos - j) of
        None \<Rightarrow> None
      | Some True \<Rightarrow> Some j
      | Some False \<Rightarrow> find_empty_space t bucket_pos (j - 1))"
  by pat_completeness auto
termination
proof (relation "measure (\<lambda>(t, bucket_pos, j). length (metadata t) - unat (bucket_pos - j))")
  show "wf (measure (\<lambda>(t, bucket_pos, j). length (metadata t) - unat (bucket_pos - j)))"
    by simp
next
  fix t :: "('w::len word, 'k, 'v) table" and bucket_pos j :: size_t and x2 :: bool
  assume a: "Is_Empty t (bucket_pos - j) = Some x2"
  let ?p = "bucket_pos - j"
  from a have r: "?p \<noteq> - 1" "unat ?p < length (metadata t)"
    by (auto simp: Is_Empty_def meta_at_def in_range_def SIZE_MAX_def split: if_splits)
  have "bucket_pos - (j - 1) = ?p + 1"
    by simp
  moreover have "unat (?p + 1) = unat ?p + 1"
  proof -
    have "1 + ?p \<noteq> 0"
      using r(1) by (metis add_eq_0_iff)
    then show ?thesis
      using unatSuc [of ?p] by (simp add: add.commute)
  qed
  ultimately have "unat (bucket_pos - (j - 1)) = unat ?p + 1"
    by (simp only:)
  then show "((t, bucket_pos, j - 1), (t, bucket_pos, j))
      \<in> measure (\<lambda>(t, bucket_pos, j). length (metadata t) - unat (bucket_pos - j))"
    using r(2) by simp
qed

declare find_empty_space.simps [simp del]

fun Reverse_Bucket_loop ::
  "('w::len word, 'k, 'v) params \<Rightarrow> ('w word, 'k, 'v) table \<Rightarrow> size_t \<Rightarrow> size_t \<Rightarrow> size_t list
     \<Rightarrow> ('w word, 'k, 'v) table option" where
  "Reverse_Bucket_loop P t bucket_pos j [] = Some t"
| "Reverse_Bucket_loop P t bucket_pos j (i # js) = do {
     b \<leftarrow> Belong_to_Bucket P t (bucket_pos + i);
     if b = bucket_pos then do {
       j' \<leftarrow> find_empty_space t bucket_pos j;
       label \<leftarrow> Get_Label t (bucket_pos + i);
       hash \<leftarrow> Get_Hash (IS_SoA P) t (bucket_pos + i);
       t1 \<leftarrow> Update_Bin_At (IS_SoA P) t (bucket_pos - j') (NUM_ELEMS_BUCKET P - 1 - j') True label hash;
       t2 \<leftarrow> Set_Empty t1 (bucket_pos + i);
       t3 \<leftarrow> MoveElem t2 (bucket_pos - j') (bucket_pos + i);
       Reverse_Bucket_loop P t3 bucket_pos j' js
     } else Reverse_Bucket_loop P t bucket_pos j js
   }"

definition Reverse_Bucket ::
  "('w::len word, 'k, 'v) params \<Rightarrow> ('w word, 'k, 'v) table \<Rightarrow> size_t \<Rightarrow> ('w word, 'k, 'v) table option" where
  "Reverse_Bucket P t bucket_pos = do {
     t1 \<leftarrow> Set_Bucket_Reversed t bucket_pos;
     Reverse_Bucket_loop P t1 bucket_pos (NUM_ELEMS_BUCKET P - 1) (offsets 0 (NUM_ELEMS_BUCKET P))
   }"

text \<open>
  \<^verbatim>\<open>Find_Empty_Pos_Hopscotch\<close> has three parts. A part that executes a \<^verbatim>\<open>return\<close>
  gives \<open>Some pos\<close> as its first component, otherwise \<open>None\<close> and the next part runs.
  First part: "try to reverse the bucket"; it may change the local \<^verbatim>\<open>bucket_init\<close>.
\<close>

definition credit :: "bool \<Rightarrow> size_t \<Rightarrow> size_t" where
  "credit own count_empty = (if own then (if count_empty > 0 then count_empty + 1 else count_empty) else count_empty)"

definition hopscotch_reverse_bucket ::
  "('w::len word, 'k, 'v) params \<Rightarrow> ('w word, 'k, 'v) table \<Rightarrow> size_t \<Rightarrow> size_t
     \<Rightarrow> (size_t option \<times> ('w word, 'k, 'v) table \<times> size_t) option" where
  "hopscotch_reverse_bucket P t bucket_pos bucket_init = do {
     reversed \<leftarrow> Is_Bucket_Reversed t bucket_pos;
     if \<not> reversed \<and> bucket_pos \<ge> NUM_ELEMS_BUCKET P then do {
       count_empty \<leftarrow> Count_Empty P t (bucket_pos + 1 - NUM_ELEMS_BUCKET P);
       if count_empty \<noteq> 0 then do {
         count_elems \<leftarrow> Count_Elems_In_Bucket_Non_Reversed P t bucket_pos;
         b \<leftarrow> Belong_to_Bucket P t bucket_pos;
         if credit (b = bucket_pos) count_empty > count_elems then do {
           t1 \<leftarrow> Reverse_Bucket P t bucket_pos;
           reversed1 \<leftarrow> Is_Bucket_Reversed t1 bucket_pos;
           let bucket_init1 = bucket_pos + (if reversed1 then 1 - NUM_ELEMS_BUCKET P else 0);
           (min1, pos1) \<leftarrow> Calculate_Minimum P t1 bucket_init1;
           Some (if min1 = 0 then Some pos1 else None, t1, bucket_init1)
         } else Some (None, t, bucket_init)
       } else Some (None, t, bucket_init)
     } else Some (None, t, bucket_init)
   }"

text \<open>Second part: "try to reverse elems", a loop that ends at its \<^verbatim>\<open>return\<close> or \<^verbatim>\<open>break\<close>.\<close>

fun hopscotch_reverse_elems ::
  "('w::len word, 'k, 'v) params \<Rightarrow> ('w word, 'k, 'v) table \<Rightarrow> size_t \<Rightarrow> size_t \<Rightarrow> size_t list
     \<Rightarrow> (size_t option \<times> ('w word, 'k, 'v) table) option" where
  "hopscotch_reverse_elems P t bucket_pos bucket_init [] = Some (None, t)"
| "hopscotch_reverse_elems P t bucket_pos bucket_init (i # js) = do {
     m \<leftarrow> meta_at t (bucket_init + i);
     if \<not> Is_Item_In_Reverse_Bucket_of m \<and> bucket_init + i - Distance_to_Entry_Bin_of m \<noteq> bucket_pos
     then do {
       let bucket_elem = bucket_init + i - Distance_to_Entry_Bin_of m;
       count_empty \<leftarrow> Count_Empty P t (bucket_elem + 1 - NUM_ELEMS_BUCKET P);
       if count_empty \<noteq> 0 then do {
         count_elems \<leftarrow> Count_Elems_In_Bucket_Non_Reversed P t bucket_elem;
         b \<leftarrow> Belong_to_Bucket P t bucket_elem;
         if credit (b = bucket_elem) count_empty \<ge> count_elems then do {
           t1 \<leftarrow> Reverse_Bucket P t bucket_elem;
           (min1, pos1) \<leftarrow> Calculate_Minimum P t1 bucket_init;
           Some (if min1 = 0 then Some pos1 else None, t1)
         } else hopscotch_reverse_elems P t bucket_pos bucket_init js
       } else hopscotch_reverse_elems P t bucket_pos bucket_init js
     } else hopscotch_reverse_elems P t bucket_pos bucket_init js
   }"

text \<open>
  Third part: "try to hopscotch for an empty space". \<open>find_swap\<close> is the \<^verbatim>\<open>for\<close> loop
  that advances \<^verbatim>\<open>pos_swap\<close>; \<open>hopscotch_move\<close> is the \<^verbatim>\<open>while\<close> loop that walks the
  blank cell back into the bucket. When \<^verbatim>\<open>pos_swap\<close> reaches \<^verbatim>\<open>pos_blank\<close> the source
  repeats the same iteration for ever: the model has no result there. The loop is for a
  bucket width that passes the \<^verbatim>\<open>static_assert\<close>.
\<close>

function find_swap ::
  "('w::len word, 'k, 'v) params \<Rightarrow> ('w word, 'k, 'v) table \<Rightarrow> size_t \<Rightarrow> size_t \<Rightarrow> size_t option" where
  "find_swap P t pos_blank pos_swap = do {
     d \<leftarrow> Distance_to_Entry_Bin t pos_swap;
     if pos_blank - pos_swap > NUM_ELEMS_BUCKET P - 1 - d
     then find_swap P t pos_blank (pos_swap + 1)
     else Some pos_swap
   }"
  by pat_completeness auto
termination
proof (relation "measure (\<lambda>(P, t, pos_blank, pos_swap). unat (pos_blank - pos_swap))")
  show "wf (measure (\<lambda>(P, t, pos_blank, pos_swap). unat (pos_blank - pos_swap)))"
    by simp
next
  fix P :: "('w::len word, 'k, 'v) params" and t :: "('w word, 'k, 'v) table"
    and pos_blank pos_swap x2 :: size_t
  assume "NUM_ELEMS_BUCKET P - 1 - x2 < pos_blank - pos_swap"
  then have "pos_blank - pos_swap \<noteq> 0"
    by (metis word_not_simps(1))
  then have "unat (pos_blank - pos_swap - 1) < unat (pos_blank - pos_swap)"
    by (simp add: unat_minus_one unat_gt_0 word_less_nat_alt)
  moreover have "pos_blank - (pos_swap + 1) = pos_blank - pos_swap - 1"
    by simp
  ultimately have "unat (pos_blank - (pos_swap + 1)) < unat (pos_blank - pos_swap)"
    by (simp only:)
  then show "((P, t, pos_blank, pos_swap + 1), (P, t, pos_blank, pos_swap))
      \<in> measure (\<lambda>(P, t, pos_blank, pos_swap). unat (pos_blank - pos_swap))"
    by simp
qed

declare find_swap.simps [simp del]

lemma find_swap_near:
  "find_swap P t pos_blank pos_swap = Some r \<Longrightarrow> unat (pos_blank - r) \<le> unat (pos_blank - pos_swap)"
proof (induction P t pos_blank pos_swap rule: find_swap.induct)
  case (1 P t pos_blank pos_swap)
  from "1.prems" obtain d where d: "Distance_to_Entry_Bin t pos_swap = Some d"
    by (subst (asm) find_swap.simps) (auto split: Option.bind_splits)
  show ?case
  proof (cases "pos_blank - pos_swap > NUM_ELEMS_BUCKET P - 1 - d")
    case True
    with "1.prems" d have "find_swap P t pos_blank (pos_swap + 1) = Some r"
      by (subst (asm) find_swap.simps) simp
    with "1.IH" d True have le: "unat (pos_blank - r) \<le> unat (pos_blank - (pos_swap + 1))"
      by simp
    from True have "pos_blank - pos_swap \<noteq> 0"
      by (metis word_not_simps(1))
    then have "unat (pos_blank - pos_swap - 1) < unat (pos_blank - pos_swap)"
      by (simp add: unat_minus_one unat_gt_0 word_less_nat_alt)
    moreover have "pos_blank - (pos_swap + 1) = pos_blank - pos_swap - 1"
      by simp
    ultimately have "unat (pos_blank - (pos_swap + 1)) < unat (pos_blank - pos_swap)"
      by (simp only:)
    with le show ?thesis
      by simp
  next
    case False
    with "1.prems" d have "r = pos_swap"
      by (subst (asm) find_swap.simps) simp
    then show ?thesis
      by simp
  qed
qed

function hopscotch_move ::
  "('w::len word, 'k, 'v) params \<Rightarrow> ('w word, 'k, 'v) table \<Rightarrow> size_t \<Rightarrow> size_t
     \<Rightarrow> (size_t \<times> ('w word, 'k, 'v) table) option" where
  "hopscotch_move P t bucket_init pos_blank =
     (if pos_blank - bucket_init \<ge> NUM_ELEMS_BUCKET P then
        (if static_assert P then do {
           pos_swap \<leftarrow> find_swap P t pos_blank (pos_blank + 1 - NUM_ELEMS_BUCKET P);
           if pos_swap = pos_blank then None
           else do {
             t1 \<leftarrow> MoveElem t pos_blank pos_swap;
             m \<leftarrow> meta_at t1 pos_swap;
             t2 \<leftarrow> Update_Bin_At (IS_SoA P) t1 pos_blank
                    (Distance_to_Entry_Bin_of m + (pos_blank - pos_swap))
                    (Is_Item_In_Reverse_Bucket_of m) (Get_Label_of m) (Get_Hash_of (IS_SoA P) m);
             hopscotch_move P t2 bucket_init pos_swap
           }
         } else None)
      else Some (pos_blank, t))"
  by pat_completeness auto
termination
proof (relation "measure (\<lambda>(P, t, bucket_init, pos_blank). unat (pos_blank - bucket_init))")
  show "wf (measure (\<lambda>(P, t, bucket_init, pos_blank). unat (pos_blank - bucket_init)))"
    by simp
next
  fix P :: "('w::len word, 'k, 'v) params" and t t2 :: "('w word, 'k, 'v) table"
    and bucket_init pos_blank pos_swap :: size_t
  let ?B = "NUM_ELEMS_BUCKET P"
  assume B: "?B \<le> pos_blank - bucket_init" and sa: "static_assert P"
    and fs: "find_swap P t pos_blank (pos_blank + 1 - ?B) = Some pos_swap"
    and ne: "pos_swap \<noteq> pos_blank"
  have "unat (pos_blank - pos_swap) \<le> unat (pos_blank - (pos_blank + 1 - ?B))"
    by (rule find_swap_near [OF fs])
  moreover have "pos_blank - (pos_blank + 1 - ?B) = ?B - 1"
    by simp
  moreover have "unat (?B - 1) < unat ?B"
  proof -
    have "?B \<noteq> 0"
      using sa by (auto simp: static_assert_def)
    then show ?thesis
      by (simp add: unat_minus_one unat_gt_0)
  qed
  moreover have "unat ?B \<le> unat (pos_blank - bucket_init)"
    using B by (simp add: word_le_nat_alt)
  ultimately have lt: "unat (pos_blank - pos_swap) < unat (pos_blank - bucket_init)"
    by simp
  then have "pos_blank - pos_swap \<le> pos_blank - bucket_init"
    by (simp add: word_le_nat_alt)
  then have "unat (pos_blank - bucket_init - (pos_blank - pos_swap))
      = unat (pos_blank - bucket_init) - unat (pos_blank - pos_swap)"
    by (rule unat_sub)
  moreover have "pos_blank - bucket_init - (pos_blank - pos_swap) = pos_swap - bucket_init"
    by simp
  moreover have "0 < unat (pos_blank - pos_swap)"
    using ne by (simp add: unat_gt_0)
  ultimately have "unat (pos_swap - bucket_init) < unat (pos_blank - bucket_init)"
    using lt by simp
  then show "((P, t2, bucket_init, pos_swap), (P, t, bucket_init, pos_blank))
      \<in> measure (\<lambda>(P, t, bucket_init, pos_blank). unat (pos_blank - bucket_init))"
    by simp
qed

declare hopscotch_move.simps [simp del]

function hopscotch_scan ::
  "('w::len word, 'k, 'v) params \<Rightarrow> ('w word, 'k, 'v) table \<Rightarrow> size_t \<Rightarrow> size_t \<Rightarrow> size_t
     \<Rightarrow> (size_t \<times> ('w word, 'k, 'v) table) option" where
  "hopscotch_scan P t bucket_init i max_dist_to_move =
     (if i \<le> max_dist_to_move \<and> bucket_init + i < num_buckets t then do {
        m \<leftarrow> meta_at t (bucket_init + i);
        if Is_Empty_of m then hopscotch_move P t bucket_init (bucket_init + i)
        else hopscotch_scan P t bucket_init (i + 1)
               (if i + NUM_ELEMS_BUCKET P - 1 - Distance_to_Entry_Bin_of m > max_dist_to_move
                then i + NUM_ELEMS_BUCKET P - 1 - Distance_to_Entry_Bin_of m
                else max_dist_to_move)
      } else Some (SIZE_MAX, t))"
  by pat_completeness auto
termination
proof (relation "measure (\<lambda>(P, t, bucket_init, i, m). unat (num_buckets t) - unat (bucket_init + i))")
  show "wf (measure (\<lambda>(P, t, bucket_init, i, m). unat (num_buckets t) - unat (bucket_init + i)))"
    by simp
next
  fix P :: "('w::len word, 'k, 'v) params" and t :: "('w word, 'k, 'v) table"
    and bucket_init i max_dist_to_move :: size_t
  let ?p = "bucket_init + i"
  assume a: "i \<le> max_dist_to_move \<and> ?p < num_buckets t"
  then have lt: "unat ?p < unat (num_buckets t)"
    by (simp add: word_less_nat_alt)
  from a have "?p \<noteq> - 1"
    by (metis word_order.extremum_strict)
  then have "1 + ?p \<noteq> 0"
    by (metis add_eq_0_iff)
  then have "unat (?p + 1) = unat ?p + 1"
    using unatSuc [of ?p] by (simp add: add.commute)
  moreover have "bucket_init + (i + 1) = ?p + 1"
    by simp
  ultimately have "unat (bucket_init + (i + 1)) = unat ?p + 1"
    by (simp only:)
  with lt show "((P, t, bucket_init, i + 1,
        if max_dist_to_move < i + NUM_ELEMS_BUCKET P - 1 - Distance_to_Entry_Bin_of m
        then i + NUM_ELEMS_BUCKET P - 1 - Distance_to_Entry_Bin_of m else max_dist_to_move),
       (P, t, bucket_init, i, max_dist_to_move))
      \<in> measure (\<lambda>(P, t, bucket_init, i, m). unat (num_buckets t) - unat (bucket_init + i))"
    for m :: "'w word"
    by simp
qed

declare hopscotch_scan.simps [simp del]

definition Find_Empty_Pos_Hopscotch ::
  "('w::len word, 'k, 'v) params \<Rightarrow> ('w word, 'k, 'v) table \<Rightarrow> size_t \<Rightarrow> size_t
     \<Rightarrow> (size_t \<times> ('w word, 'k, 'v) table) option" where
  "Find_Empty_Pos_Hopscotch P t bucket_pos bucket_init = do {
     (r1, t1, bucket_init1) \<leftarrow> hopscotch_reverse_bucket P t bucket_pos bucket_init;
     case r1 of
       Some pos \<Rightarrow> Some (pos, t1)
     | None \<Rightarrow> do {
         (r2, t2) \<leftarrow> (if bucket_init1 \<ge> 2 * NUM_ELEMS_BUCKET P
                       then hopscotch_reverse_elems P t1 bucket_pos bucket_init1
                              (offsets 0 (NUM_ELEMS_BUCKET P))
                       else Some (None, t1));
         case r2 of
           Some pos \<Rightarrow> Some (pos, t2)
         | None \<Rightarrow> hopscotch_scan P t2 bucket_init1 0 (NUM_ELEMS_BUCKET P - 1)
       }
   }"

subsection \<open>Insertion: \<^verbatim>\<open>try_insert\<close>\<close>

text \<open>The loop "Find minimun label", which reads one cell of each bucket per step.\<close>

fun minimum_labels ::
  "('w::len word, 'k, 'v) table \<Rightarrow> size_t \<Rightarrow> size_t \<Rightarrow> nat \<times> size_t \<times> nat \<times> size_t \<Rightarrow> size_t list
     \<Rightarrow> (nat \<times> size_t \<times> nat \<times> size_t) option" where
  "minimum_labels t bucket1_init bucket2_init (min1, pos1, min2, pos2) [] = Some (min1, pos1, min2, pos2)"
| "minimum_labels t bucket1_init bucket2_init (min1, pos1, min2, pos2) (i # js) = do {
     label_value1 \<leftarrow> Get_Label t (bucket1_init + i);
     label_value2 \<leftarrow> Get_Label t (bucket2_init + i);
     minimum_labels t bucket1_init bucket2_init
       (if min1 > label_value1 then label_value1 else min1,
        if min1 > label_value1 then bucket1_init + i else pos1,
        if min2 > label_value2 then label_value2 else min2,
        if min2 > label_value2 then bucket2_init + i else pos2) js
   }"

text \<open>
  What the source has in hand after the minimum loop: the two hashes, the two bucket
  anchors, their direction flags and first cells, and the two minima with their cells.
\<close>

record candidates =
  hash0 :: size_t
  hash1 :: size_t
  bucket1_pos :: size_t
  bucket2_pos :: size_t
  is_reversed_bucket1 :: bool
  is_reversed_bucket2 :: bool
  bucket1_init :: size_t
  bucket2_init :: size_t
  min1 :: nat
  pos1 :: size_t
  min2 :: nat
  pos2 :: size_t

definition find_candidates ::
  "('w::len word, 'k, 'v) params \<Rightarrow> ('w word, 'k, 'v) table \<Rightarrow> 'k \<Rightarrow> candidates option" where
  "find_candidates P t key = do {
     let (h0, h1) = hasher P key;
     b1 \<leftarrow> fastrange (platform P) h0 (num_buckets t);
     b2 \<leftarrow> fastrange (platform P) h1 (num_buckets t);
     r1 \<leftarrow> Is_Bucket_Reversed t b1;
     r2 \<leftarrow> Is_Bucket_Reversed t b2;
     let i1 = b1 + (if r1 then 1 - NUM_ELEMS_BUCKET P else 0);
     let i2 = b2 + (if r2 then 1 - NUM_ELEMS_BUCKET P else 0);
     m1 \<leftarrow> Get_Label t i1;
     m2 \<leftarrow> Get_Label t i2;
     (m1', p1, m2', p2) \<leftarrow> minimum_labels t i1 i2 (m1, i1, m2, i2) (offsets 1 (NUM_ELEMS_BUCKET P));
     Some \<lparr>hash0 = h0, hash1 = h1, bucket1_pos = b1, bucket2_pos = b2,
           is_reversed_bucket1 = r1, is_reversed_bucket2 = r2,
           bucket1_init = i1, bucket2_init = i2,
           min1 = m1', pos1 = p1, min2 = m2', pos2 = p2\<rparr>
   }"

text \<open>
  One pass through the body of \<^verbatim>\<open>while (true)\<close>: it ends in \<^verbatim>\<open>return true\<close>,
  in \<^verbatim>\<open>return false\<close>, or with a victim in hand for the next pass.
\<close>

datatype ('k, 'v) round = Return bool | Evicted "'k \<times> 'v"

definition place ::
  "('w::len word, 'k, 'v) params \<Rightarrow> ('w word, 'k, 'v) table \<Rightarrow> size_t \<Rightarrow> size_t \<Rightarrow> bool \<Rightarrow> nat \<Rightarrow> size_t
     \<Rightarrow> 'k \<times> 'v \<Rightarrow> (('k, 'v) round \<times> ('w word, 'k, 'v) table) option" where
  "place P t pos distance_to_base is_reverse_item label hash elem = do {
     t1 \<leftarrow> Update_Bin_At (IS_SoA P) t pos distance_to_base is_reverse_item label hash;
     t2 \<leftarrow> SaveElem t1 pos elem;
     Some (Return True, t2\<lparr>num_elems := num_elems t2 + 1\<rparr>)
   }"

definition evict ::
  "('w::len word, 'k, 'v) params \<Rightarrow> ('w word, 'k, 'v) table \<Rightarrow> candidates \<Rightarrow> 'k \<times> 'v
     \<Rightarrow> (('k, 'v) round \<times> ('w word, 'k, 'v) table) option" where
  "evict P t c elem =
     (if min (min1 c) (min2 c) \<ge> L_MAX then Some (Return False, t)
      else if min1 c \<le> min2 c then do {
        t1 \<leftarrow> Update_Bin_At (IS_SoA P) t (pos1 c) (pos1 c - bucket1_init c) (is_reversed_bucket1 c)
               (min (min2 c + 1) L_MAX) (hash1 c);
        victim \<leftarrow> GetElem t1 (pos1 c);
        t2 \<leftarrow> SaveElem t1 (pos1 c) elem;
        Some (Evicted victim, t2)
      } else do {
        t1 \<leftarrow> Set_Unlucky_Bucket t (bucket1_pos c);
        t2 \<leftarrow> Update_Bin_At (IS_SoA P) t1 (pos2 c) (pos2 c - bucket2_init c) (is_reversed_bucket2 c)
               (min (min1 c + 1) L_MAX) (hash0 c);
        victim \<leftarrow> GetElem t2 (pos2 c);
        t3 \<leftarrow> SaveElem t2 (pos2 c) elem;
        Some (Evicted victim, t3)
      })"

definition try_insert_round ::
  "('w::len word, 'k, 'v) params \<Rightarrow> ('w word, 'k, 'v) table \<Rightarrow> 'k \<times> 'v
     \<Rightarrow> (('k, 'v) round \<times> ('w word, 'k, 'v) table) option" where
  "try_insert_round P t elem = do {
     c \<leftarrow> find_candidates P t (fst elem);
     if min1 c = 0 then
       place P t (pos1 c) (pos1 c - bucket1_init c) (is_reversed_bucket1 c)
         (min (min2 c + 1) L_MAX) (hash1 c) elem
     else do {
       (empty_pos, t1) \<leftarrow> Find_Empty_Pos_Hopscotch P t (bucket1_pos c) (bucket1_init c);
       if empty_pos \<noteq> SIZE_MAX then do {
         r1 \<leftarrow> Is_Bucket_Reversed t1 (bucket1_pos c);
         place P t1 empty_pos
           (empty_pos - (bucket1_pos c + (if r1 then 1 - NUM_ELEMS_BUCKET P else 0))) r1
           (min (min2 c + 1) L_MAX) (hash1 c) elem
       } else if min2 c = 0 then do {
         t2 \<leftarrow> Set_Unlucky_Bucket t1 (bucket1_pos c);
         place P t2 (pos2 c) (pos2 c - bucket2_init c) (is_reversed_bucket2 c)
           (min (min1 c + 1) L_MAX) (hash0 c) elem
       } else if num_elems t1 * 10 > 9 * num_buckets t1 then do {
         (empty_pos2, t2) \<leftarrow> Find_Empty_Pos_Hopscotch P t1 (bucket2_pos c) (bucket2_init c);
         if empty_pos2 \<noteq> SIZE_MAX then do {
           t3 \<leftarrow> Set_Unlucky_Bucket t2 (bucket1_pos c);
           r2 \<leftarrow> Is_Bucket_Reversed t3 (bucket2_pos c);
           place P t3 empty_pos2
             (empty_pos2 - (bucket2_pos c + (if r2 then 1 - NUM_ELEMS_BUCKET P else 0))) r2
             (min (min1 c + 1) L_MAX) (hash0 c) elem
         } else evict P t2 c elem
       } else evict P t1 c elem
     }
   }"

text \<open>
  The loop itself. The source's \<^verbatim>\<open>while (true)\<close> has no bound of its own, so the model
  counts passes: \<open>try_insert n\<close> runs at most \<open>n\<close> passes and reports when they do not
  suffice. The result carries the table and the element left in the caller's variable
  (the source assigns the victim to its reference argument).
\<close>

datatype 'a outcome = Returns 'a | Fault | Out_Of_Fuel

fun try_insert ::
  "nat \<Rightarrow> ('w::len word, 'k, 'v) params \<Rightarrow> ('w word, 'k, 'v) table \<Rightarrow> 'k \<times> 'v
     \<Rightarrow> (bool \<times> ('w word, 'k, 'v) table \<times> ('k \<times> 'v)) outcome" where
  "try_insert 0 P t elem = Out_Of_Fuel"
| "try_insert (Suc n) P t elem =
     (case try_insert_round P t elem of
        None \<Rightarrow> Fault
      | Some (Return b, t') \<Rightarrow> Returns (b, t', elem)
      | Some (Evicted victim, t') \<Rightarrow> try_insert n P t' victim)"

subsection \<open>Lookup\<close>

text \<open>
  The test of one cell. The struct-of-arrays code first compares the cached hash byte
  (bits 8 to 15 of the metadata against the same bits of the other hash); its first
  bucket then compares the key before looking at the label, its second bucket the
  label before the key. The array-of-structs code compares the key and then looks at
  the label.
\<close>

definition hit_first_SoA ::
  "('w::len word, 'k, 'v) table \<Rightarrow> 16 word \<Rightarrow> 'k \<Rightarrow> size_t \<Rightarrow> 'w word \<Rightarrow> bool option" where
  "hit_first_SoA t h elem pos c =
     (if ((ucast c :: 16 word) XOR h) AND 0xFF00 = 0
      then do { eq \<leftarrow> cmp_elems t pos elem; Some (eq \<and> c AND 7 \<noteq> 0) }
      else Some False)"

definition hit_second_SoA ::
  "('w::len word, 'k, 'v) table \<Rightarrow> 16 word \<Rightarrow> 'k \<Rightarrow> size_t \<Rightarrow> 'w word \<Rightarrow> bool option" where
  "hit_second_SoA t h elem pos c =
     (if ((ucast c :: 16 word) XOR h) AND 0xFF00 = 0 \<and> c AND 7 \<noteq> 0
      then cmp_elems t pos elem
      else Some False)"

definition hit_AoS ::
  "('w::len word, 'k, 'v) table \<Rightarrow> 'k \<Rightarrow> size_t \<Rightarrow> 'w word \<Rightarrow> bool option" where
  "hit_AoS t elem pos c = do { eq \<leftarrow> cmp_elems t pos elem; Some (eq \<and> c AND 7 \<noteq> 0) }"

text \<open>
  The check of one bucket ("Check first bucket", "Check second bucket"): the anchor
  cell, whose metadata \<open>c\<close> is already read, then one more cell, a third when
  \<^verbatim>\<open>NUM_ELEMS_BUCKET > 2\<close> and a fourth when \<^verbatim>\<open>NUM_ELEMS_BUCKET > 3\<close>, each reached by
  \<^verbatim>\<open>pos += reverse_sum\<close>.
\<close>

datatype probe = Hit size_t | Miss

fun check_cells ::
  "(size_t \<Rightarrow> 'w word \<Rightarrow> bool option) \<Rightarrow> ('w::len word, 'k, 'v) table \<Rightarrow> size_t \<Rightarrow> size_t \<Rightarrow> nat
     \<Rightarrow> probe option" where
  "check_cells hit t pos reverse_sum 0 = Some Miss"
| "check_cells hit t pos reverse_sum (Suc n) = do {
     cc \<leftarrow> meta_at t (pos + reverse_sum);
     found \<leftarrow> hit (pos + reverse_sum) cc;
     if found then Some (Hit (pos + reverse_sum))
     else check_cells hit t (pos + reverse_sum) reverse_sum n
   }"

definition check_bucket ::
  "(size_t \<Rightarrow> 'w word \<Rightarrow> bool option) \<Rightarrow> ('w::len word, 'k, 'v) params \<Rightarrow> ('w word, 'k, 'v) table
     \<Rightarrow> size_t \<Rightarrow> 'w word \<Rightarrow> probe option" where
  "check_bucket hit P t pos c = do {
     found \<leftarrow> hit pos c;
     if found then Some (Hit pos)
     else check_cells hit t pos (if c AND 0x40 \<noteq> 0 then - 1 else 1)
            (Suc ((if NUM_ELEMS_BUCKET P > 2 then 1 else 0) + (if NUM_ELEMS_BUCKET P > 3 then 1 else 0)))
   }"

definition first_bucket_SoA ::
  "('w::len word, 'k, 'v) params \<Rightarrow> ('w word, 'k, 'v) table \<Rightarrow> 'k \<Rightarrow> probe option" where
  "first_bucket_SoA P t elem = do {
     pos \<leftarrow> fastrange (platform P) (fst (hasher P elem)) (num_buckets t);
     c0 \<leftarrow> meta_at t pos;
     check_bucket (hit_first_SoA t (ucast (snd (hasher P elem))) elem) P t pos c0
   }"

definition second_bucket_SoA ::
  "('w::len word, 'k, 'v) params \<Rightarrow> ('w word, 'k, 'v) table \<Rightarrow> 'k \<Rightarrow> probe option" where
  "second_bucket_SoA P t elem = do {
     pos \<leftarrow> fastrange (platform P) (snd (hasher P elem)) (num_buckets t);
     cc \<leftarrow> meta_at t pos;
     check_bucket (hit_second_SoA t (ucast (fst (hasher P elem))) elem) P t pos cc
   }"

definition first_bucket_AoS ::
  "('w::len word, 'k, 'v) params \<Rightarrow> ('w word, 'k, 'v) table \<Rightarrow> 'k \<Rightarrow> probe option" where
  "first_bucket_AoS P t elem = do {
     pos \<leftarrow> fastrange (platform P) (fst (hasher P elem)) (num_buckets t);
     c0 \<leftarrow> meta_at t pos;
     check_bucket (hit_AoS t elem) P t pos c0
   }"

definition second_bucket_AoS ::
  "('w::len word, 'k, 'v) params \<Rightarrow> ('w word, 'k, 'v) table \<Rightarrow> 'k \<Rightarrow> probe option" where
  "second_bucket_AoS P t elem = do {
     pos \<leftarrow> fastrange (platform P) (snd (hasher P elem)) (num_buckets t);
     cc \<leftarrow> meta_at t pos;
     check_bucket (hit_AoS t elem) P t pos cc
   }"

text \<open>The metadata \<^verbatim>\<open>c0\<close> of the cell the first hash selects.\<close>

definition primary_metadata ::
  "('w::len word, 'k, 'v) params \<Rightarrow> ('w word, 'k, 'v) table \<Rightarrow> 'k \<Rightarrow> 'w word option" where
  "primary_metadata P t elem = do {
     pos \<leftarrow> fastrange (platform P) (fst (hasher P elem)) (num_buckets t);
     meta_at t pos
   }"

definition find_position_SoA ::
  "('w::len word, 'k, 'v) params \<Rightarrow> ('w word, 'k, 'v) table \<Rightarrow> 'k \<Rightarrow> size_t option" where
  "find_position_SoA P t elem = do {
     r \<leftarrow> first_bucket_SoA P t elem;
     case r of
       Hit pos \<Rightarrow> Some pos
     | Miss \<Rightarrow> do {
         c0 \<leftarrow> primary_metadata P t elem;
         if c0 AND 0x80 \<noteq> 0 then do {
           r2 \<leftarrow> second_bucket_SoA P t elem;
           Some (case r2 of Hit pos \<Rightarrow> pos | Miss \<Rightarrow> SIZE_MAX)
         } else Some SIZE_MAX
       }
   }"

definition find_position_AoS ::
  "('w::len word, 'k, 'v) params \<Rightarrow> ('w word, 'k, 'v) table \<Rightarrow> 'k \<Rightarrow> size_t option" where
  "find_position_AoS P t elem = do {
     r \<leftarrow> first_bucket_AoS P t elem;
     case r of
       Hit pos \<Rightarrow> Some pos
     | Miss \<Rightarrow> do {
         c0 \<leftarrow> primary_metadata P t elem;
         if c0 AND 0x80 \<noteq> 0 then do {
           r2 \<leftarrow> second_bucket_AoS P t elem;
           Some (case r2 of Hit pos \<Rightarrow> pos | Miss \<Rightarrow> SIZE_MAX)
         } else Some SIZE_MAX
       }
   }"

definition find_position ::
  "('w::len word, 'k, 'v) params \<Rightarrow> ('w word, 'k, 'v) table \<Rightarrow> 'k \<Rightarrow> size_t option" where
  "find_position P t elem = (if IS_SoA P then find_position_SoA P t elem else find_position_AoS P t elem)"

subsection \<open>Growing the table: \<^verbatim>\<open>rehash\<close>\<close>

definition ReallocElems ::
  "('m, 'k, 'v) params \<Rightarrow> ('m, 'k, 'v) table \<Rightarrow> size_t \<Rightarrow> ('m, 'k, 'v) table" where
  "ReallocElems P t new_num_buckets =
     t\<lparr>elems := take (unat new_num_buckets) (elems t)
                  @ map (raw_elem P) [length (elems t) ..< unat new_num_buckets]\<rparr>"

definition ReallocMetadata ::
  "('m, 'k, 'v) params \<Rightarrow> ('m, 'k, 'v) table \<Rightarrow> size_t \<Rightarrow> ('m, 'k, 'v) table" where
  "ReallocMetadata P t new_num_bins =
     t\<lparr>metadata := take (unat new_num_bins) (metadata t)
                     @ map (raw_meta P) [length (metadata t) ..< unat new_num_bins]\<rparr>"

text \<open>\<^verbatim>\<open>for (i = 0; i < NUM_ELEMS_BUCKET - 1; i++) Set_Bucket_Reversed(num_buckets - 1 - i)\<close>\<close>

fun reverse_last_buckets ::
  "('w::len word, 'k, 'v) table \<Rightarrow> size_t list \<Rightarrow> ('w word, 'k, 'v) table option" where
  "reverse_last_buckets t [] = Some t"
| "reverse_last_buckets t (i # js) = do {
     t1 \<leftarrow> Set_Bucket_Reversed t (num_buckets t - 1 - i);
     reverse_last_buckets t1 js
   }"

text \<open>
  The body of "Moves items from old end to new end" for the old cell \<open>i\<close>;
  \<open>secondary_tmp\<close> is the vector of deferred elements, its back first.
\<close>

definition rehash_cell ::
  "('w::len word, 'k, 'v) params \<Rightarrow> ('w word, 'k, 'v) table \<Rightarrow> size_t \<Rightarrow> ('k \<times> 'v) list
     \<Rightarrow> (('w word, 'k, 'v) table \<times> ('k \<times> 'v) list) option" where
  "rehash_cell P t i secondary_tmp = do {
     m \<leftarrow> meta_at t i;
     (t2, tmp) \<leftarrow>
       (if \<not> Is_Empty_of m then do {
          key \<leftarrow> GetKey t i;
          b \<leftarrow> fastrange (platform P) (fst (hasher P key)) (num_buckets t);
          reversed \<leftarrow> Is_Bucket_Reversed t b;
          let bucket1_pos_init = b + (if reversed then 1 - NUM_ELEMS_BUCKET P else 0);
          (t1, item_is_moved) \<leftarrow>
            (if bucket1_pos_init > i then do {
               (min1, pos1) \<leftarrow> Calculate_Minimum P t bucket1_pos_init;
               if min1 = 0 then do {
                 t' \<leftarrow> Update_Bin_At (IS_SoA P) t pos1 (pos1 - bucket1_pos_init) False 1
                         (snd (hasher P key));
                 t'' \<leftarrow> MoveElem t' pos1 i;
                 Some (t''\<lparr>num_elems := num_elems t'' + 1\<rparr>, True)
               } else Some (t, False)
             } else Some (t, False));
          if \<not> item_is_moved then do {
            e \<leftarrow> GetElem t1 i;
            Some (t1, e # secondary_tmp)
          } else Some (t1, secondary_tmp)
        } else Some (t, secondary_tmp));
     t3 \<leftarrow> Clear t2 i 1;
     Some (t3, tmp)
   }"

function rehash_scan ::
  "('w::len word, 'k, 'v) params \<Rightarrow> ('w word, 'k, 'v) table \<Rightarrow> size_t \<Rightarrow> ('k \<times> 'v) list
     \<Rightarrow> (('w word, 'k, 'v) table \<times> ('k \<times> 'v) list) option" where
  "rehash_scan P t i secondary_tmp =
     (if i > 0 then do {
        (t1, tmp) \<leftarrow> rehash_cell P t i secondary_tmp;
        rehash_scan P t1 (i - 1) tmp
      } else Some (t, secondary_tmp))"
  by pat_completeness auto
termination
  by (relation "measure (\<lambda>(P, t, i, tmp). unat i)")
     (simp_all add: unat_minus_one unat_gt_0 word_greater_zero_iff)

declare rehash_scan.simps [simp del]

definition rehash_first ::
  "('w::len word, 'k, 'v) table \<Rightarrow> ('k \<times> 'v) list \<Rightarrow> (('w word, 'k, 'v) table \<times> ('k \<times> 'v) list) option" where
  "rehash_first t secondary_tmp = do {
     m \<leftarrow> meta_at t 0;
     tmp \<leftarrow> (if \<not> Is_Empty_of m then do { e \<leftarrow> GetElem t 0; Some (e # secondary_tmp) }
             else Some secondary_tmp);
     t1 \<leftarrow> Clear t 0 1;
     Some (t1, tmp)
   }"

text \<open>
  One pass of \<^verbatim>\<open>while (need_rehash)\<close> up to the loop "Insert other elements":
  first the reallocation and the initialisation of the metadata (\<open>rehash_prepare\<close>),
  then the scan of the old cells.
\<close>

definition rehash_prepare ::
  "('w::len word, 'k, 'v) params \<Rightarrow> ('w word, 'k, 'v) table \<Rightarrow> size_t \<Rightarrow> ('w word, 'k, 'v) table option" where
  "rehash_prepare P t new_num_buckets = do {
     let old_num_buckets = num_buckets t;
     let t1 = ReallocMetadata P (ReallocElems P (t\<lparr>num_buckets := new_num_buckets\<rparr>) new_num_buckets)
                new_num_buckets;
     t2 \<leftarrow> (if old_num_buckets \<noteq> 0 then Clear t1 old_num_buckets (new_num_buckets - old_num_buckets)
            else Clear t1 0 new_num_buckets);
     reverse_last_buckets (t2\<lparr>num_elems := 0\<rparr>) (offsets 0 (NUM_ELEMS_BUCKET P - 1))
   }"

definition rehash_move ::
  "('w::len word, 'k, 'v) params \<Rightarrow> ('w word, 'k, 'v) table \<Rightarrow> size_t \<Rightarrow> ('k \<times> 'v) list
     \<Rightarrow> (('w word, 'k, 'v) table \<times> ('k \<times> 'v) list) option" where
  "rehash_move P t new_num_buckets secondary_tmp = do {
     let old_num_buckets = num_buckets t;
     t3 \<leftarrow> rehash_prepare P t new_num_buckets;
     (t4, tmp) \<leftarrow> rehash_scan P t3 (old_num_buckets - 1) secondary_tmp;
     rehash_first t4 tmp
   }"

text \<open>
  "Insert other elements": \<^verbatim>\<open>try_insert\<close> on the back of the vector until the vector
  is empty or an insertion fails; the first component is \<^verbatim>\<open>need_rehash\<close>.
\<close>

fun rehash_insert ::
  "nat \<Rightarrow> ('w::len word, 'k, 'v) params \<Rightarrow> ('w word, 'k, 'v) table \<Rightarrow> ('k \<times> 'v) list
     \<Rightarrow> (bool \<times> ('w word, 'k, 'v) table \<times> ('k \<times> 'v) list) outcome" where
  "rehash_insert n P t [] = Returns (False, t, [])"
| "rehash_insert n P t (e # tmp) =
     (case try_insert n P t e of
        Returns (True, t', e') \<Rightarrow> rehash_insert n P t' tmp
      | Returns (False, t', e') \<Rightarrow> Returns (True, t', e' # tmp)
      | Fault \<Rightarrow> Fault
      | Out_Of_Fuel \<Rightarrow> Out_Of_Fuel)"

fun rehash_loop ::
  "nat \<Rightarrow> ('w::len word, 'k, 'v) params \<Rightarrow> ('w word, 'k, 'v) table \<Rightarrow> size_t \<Rightarrow> ('k \<times> 'v) list
     \<Rightarrow> ('w word, 'k, 'v) table outcome" where
  "rehash_loop 0 P t new_num_buckets secondary_tmp = Out_Of_Fuel"
| "rehash_loop (Suc n) P t new_num_buckets secondary_tmp =
     (case rehash_move P t new_num_buckets secondary_tmp of
        None \<Rightarrow> Fault
      | Some (t1, tmp) \<Rightarrow>
          (case rehash_insert n P t1 tmp of
             Returns (need_rehash, t2, tmp2) \<Rightarrow>
               if need_rehash
               then rehash_loop n P t2 (new_num_buckets + max 1 (new_num_buckets div 128)) tmp2
               else Returns t2
           | Fault \<Rightarrow> Fault
           | Out_Of_Fuel \<Rightarrow> Out_Of_Fuel))"

definition rehash ::
  "nat \<Rightarrow> ('w::len word, 'k, 'v) params \<Rightarrow> ('w word, 'k, 'v) table \<Rightarrow> size_t
     \<Rightarrow> ('w word, 'k, 'v) table outcome" where
  "rehash n P t new_num_buckets =
     (if new_num_buckets \<le> num_buckets t then Returns t
      else rehash_loop n P t new_num_buckets [])"

definition get_grow_size :: "('w::len word, 'k, 'v) params \<Rightarrow> ('w word, 'k, 'v) table \<Rightarrow> size_t" where
  "get_grow_size P t =
     (let new_num_buckets = max (num_buckets t + MIN_BINS_SIZE P) (grow_mul P (num_buckets t))
      in if new_num_buckets < num_buckets t then SIZE_MAX else new_num_buckets)"

subsection \<open>Constructors and the public operations\<close>

definition CBG_IMPL_default :: "('w::len word, 'k, 'v) table" where
  "CBG_IMPL_default = \<lparr>metadata = [], elems = [], num_elems = 0, num_buckets = 0\<rparr>"

definition CBG_IMPL ::
  "('w::len word, 'k, 'v) params \<Rightarrow> size_t \<Rightarrow> ('w word, 'k, 'v) table option" where
  "CBG_IMPL P expected_num_elems =
     (let n = max (MIN_BINS_SIZE P) expected_num_elems
      in reverse_last_buckets
           \<lparr>metadata = replicate (unat n) 0, elems = map (raw_elem P) [0 ..< unat n],
            num_elems = 0, num_buckets = n\<rparr>
           (offsets 0 (NUM_ELEMS_BUCKET P - 1)))"

definition capacity :: "('m, 'k, 'v) table \<Rightarrow> size_t" where
  "capacity t = num_buckets t"

definition size_cbg :: "('m, 'k, 'v) table \<Rightarrow> size_t" where
  "size_cbg t = num_elems t"

definition empty_cbg :: "('m, 'k, 'v) table \<Rightarrow> bool" where
  "empty_cbg t \<longleftrightarrow> num_elems t = 0"

text \<open>
  Single-precision numbers. A finite \<^verbatim>\<open>float\<close> is modelled as the rational number it
  denotes. \<open>round_float\<close> is the rounding of a rational number to the nearest number
  with 24 significant bits, ties to the even significand, as IEEE 754 binary32 arithmetic
  does in its default mode: \<open>binade x\<close> is the exponent \<open>e\<close> with \<open>2 ^ e \<le> x < 2 ^ (e + 1)\<close>,
  and the significand is rounded to a multiple of \<open>2 ^ (e - 23)\<close>. The model has no value
  for a magnitude below \<open>2 ^ -126\<close> and for a result of \<open>2 ^ 128\<close> or more, where binary32
  has subnormal numbers and infinities, nor for a division by zero.
\<close>

definition round_half_even :: "rat \<Rightarrow> int" where
  "round_half_even x =
     (let f = \<lfloor>x\<rfloor>; d = x - of_int f
      in if d < 1 / 2 then f else if 1 / 2 < d then f + 1 else if even f then f else f + 1)"

definition binade :: "rat \<Rightarrow> int" where
  "binade x = (if 1 \<le> x then bitlen \<lfloor>x\<rfloor> - 1 else - bitlen (\<lceil>1 / x\<rceil> - 1))"

definition round_float :: "rat \<Rightarrow> rat option" where
  "round_float x =
     (if x = 0 then Some 0
      else let e = binade \<bar>x\<bar>;
               r = of_int (round_half_even (\<bar>x\<bar> / power_int 2 (e - 23))) * power_int 2 (e - 23)
           in if e < - 126 \<or> power_int 2 128 \<le> r then None else Some (sgn x * r))"

definition float_of_size :: "size_t \<Rightarrow> rat option" where
  "float_of_size n = round_float (of_nat (unat n))"

definition float_mul :: "rat \<Rightarrow> rat \<Rightarrow> rat option" where
  "float_mul a b = round_float (a * b)"

definition float_div :: "rat \<Rightarrow> rat \<Rightarrow> rat option" where
  "float_div a b = (if b = 0 then None else round_float (a / b))"

text \<open>
  \<^verbatim>\<open>return size() * 100f / capacity();\<close> with \<^verbatim>\<open>100f\<close> read as the \<^verbatim>\<open>float\<close>
  constant 100, every operation carried out in \<^verbatim>\<open>float\<close>: \<^verbatim>\<open>size()\<close> is converted and
  multiplied by 100, \<^verbatim>\<open>capacity()\<close> is converted, and the product is divided by it, with
  a rounding after each of the four steps.
\<close>

definition load_factor :: "('m, 'k, 'v) table \<Rightarrow> rat option" where
  "load_factor t = do {
     s \<leftarrow> float_of_size (size_cbg t);
     p \<leftarrow> float_mul s 100;
     c \<leftarrow> float_of_size (capacity t);
     float_div p c
   }"

definition clear ::
  "('w::len word, 'k, 'v) params \<Rightarrow> ('w word, 'k, 'v) table \<Rightarrow> ('w word, 'k, 'v) table option" where
  "clear P t = do {
     t1 \<leftarrow> Clear (t\<lparr>num_elems := 0\<rparr>) 0 (num_buckets t);
     reverse_last_buckets t1 (offsets 0 (NUM_ELEMS_BUCKET P - 1))
   }"

definition reserve ::
  "nat \<Rightarrow> ('w::len word, 'k, 'v) params \<Rightarrow> ('w word, 'k, 'v) table \<Rightarrow> size_t
     \<Rightarrow> ('w word, 'k, 'v) table outcome" where
  "reserve n P t new_capacity = rehash n P t new_capacity"

text \<open>\<^verbatim>\<open>while (!try_insert(elem)) rehash(get_grow_size());\<close>\<close>

fun insert_loop ::
  "nat \<Rightarrow> ('w::len word, 'k, 'v) params \<Rightarrow> ('w word, 'k, 'v) table \<Rightarrow> 'k \<times> 'v
     \<Rightarrow> ('w word, 'k, 'v) table outcome" where
  "insert_loop 0 P t elem = Out_Of_Fuel"
| "insert_loop (Suc n) P t elem =
     (case try_insert n P t elem of
        Returns (True, t', elem') \<Rightarrow> Returns t'
      | Returns (False, t', elem') \<Rightarrow>
          (case rehash n P t' (get_grow_size P t') of
             Returns t'' \<Rightarrow> insert_loop n P t'' elem'
           | Fault \<Rightarrow> Fault
           | Out_Of_Fuel \<Rightarrow> Out_Of_Fuel)
      | Fault \<Rightarrow> Fault
      | Out_Of_Fuel \<Rightarrow> Out_Of_Fuel)"

definition insert_cbg ::
  "nat \<Rightarrow> ('w::len word, 'k, 'v) params \<Rightarrow> ('w word, 'k, 'v) table \<Rightarrow> 'k \<times> 'v
     \<Rightarrow> ('w word, 'k, 'v) table outcome" where
  "insert_cbg n P t to_insert_elem =
     (case (if load_gate P (num_elems t) (num_buckets t) then rehash n P t (get_grow_size P t)
            else Returns t) of
        Returns t1 \<Rightarrow> insert_loop n P t1 to_insert_elem
      | Fault \<Rightarrow> Fault
      | Out_Of_Fuel \<Rightarrow> Out_Of_Fuel)"

text \<open>
  The public operations that look a key up return their result together with the table
  they leave behind; \<^verbatim>\<open>count\<close> is a \<^verbatim>\<open>const\<close> member.
\<close>

definition count ::
  "('w::len word, 'k, 'v) params \<Rightarrow> ('w word, 'k, 'v) table \<Rightarrow> 'k
     \<Rightarrow> (32 word \<times> ('w word, 'k, 'v) table) option" where
  "count P t elem = do {
     elem_pos \<leftarrow> find_position P t elem;
     Some (if elem_pos \<noteq> SIZE_MAX then 1 else 0, t)
   }"

definition erase ::
  "('w::len word, 'k, 'v) params \<Rightarrow> ('w word, 'k, 'v) table \<Rightarrow> 'k
     \<Rightarrow> (32 word \<times> ('w word, 'k, 'v) table) option" where
  "erase P t elem = do {
     elem_pos \<leftarrow> find_position P t elem;
     if elem_pos \<noteq> SIZE_MAX then do {
       t1 \<leftarrow> Set_Empty t elem_pos;
       Some (1, t1)
     } else Some (0, t)
   }"

subsection \<open>Notions used in the statements\<close>

text \<open>
  The source keeps \<^verbatim>\<open>Is_Unlucky_Bucket\<close> commented out and reads the bit in place
  (\<^verbatim>\<open>c0 & 0b10'000'000\<close>).
\<close>

definition Is_Unlucky_Bucket :: "('w::len word, 'k, 'v) table \<Rightarrow> size_t \<Rightarrow> bool option" where
  "Is_Unlucky_Bucket t pos = map_option Is_Unlucky_Bucket_of (meta_at t pos)"

text \<open>The number of occupied cells and the sum of all labels of a table.\<close>

definition occupied :: "('w::len word, 'k, 'v) table \<Rightarrow> nat" where
  "occupied t = length (filter (\<lambda>m. \<not> Is_Empty_of m) (metadata t))"

definition label_sum :: "('w::len word, 'k, 'v) table \<Rightarrow> nat" where
  "label_sum t = sum_list (map Get_Label_of (metadata t))"

text \<open>The labels of the cells of a bucket whose first cell is \<open>init\<close>.\<close>

definition bucket_labels ::
  "('w::len word, 'k, 'v) params \<Rightarrow> ('w word, 'k, 'v) table \<Rightarrow> size_t \<Rightarrow> nat list" where
  "bucket_labels P t init =
     map (\<lambda>i. Get_Label_of (metadata t ! unat (init + i))) (offsets 0 (NUM_ELEMS_BUCKET P))"

text \<open>
  \<open>passes n\<close> is the table and the element in hand after \<open>n\<close> passes of the loop of
  \<^verbatim>\<open>try_insert\<close> that each ended in an eviction.
\<close>

fun passes ::
  "nat \<Rightarrow> ('w::len word, 'k, 'v) params \<Rightarrow> ('w word, 'k, 'v) table \<Rightarrow> 'k \<times> 'v
     \<Rightarrow> (('w word, 'k, 'v) table \<times> ('k \<times> 'v)) option" where
  "passes 0 P t elem = Some (t, elem)"
| "passes (Suc n) P t elem =
     (case try_insert_round P t elem of
        Some (Evicted victim, t') \<Rightarrow> passes n P t' victim
      | _ \<Rightarrow> None)"

text \<open>A sequence of calls of the public \<^verbatim>\<open>insert\<close>, from left to right.\<close>

fun insert_all ::
  "nat \<Rightarrow> ('w::len word, 'k, 'v) params \<Rightarrow> ('w word, 'k, 'v) table \<Rightarrow> ('k \<times> 'v) list
     \<Rightarrow> ('w word, 'k, 'v) table outcome" where
  "insert_all n P t [] = Returns t"
| "insert_all n P t (e # es) =
     (case insert_cbg n P t e of
        Returns t' \<Rightarrow> insert_all n P t' es
      | Fault \<Rightarrow> Fault
      | Out_Of_Fuel \<Rightarrow> Out_Of_Fuel)"

subsection \<open>Concrete parameters\<close>

text \<open>
  The configuration of the end-to-end scenarios of the specification: buckets of three
  cells, struct-of-arrays layout, the hasher \<open>H(x) = (x, x * 0x9E3779B97F4A7C15)\<close>, the
  default load factor 0.9001 and growth factor 1.1 (in exact arithmetic).
\<close>

definition scenario_params :: "(16 word, 64 word, string) params" where
  "scenario_params =
     \<lparr>NUM_ELEMS_BUCKET = 3, IS_SoA = True, platform = Int128,
      hasher = (\<lambda>x. (x, x * 0x9E3779B97F4A7C15)),
      raw_meta = (\<lambda>i. 0), raw_elem = (\<lambda>i. (0, [])),
      load_gate = (\<lambda>num_elems num_buckets. 10000 * unat num_elems \<ge> 9001 * unat num_buckets),
      grow_mul = (\<lambda>num_buckets. of_nat (unat num_buckets * 11 div 10))\<rparr>"

text \<open>
  A set of small numbers whose hasher is given by a list: key \<open>k\<close> has the two hash
  values \<open>a * 2 ^ sh\<close> and \<open>b * 2 ^ sh\<close> for the \<open>k\<close>-th pair \<open>(a, b)\<close>. With \<open>sh = 61\<close>
  a table of 8 cells reduces them to the cell indices \<open>a\<close> and \<open>b\<close>; with \<open>sh = 60\<close> a table
  of 16 cells does, and a table of 8 cells reduces them to \<open>a div 2\<close> and \<open>b div 2\<close>.
\<close>

definition listed_params :: "size_t \<Rightarrow> nat \<Rightarrow> (size_t \<times> size_t) list \<Rightarrow> (16 word, nat, unit) params" where
  "listed_params B sh anchors =
     \<lparr>NUM_ELEMS_BUCKET = B, IS_SoA = True, platform = Int128,
      hasher = (\<lambda>k. if k < length anchors
                     then (push_bit sh (fst (anchors ! k)), push_bit sh (snd (anchors ! k)))
                     else (0, 0)),
      raw_meta = (\<lambda>i. 0), raw_elem = (\<lambda>i. (255, ())),
      load_gate = (\<lambda>num_elems num_buckets. 10000 * unat num_elems \<ge> 9001 * unat num_buckets),
      grow_mul = (\<lambda>num_buckets. of_nat (unat num_buckets * 11 div 10))\<rparr>"

subsection \<open>Concrete tables\<close>

text \<open>
  A table of 8 cells with buckets of three cells, as its constructor leaves it, and the
  same table after \<open>insert (7, "a")\<close>, and then after \<open>erase 7\<close>.
\<close>

definition fresh_table :: "(16 word, 64 word, string) table" where
  "fresh_table =
     \<lparr>metadata = [0, 0, 0, 0, 0, 0, 64, 64],
      elems = [(0, []), (0, []), (0, []), (0, []), (0, []), (0, []), (0, []), (0, [])],
      num_elems = 0, num_buckets = 8\<rparr>"

definition one_key_table :: "(16 word, 64 word, string) table" where
  "one_key_table =
     \<lparr>metadata = [25601, 0, 0, 0, 0, 0, 64, 64],
      elems = [(7, ''a''), (0, []), (0, []), (0, []), (0, []), (0, []), (0, []), (0, [])],
      num_elems = 1, num_buckets = 8\<rparr>"

definition erased_table :: "(16 word, 64 word, string) table" where
  "erased_table =
     \<lparr>metadata = [0, 0, 0, 0, 0, 0, 64, 64],
      elems = [(7, ''a''), (0, []), (0, []), (0, []), (0, []), (0, []), (0, []), (0, [])],
      num_elems = 1, num_buckets = 8\<rparr>"

text \<open>
  The key \<open>0xE000000000000000\<close> has its first bucket at the last cell of a table of 8
  cells, a bucket that is reversed from construction. The table after
  \<open>insert (key, "a")\<close> and after a further \<open>insert (key, "b")\<close>.
\<close>

definition tail_key :: "64 word" where
  "tail_key = 0xE000000000000000"

definition tail_table :: "(16 word, 64 word, string) table" where
  "tail_table =
     \<lparr>metadata = [0, 0, 0, 0, 0, 33, 64, 64],
      elems = [(0, []), (0, []), (0, []), (0, []), (0, []), (tail_key, ''a''), (0, []), (0, [])],
      num_elems = 1, num_buckets = 8\<rparr>"

definition twice_table :: "(16 word, 64 word, string) table" where
  "twice_table =
     \<lparr>metadata = [0, 0, 0, 0, 0, 33, 105, 64],
      elems = [(0, []), (0, []), (0, []), (0, []), (0, []), (tail_key, ''a''), (tail_key, ''b''), (0, [])],
      num_elems = 2, num_buckets = 8\<rparr>"

text \<open>
  Seven keys in a table of 8 cells with buckets of two cells; the table after the
  first six were inserted. Key 2 sits in its second bucket.
\<close>

definition chain_params :: "(16 word, nat, unit) params" where
  "chain_params = listed_params 2 61 [(4, 4), (4, 2), (4, 2), (0, 1), (2, 3), (0, 0), (1, 1)]"

definition chain_table :: "(16 word, nat, unit) table" where
  "chain_table =
     \<lparr>metadata = [1, 9, 2, 9, 129, 9, 0, 64],
      elems = [(3, ()), (5, ()), (2, ()), (4, ()), (0, ()), (1, ()), (255, ()), (255, ())],
      num_elems = 6, num_buckets = 8\<rparr>"

text \<open>The last table of that chain: \<open>chain_table\<close> after 29 passes of \<^verbatim>\<open>try_insert\<close> on key 6.\<close>

definition chain_last :: "(16 word, nat, unit) table" where
  "chain_last =
     \<lparr>metadata = [7, 15, 143, 14, 143, 15, 0, 64],
      elems = [(3, ()), (5, ()), (6, ()), (2, ()), (4, ()), (1, ()), (255, ()), (255, ())],
      num_elems = 6, num_buckets = 8\<rparr>"

text \<open>
  Five keys that share the cells 3 to 6 of a table of 8 cells with buckets of two cells:
  the table after the first four were inserted (\<open>limit_start\<close>), after 16 passes of
  \<^verbatim>\<open>try_insert\<close> on key 4 (\<open>limit_table\<close>), after the 17th pass (\<open>limit_next\<close>) and
  after the 18th, which places the element in hand (\<open>limit_done\<close>).
\<close>

definition limit_params :: "(16 word, nat, unit) params" where
  "limit_params = listed_params 2 61 [(3, 4), (5, 5), (5, 3), (3, 3), (5, 4)]"

definition limit_start :: "(16 word, nat, unit) table" where
  "limit_start =
     \<lparr>metadata = [0, 0, 0, 1, 9, 1, 9, 64],
      elems = [(255, ()), (255, ()), (255, ()), (0, ()), (3, ()), (1, ()), (2, ()), (255, ())],
      num_elems = 4, num_buckets = 8\<rparr>"

definition limit_table :: "(16 word, nat, unit) table" where
  "limit_table =
     \<lparr>metadata = [0, 0, 0, 134, 14, 135, 15, 64],
      elems = [(255, ()), (255, ()), (255, ()), (0, ()), (3, ()), (1, ()), (2, ()), (255, ())],
      num_elems = 4, num_buckets = 8\<rparr>"

definition limit_next :: "(16 word, nat, unit) table" where
  "limit_next =
     \<lparr>metadata = [0, 0, 0, 134, 7, 135, 15, 64],
      elems = [(255, ()), (255, ()), (255, ()), (0, ()), (4, ()), (1, ()), (2, ()), (255, ())],
      num_elems = 4, num_buckets = 8\<rparr>"

definition limit_done :: "(16 word, nat, unit) table" where
  "limit_done =
     \<lparr>metadata = [0, 0, 38, 239, 7, 135, 15, 64],
      elems = [(255, ()), (255, ()), (0, ()), (3, ()), (4, ()), (1, ()), (2, ()), (255, ())],
      num_elems = 5, num_buckets = 8\<rparr>"

text \<open>
  Six keys at the end of a table of 16 cells with buckets of three cells: the table
  after the first five were inserted, and after one pass of \<^verbatim>\<open>try_insert\<close> on key 5.
\<close>

definition level_params :: "(16 word, nat, unit) params" where
  "level_params = listed_params 3 60 [(12, 8), (13, 13), (14, 8), (13, 14), (14, 14), (14, 13)]"

definition level_table :: "(16 word, nat, unit) table" where
  "level_table =
     \<lparr>metadata = [0, 0, 0, 0, 0, 0, 0, 0, 0, 0, 33, 0, 98, 1, 113, 82],
      elems = [(255, ()), (255, ()), (255, ()), (255, ()), (255, ()), (255, ()), (255, ()), (255, ()),
               (255, ()), (255, ()), (0, ()), (255, ()), (4, ()), (1, ()), (2, ()), (3, ())],
      num_elems = 5, num_buckets = 16\<rparr>"

definition level_next :: "(16 word, nat, unit) table" where
  "level_next =
     \<lparr>metadata = [0, 0, 0, 0, 0, 0, 0, 0, 0, 0, 33, 33, 98, 106, 113, 64],
      elems = [(255, ()), (255, ()), (255, ()), (255, ()), (255, ()), (255, ()), (255, ()), (255, ()),
               (255, ()), (255, ()), (0, ()), (1, ()), (4, ()), (5, ()), (2, ()), (3, ())],
      num_elems = 5, num_buckets = 16\<rparr>"

text \<open>
  Three keys in a table of 8 cells with buckets of two cells that is grown to 16 cells:
  the table before \<^verbatim>\<open>reserve 16\<close>, after the reallocation, after the old cells 7 and 6
  were moved, and after the call. In the table of 16 cells key 2 has its first bucket
  at cell 10 and its second bucket at cell 12.
\<close>

definition regrow_params :: "(16 word, nat, unit) params" where
  "regrow_params = listed_params 2 60 [(12, 0), (12, 0), (10, 12)]"

definition regrow_table :: "(16 word, nat, unit) table" where
  "regrow_table =
     \<lparr>metadata = [0, 0, 0, 0, 0, 2, 1, 73],
      elems = [(255, ()), (255, ()), (255, ()), (255, ()), (255, ()), (2, ()), (0, ()), (1, ())],
      num_elems = 3, num_buckets = 8\<rparr>"

definition regrow_prepared :: "(16 word, nat, unit) table" where
  "regrow_prepared =
     \<lparr>metadata = [0, 0, 0, 0, 0, 2, 1, 73, 0, 0, 0, 0, 0, 0, 0, 64],
      elems = [(255, ()), (255, ()), (255, ()), (255, ()), (255, ()), (2, ()), (0, ()), (1, ()),
               (255, ()), (255, ()), (255, ()), (255, ()), (255, ()), (255, ()), (255, ()), (255, ())],
      num_elems = 0, num_buckets = 16\<rparr>"

definition regrow_moved_7 :: "(16 word, nat, unit) table" where
  "regrow_moved_7 =
     \<lparr>metadata = [0, 0, 0, 0, 0, 2, 1, 0, 0, 0, 0, 0, 1, 0, 0, 64],
      elems = [(255, ()), (255, ()), (255, ()), (255, ()), (255, ()), (2, ()), (0, ()), (1, ()),
               (255, ()), (255, ()), (255, ()), (255, ()), (1, ()), (255, ()), (255, ()), (255, ())],
      num_elems = 1, num_buckets = 16\<rparr>"

definition regrow_moved_6 :: "(16 word, nat, unit) table" where
  "regrow_moved_6 =
     \<lparr>metadata = [0, 0, 0, 0, 0, 2, 0, 0, 0, 0, 0, 0, 1, 9, 0, 64],
      elems = [(255, ()), (255, ()), (255, ()), (255, ()), (255, ()), (2, ()), (0, ()), (1, ()),
               (255, ()), (255, ()), (255, ()), (255, ()), (1, ()), (0, ()), (255, ()), (255, ())],
      num_elems = 2, num_buckets = 16\<rparr>"

definition regrow_done :: "(16 word, nat, unit) table" where
  "regrow_done =
     \<lparr>metadata = [0, 0, 0, 0, 0, 0, 0, 0, 0, 0, 1, 0, 1, 9, 0, 64],
      elems = [(255, ()), (255, ()), (255, ()), (255, ()), (255, ()), (2, ()), (0, ()), (1, ()),
               (255, ()), (255, ()), (2, ()), (255, ()), (1, ()), (0, ()), (255, ()), (255, ())],
      num_elems = 3, num_buckets = 16\<rparr>"

text \<open>
  The tables of that chain after the first two keys and after key 2, which goes to its
  second bucket.
\<close>

definition chain_two :: "(16 word, nat, unit) table" where
  "chain_two =
     \<lparr>metadata = [0, 0, 0, 0, 1, 9, 0, 64],
      elems = [(255, ()), (255, ()), (255, ()), (255, ()), (0, ()), (1, ()), (255, ()), (255, ())],
      num_elems = 2, num_buckets = 8\<rparr>"

definition chain_three :: "(16 word, nat, unit) table" where
  "chain_three =
     \<lparr>metadata = [0, 0, 2, 0, 129, 9, 0, 64],
      elems = [(255, ()), (255, ()), (2, ()), (255, ()), (0, ()), (1, ()), (255, ()), (255, ())],
      num_elems = 3, num_buckets = 8\<rparr>"

text \<open>
  Three keys in a table of 8 cells with buckets of two cells: the table after the first
  two were inserted, after the hopscotch search for key 2 has reversed the bucket at cell 3,
  and after key 2 was placed in the cell that the search returned.
\<close>

definition hop_params :: "(16 word, nat, unit) params" where
  "hop_params = listed_params 2 61 [(3, 0), (4, 0), (3, 6)]"

definition hop_table :: "(16 word, nat, unit) table" where
  "hop_table =
     \<lparr>metadata = [0, 0, 0, 1, 1, 0, 0, 64],
      elems = [(255, ()), (255, ()), (255, ()), (0, ()), (1, ()), (255, ()), (255, ()), (255, ())],
      num_elems = 2, num_buckets = 8\<rparr>"

definition hop_moved :: "(16 word, nat, unit) table" where
  "hop_moved =
     \<lparr>metadata = [0, 0, 33, 64, 1, 0, 0, 64],
      elems = [(255, ()), (255, ()), (0, ()), (0, ()), (1, ()), (255, ()), (255, ()), (255, ())],
      num_elems = 2, num_buckets = 8\<rparr>"

definition hop_done :: "(16 word, nat, unit) table" where
  "hop_done =
     \<lparr>metadata = [0, 0, 33, 105, 1, 0, 0, 64],
      elems = [(255, ()), (255, ()), (0, ()), (2, ()), (1, ()), (255, ()), (255, ()), (255, ())],
      num_elems = 3, num_buckets = 8\<rparr>"

section \<open>Properties\<close>

subsection \<open>Evaluation on concrete tables\<close>

lemma replicate_numeral: "replicate (numeral k) x = x # replicate (pred_numeral k) x"
  by (simp add: numeral_eq_Suc)

lemma try_insert_numeral:
  "try_insert (numeral k) P t elem =
     (case try_insert_round P t elem of
        None \<Rightarrow> Fault
      | Some (Return b, t') \<Rightarrow> Returns (b, t', elem)
      | Some (Evicted victim, t') \<Rightarrow> try_insert (pred_numeral k) P t' victim)"
  by (simp add: numeral_eq_Suc)

lemma passes_numeral:
  "passes (numeral k) P t elem =
     (case try_insert_round P t elem of
        Some (Evicted victim, t') \<Rightarrow> passes (pred_numeral k) P t' victim
      | _ \<Rightarrow> None)"
  by (simp add: numeral_eq_Suc)

lemma insert_loop_numeral:
  "insert_loop (numeral k) P t elem =
     (case try_insert (pred_numeral k) P t elem of
        Returns (True, t', elem') \<Rightarrow> Returns t'
      | Returns (False, t', elem') \<Rightarrow>
          (case rehash (pred_numeral k) P t' (get_grow_size P t') of
             Returns t'' \<Rightarrow> insert_loop (pred_numeral k) P t'' elem'
           | Fault \<Rightarrow> Fault
           | Out_Of_Fuel \<Rightarrow> Out_Of_Fuel)
      | Fault \<Rightarrow> Fault
      | Out_Of_Fuel \<Rightarrow> Out_Of_Fuel)"
  by (simp add: numeral_eq_Suc)

lemma rehash_loop_numeral:
  "rehash_loop (numeral k) P t new_num_buckets secondary_tmp =
     (case rehash_move P t new_num_buckets secondary_tmp of
        None \<Rightarrow> Fault
      | Some (t1, tmp) \<Rightarrow>
          (case rehash_insert (pred_numeral k) P t1 tmp of
             Returns (need_rehash, t2, tmp2) \<Rightarrow>
               if need_rehash
               then rehash_loop (pred_numeral k) P t2
                      (new_num_buckets + max 1 (new_num_buckets div 128)) tmp2
               else Returns t2
           | Fault \<Rightarrow> Fault
           | Out_Of_Fuel \<Rightarrow> Out_Of_Fuel))"
  by (simp add: numeral_eq_Suc)

lemma word64_numeral_le_1: "(numeral k :: 64 word) \<le> 1 \<longleftrightarrow> unat (numeral k :: 64 word) \<le> 1"
  by (simp add: word_le_nat_alt)

lemma word64_1_le_numeral: "(1 :: 64 word) \<le> numeral k \<longleftrightarrow> 1 \<le> unat (numeral k :: 64 word)"
  by (simp add: word_le_nat_alt)

lemma word64_numeral_less_1: "(numeral k :: 64 word) < 1 \<longleftrightarrow> unat (numeral k :: 64 word) < 1"
  by (simp add: word_less_nat_alt)

lemma word64_1_less_numeral: "(1 :: 64 word) < numeral k \<longleftrightarrow> 1 < unat (numeral k :: 64 word)"
  by (simp add: word_less_nat_alt)

lemmas codec_defs =
  Get_Label_of_def Is_Empty_of_def Set_Empty_of_def Get_Hash_of_def Update_Bin_At_of_def
  Is_Item_In_Reverse_Bucket_of_def Distance_to_Entry_Bin_of_def Is_Unlucky_Bucket_of_def
  Set_Unlucky_Bucket_of_def Is_Bucket_Reversed_of_def Set_Bucket_Reversed_of_def

lemmas cell_defs =
  SIZE_MAX_def L_MAX_def in_range_def meta_at_def put_def Get_Label_def Is_Empty_def Set_Empty_def
  Get_Hash_def Update_Bin_At_def Is_Item_In_Reverse_Bucket_def Distance_to_Entry_Bin_def
  Set_Unlucky_Bucket_def Is_Bucket_Reversed_def Set_Bucket_Reversed_def Is_Unlucky_Bucket_def
  Clear_def MoveElem_def SaveElem_def GetKey_def GetElem_def GetValue_def cmp_elems_def
  offsets_def upt_rec fastrange_def fastrange64_def umulh_def static_assert_def MIN_BINS_SIZE_def
  replicate_numeral word64_numeral_le_1 word64_1_le_numeral word64_numeral_less_1
  word64_1_less_numeral

lemmas insertion_defs =
  Calculate_Minimum_def Belong_to_Bucket_def Count_Empty_def
  Count_Elems_In_Bucket_Non_Reversed_def Reverse_Bucket_def credit_def
  hopscotch_reverse_bucket_def Find_Empty_Pos_Hopscotch_def find_candidates_def place_def
  evict_def try_insert_round_def find_empty_space.simps find_swap.simps hopscotch_move.simps
  hopscotch_scan.simps try_insert_numeral passes_numeral

lemmas lookup_defs =
  hit_first_SoA_def hit_second_SoA_def hit_AoS_def check_bucket_def first_bucket_SoA_def
  second_bucket_SoA_def first_bucket_AoS_def second_bucket_AoS_def primary_metadata_def
  find_position_SoA_def find_position_AoS_def find_position_def

lemmas public_defs =
  ReallocElems_def ReallocMetadata_def rehash_cell_def rehash_scan.simps rehash_first_def
  rehash_prepare_def rehash_move_def rehash_def get_grow_size_def CBG_IMPL_def capacity_def size_cbg_def
  empty_cbg_def clear_def reserve_def insert_cbg_def count_def erase_def insert_loop_numeral
  rehash_loop_numeral occupied_def label_sum_def bucket_labels_def scenario_params_def
  listed_params_def

lemmas cbg_eval = codec_defs cell_defs insertion_defs lookup_defs public_defs

lemma fresh_table_constructed: "CBG_IMPL scenario_params 8 = Some fresh_table"
  by (simp add: cbg_eval fresh_table_def)

lemma one_key_table_inserted: "insert_cbg 3 scenario_params fresh_table (7, ''a'') = Returns one_key_table"
  by (simp add: cbg_eval fresh_table_def one_key_table_def)

lemma one_key_table_found: "find_position scenario_params one_key_table 7 = Some 0"
  by (simp add: cbg_eval one_key_table_def)

lemma erased_table_erased: "erase scenario_params one_key_table 7 = Some (1, erased_table)"
  by (simp add: cbg_eval one_key_table_def erased_table_def)

lemma tail_table_inserted: "insert_cbg 3 scenario_params fresh_table (tail_key, ''a'') = Returns tail_table"
  by (simp add: cbg_eval fresh_table_def tail_table_def tail_key_def)

lemma tail_table_found: "find_position scenario_params tail_table tail_key = Some 5"
  by (simp add: cbg_eval tail_table_def tail_key_def)

lemma twice_table_inserted: "insert_cbg 3 scenario_params tail_table (tail_key, ''b'') = Returns twice_table"
  by (simp add: cbg_eval twice_table_def tail_table_def tail_key_def)

lemma twice_table_found: "find_position scenario_params twice_table tail_key = Some 6"
  by (simp add: cbg_eval twice_table_def tail_key_def)

lemma chain_table_inserted:
  "\<exists>t. CBG_IMPL chain_params 8 = Some t
     \<and> insert_all 3 chain_params t [(0, ()), (1, ()), (2, ()), (3, ()), (4, ()), (5, ())]
         = Returns chain_table"
  by (simp add: cbg_eval chain_params_def chain_table_def)

lemma tail_table_candidates:
  "\<exists>c. find_candidates scenario_params tail_table tail_key = Some c \<and> min1 c = 0 \<and> pos1 c = 6"
  by (simp add: cbg_eval tail_table_def tail_key_def)

lemma twice_table_round:
  "try_insert_round scenario_params tail_table (tail_key, ''b'') = Some (Return True, twice_table)"
  by (simp add: cbg_eval twice_table_def tail_table_def tail_key_def)

lemma chain_last_passes: "passes 29 chain_params chain_table (6, ()) = Some (chain_last, (0, ()))"
  by (simp add: cbg_eval chain_params_def chain_table_def chain_last_def)

lemma chain_last_candidates:
  "\<exists>c. find_candidates chain_params chain_last 0 = Some c \<and> min1 c = 7 \<and> min2 c = 7
     \<and> bucket1_pos c = 4 \<and> bucket1_init c = 4"
  by (simp add: cbg_eval chain_params_def chain_last_def)

lemma chain_last_hopscotch:
  "Find_Empty_Pos_Hopscotch chain_params chain_last 4 4 = Some (SIZE_MAX, chain_last)"
  by (simp add: cbg_eval chain_params_def chain_last_def)

lemma chain_last_round:
  "try_insert_round chain_params chain_last (0, ()) = Some (Return False, chain_last)"
  by (simp add: cbg_eval chain_params_def chain_last_def)

lemma limit_start_inserted:
  "\<exists>t. CBG_IMPL limit_params 8 = Some t
     \<and> insert_all 3 limit_params t [(0, ()), (1, ()), (2, ()), (3, ())] = Returns limit_start"
  by (simp add: cbg_eval limit_params_def limit_start_def)

lemma limit_table_passes: "passes 16 limit_params limit_start (4, ()) = Some (limit_table, (4, ()))"
  by (simp add: cbg_eval limit_params_def limit_start_def limit_table_def)

lemma limit_table_candidates:
  "\<exists>c. find_candidates limit_params limit_table 4 = Some c \<and> min1 c = 7 \<and> min2 c = 6
     \<and> bucket1_pos c = 5 \<and> bucket2_pos c = 4 \<and> bucket1_init c = 5 \<and> bucket2_init c = 4
     \<and> pos1 c = 5 \<and> pos2 c = 4"
  by (simp add: cbg_eval limit_params_def limit_table_def)

lemma limit_table_hopscotch:
  "Find_Empty_Pos_Hopscotch limit_params limit_table 5 5 = Some (SIZE_MAX, limit_table)"
  by (simp add: cbg_eval limit_params_def limit_table_def)

lemma limit_next_round:
  "try_insert_round limit_params limit_table (4, ()) = Some (Evicted (3, ()), limit_next)"
  by (simp add: cbg_eval limit_params_def limit_table_def limit_next_def)

lemma limit_done_round:
  "try_insert_round limit_params limit_next (3, ()) = Some (Return True, limit_done)"
  by (simp add: cbg_eval limit_params_def limit_next_def limit_done_def)

lemma level_table_inserted:
  "\<exists>t. CBG_IMPL level_params 16 = Some t
     \<and> insert_all 3 level_params t [(0, ()), (1, ()), (2, ()), (3, ()), (4, ())] = Returns level_table"
  by (simp add: cbg_eval level_params_def level_table_def)

lemma level_table_candidates:
  "\<exists>c. find_candidates level_params level_table 5 = Some c \<and> min1 c = 1 \<and> min2 c = 1
     \<and> bucket1_pos c = 14 \<and> bucket1_init c = 12 \<and> pos1 c = 13"
  by (simp add: cbg_eval level_params_def level_table_def)

lemma level_table_hopscotch:
  "\<exists>t1. Find_Empty_Pos_Hopscotch level_params level_table 14 12 = Some (SIZE_MAX, t1)
     \<and> GetElem t1 13 = Some (3, ()) \<and> Get_Label t1 13 = Some 2"
  by (simp add: cbg_eval level_params_def level_table_def)

lemma level_next_round:
  "try_insert_round level_params level_table (5, ()) = Some (Evicted (3, ()), level_next)"
  by (simp add: cbg_eval level_params_def level_table_def level_next_def)

lemma level_label_sum: "label_sum level_table = 7 \<and> label_sum level_next = 7"
  by (simp add: cbg_eval level_table_def level_next_def)

lemma chain_two_inserted:
  "\<exists>t. CBG_IMPL chain_params 8 = Some t
     \<and> insert_all 3 chain_params t [(0, ()), (1, ())] = Returns chain_two"
  by (simp add: cbg_eval chain_params_def chain_two_def)

lemma chain_two_candidates:
  "\<exists>c. find_candidates chain_params chain_two 2 = Some c \<and> min1 c = 1 \<and> min2 c = 0
     \<and> bucket1_pos c = 4 \<and> bucket1_init c = 4 \<and> bucket2_init c = 2 \<and> pos2 c = 2"
  by (simp add: cbg_eval chain_params_def chain_two_def)

lemma chain_two_hopscotch:
  "Find_Empty_Pos_Hopscotch chain_params chain_two 4 4 = Some (SIZE_MAX, chain_two)"
  by (simp add: cbg_eval chain_params_def chain_two_def)

lemma chain_three_round:
  "try_insert_round chain_params chain_two (2, ()) = Some (Return True, chain_three)"
  by (simp add: cbg_eval chain_params_def chain_two_def chain_three_def)

lemma hop_table_inserted:
  "\<exists>t. CBG_IMPL hop_params 8 = Some t
     \<and> insert_all 3 hop_params t [(0, ()), (1, ())] = Returns hop_table"
  by (simp add: cbg_eval hop_params_def hop_table_def)

lemma hop_table_candidates:
  "\<exists>c. find_candidates hop_params hop_table 2 = Some c \<and> min1 c = 1 \<and> min2 c = 0
     \<and> bucket1_pos c = 3 \<and> bucket1_init c = 3 \<and> bucket2_init c = 6"
  by (simp add: cbg_eval hop_params_def hop_table_def)

lemma hop_table_hopscotch:
  "Find_Empty_Pos_Hopscotch hop_params hop_table 3 3 = Some (3, hop_moved)"
  by (simp add: cbg_eval hop_params_def hop_table_def hop_moved_def)

lemma hop_done_round:
  "try_insert_round hop_params hop_table (2, ()) = Some (Return True, hop_done)"
  by (simp add: cbg_eval hop_params_def hop_table_def hop_done_def)

lemma regrow_table_inserted:
  "\<exists>t. CBG_IMPL regrow_params 8 = Some t
     \<and> insert_all 3 regrow_params t [(0, ()), (1, ()), (2, ())] = Returns regrow_table"
  by (simp add: cbg_eval regrow_params_def regrow_table_def)

lemma regrow_prepared_prepared: "rehash_prepare regrow_params regrow_table 16 = Some regrow_prepared"
  by (simp add: cbg_eval regrow_params_def regrow_table_def regrow_prepared_def)

lemma regrow_moved_7_moved: "rehash_cell regrow_params regrow_prepared 7 [] = Some (regrow_moved_7, [])"
  by (simp add: cbg_eval regrow_params_def regrow_prepared_def regrow_moved_7_def)

lemma regrow_moved_6_moved: "rehash_cell regrow_params regrow_moved_7 6 [] = Some (regrow_moved_6, [])"
  by (simp add: cbg_eval regrow_params_def regrow_moved_7_def regrow_moved_6_def)

lemma regrow_moved_6_alternate:
  "fastrange (platform regrow_params) (snd (hasher regrow_params 2)) (num_buckets regrow_moved_6) = Some 12
   \<and> Is_Bucket_Reversed regrow_moved_6 12 = Some False
   \<and> bucket_labels regrow_params regrow_moved_6 12 = [1, 1]"
  by (simp add: cbg_eval regrow_params_def regrow_moved_6_def)

lemma regrow_done_moved:
  "rehash_cell regrow_params regrow_moved_6 5 [] = Some (regrow_done, [])"
  by (simp add: cbg_eval regrow_params_def regrow_moved_6_def regrow_done_def)

lemma regrow_done_reserved: "reserve 3 regrow_params regrow_table 16 = Returns regrow_done"
  by (simp add: cbg_eval regrow_params_def regrow_table_def regrow_done_def)

lemma regrow_done_label:
  "GetElem regrow_done 10 = Some (2, ()) \<and> Get_Label regrow_done 10 = Some 1
   \<and> find_position regrow_params regrow_done 2 = Some 10
   \<and> bucket_labels regrow_params regrow_done 12 = [1, 1]"
  by (simp add: cbg_eval regrow_params_def regrow_done_def)


subsection \<open>Metadata codec\<close>

lemma Set_Empty_of_low_bits: "Set_Empty_of m AND 0x3F = 0"
  unfolding Set_Empty_of_def by (simp add: word_bw_assocs)

lemma Set_Empty_of_flag_bits: "Set_Empty_of m AND 0xC0 = m AND 0xC0"
  unfolding Set_Empty_of_def by (simp add: word_bw_assocs)

lemma Get_Label_of_Set_Empty_of: "Get_Label_of (Set_Empty_of m) = 0"
proof -
  have "Set_Empty_of m AND 7 = (Set_Empty_of m AND 0x3F) AND 7"
    by (simp add: word_bw_assocs)
  then show ?thesis
    by (simp add: Get_Label_of_def Set_Empty_of_low_bits)
qed

lemma Distance_to_Entry_Bin_of_Set_Empty_of: "Distance_to_Entry_Bin_of (Set_Empty_of m) = 0"
proof -
  let ?x = "Set_Empty_of m"
  have m2: "(3::'a word) = mask 2" and m5: "(31::'a word) = mask 5"
    by (simp_all add: mask_eq_exp_minus_1)
  have "?x AND 31 = (?x AND 0x3F) AND 31"
    by (simp add: word_bw_assocs)
  then have "take_bit 5 ?x = 0"
    by (simp add: Set_Empty_of_low_bits take_bit_eq_mask flip: m5)
  then have "drop_bit 3 (take_bit 5 ?x) = 0"
    by simp
  then have "take_bit 2 (drop_bit 3 ?x) = 0"
    by (simp add: drop_bit_take_bit)
  then have "drop_bit 3 ?x AND 3 = 0"
    by (simp add: take_bit_eq_mask flip: m2)
  then show ?thesis
    by (simp add: Distance_to_Entry_Bin_of_def)
qed

lemma Is_Item_In_Reverse_Bucket_of_Set_Empty_of: "\<not> Is_Item_In_Reverse_Bucket_of (Set_Empty_of m)"
proof -
  have "Set_Empty_of m AND 0x20 = (Set_Empty_of m AND 0x3F) AND 0x20"
    by (simp add: word_bw_assocs)
  then show ?thesis
    by (simp add: Is_Item_In_Reverse_Bucket_of_def Set_Empty_of_low_bits)
qed

lemma Is_Bucket_Reversed_of_Set_Empty_of:
  "Is_Bucket_Reversed_of (Set_Empty_of m) = Is_Bucket_Reversed_of m"
proof -
  have "Set_Empty_of m AND 0x40 = (Set_Empty_of m AND 0xC0) AND 0x40"
    and "m AND 0x40 = (m AND 0xC0) AND 0x40"
    by (simp_all add: word_bw_assocs)
  then show ?thesis
    by (simp add: Is_Bucket_Reversed_of_def Set_Empty_of_flag_bits)
qed

lemma Is_Unlucky_Bucket_of_Set_Empty_of:
  "Is_Unlucky_Bucket_of (Set_Empty_of m) = Is_Unlucky_Bucket_of m"
proof -
  have "Set_Empty_of m AND 0x80 = (Set_Empty_of m AND 0xC0) AND 0x80"
    and "m AND 0x80 = (m AND 0xC0) AND 0x80"
    by (simp_all add: word_bw_assocs)
  then show ?thesis
    by (simp add: Is_Unlucky_Bucket_of_def Set_Empty_of_flag_bits)
qed

lemma meta_at_put: "put t pos m = Some t' \<Longrightarrow> meta_at t' pos = Some m"
  by (auto simp: put_def meta_at_def in_range_def split: if_splits)

lemma Set_Empty_at:
  "Set_Empty t pos = Some t' \<Longrightarrow> \<exists>c. meta_at t pos = Some c \<and> meta_at t' pos = Some (Set_Empty_of c)"
  by (auto simp: Set_Empty_def meta_at_put split: Option.bind_splits)

text \<open>
  C7. \<^verbatim>\<open>Set_Empty\<close> keeps of a metadata word exactly the bits 6 and 7: it clears the
  bits 0 to 5, that is the label, the distance and the flag of an item in a reversed
  bucket, and leaves the flags "bucket is reversed" and "unlucky bucket" as they were
  (in the 16-bit layout the cached hash byte is cleared as well). This holds for every
  metadata word of every width, so for both layouts. A successful \<^verbatim>\<open>erase\<close> applies
  \<^verbatim>\<open>Set_Empty\<close> to the cell that \<^verbatim>\<open>find_position\<close> returned, so the two flags of
  that cell are the same before and after.
\<close>

theorem Set_Empty_clears_cell_keeps_bucket_flags:
  "Set_Empty_of m AND 0x3F = 0 \<and> Set_Empty_of m AND 0xC0 = m AND 0xC0
   \<and> Get_Label_of (Set_Empty_of m) = 0 \<and> Distance_to_Entry_Bin_of (Set_Empty_of m) = 0
   \<and> \<not> Is_Item_In_Reverse_Bucket_of (Set_Empty_of m)
   \<and> Is_Bucket_Reversed_of (Set_Empty_of m) = Is_Bucket_Reversed_of m
   \<and> Is_Unlucky_Bucket_of (Set_Empty_of m) = Is_Unlucky_Bucket_of m
   \<and> (erase P t k = Some (1, t') \<longrightarrow>
        (\<exists>pos c. find_position P t k = Some pos \<and> meta_at t pos = Some c \<and> meta_at t' pos = Some (Set_Empty_of c)
           \<and> Is_Bucket_Reversed t' pos = Is_Bucket_Reversed t pos
           \<and> Is_Unlucky_Bucket t' pos = Is_Unlucky_Bucket t pos))"
proof -
  have "\<exists>pos c. find_position P t k = Some pos \<and> meta_at t pos = Some c \<and> meta_at t' pos = Some (Set_Empty_of c)
           \<and> Is_Bucket_Reversed t' pos = Is_Bucket_Reversed t pos
           \<and> Is_Unlucky_Bucket t' pos = Is_Unlucky_Bucket t pos"
    if "erase P t k = Some (1, t')"
  proof -
    from that obtain pos where pos: "find_position P t k = Some pos" and se: "Set_Empty t pos = Some t'"
      by (auto simp: erase_def split: Option.bind_splits if_splits)
    from Set_Empty_at [OF se] obtain c where "meta_at t pos = Some c" "meta_at t' pos = Some (Set_Empty_of c)"
      by blast
    with pos show ?thesis
      by (simp add: Is_Bucket_Reversed_def Is_Unlucky_Bucket_def
          Is_Bucket_Reversed_of_Set_Empty_of Is_Unlucky_Bucket_of_Set_Empty_of)
  qed
  then show ?thesis
    by (simp add: Set_Empty_of_low_bits Set_Empty_of_flag_bits Get_Label_of_Set_Empty_of
        Distance_to_Entry_Bin_of_Set_Empty_of Is_Item_In_Reverse_Bucket_of_Set_Empty_of
        Is_Bucket_Reversed_of_Set_Empty_of Is_Unlucky_Bucket_of_Set_Empty_of)
qed

text \<open>
  In the table \<open>chain_table\<close> key 0 is stored in cell 4, whose metadata 129 carries
  the unlucky flag; erasing the key leaves 128 there.
\<close>

theorem Set_Empty_clears_cell_keeps_bucket_flags_witness:
  "erase chain_params chain_table 0
     = Some (1, chain_table\<lparr>metadata := [1, 9, 2, 9, 128, 9, 0, 64]\<rparr>)
   \<and> find_position chain_params chain_table 0 = Some 4
   \<and> meta_at chain_table 4 = Some 129 \<and> Set_Empty_of (129 :: 16 word) = 128
   \<and> Is_Unlucky_Bucket (chain_table\<lparr>metadata := [1, 9, 2, 9, 128, 9, 0, 64]\<rparr>) 4 = Some True
   \<and> Is_Unlucky_Bucket chain_table 4 = Some True"
proof -
  have e: "erase chain_params chain_table 0
      = Some (1, chain_table\<lparr>metadata := [1, 9, 2, 9, 128, 9, 0, 64]\<rparr>)"
    by (simp add: cbg_eval chain_params_def chain_table_def)
  have f: "find_position chain_params chain_table 0 = Some 4"
    by (simp add: cbg_eval chain_params_def chain_table_def)
  have a: "meta_at chain_table 4 = Some 129"
    by (simp add: cbg_eval chain_table_def)
  from Set_Empty_clears_cell_keeps_bucket_flags
    [of "129 :: 16 word" chain_params chain_table 0 "chain_table\<lparr>metadata := [1, 9, 2, 9, 128, 9, 0, 64]\<rparr>"]
  have "Is_Unlucky_Bucket (chain_table\<lparr>metadata := [1, 9, 2, 9, 128, 9, 0, 64]\<rparr>) 4
      = Is_Unlucky_Bucket chain_table 4"
    using e f a by auto
  moreover have "Is_Unlucky_Bucket chain_table 4 = Some True"
    by (simp add: cbg_eval chain_table_def)
  moreover have "Set_Empty_of (129 :: 16 word) = 128"
    by (simp add: Set_Empty_of_def)
  ultimately show ?thesis
    using e f a by simp
qed

subsection \<open>Reduction of a hash value\<close>

lemma mulhi64_unat:
  fixes h n :: "64 word"
  shows "unat (ucast (drop_bit 64 ((ucast h :: 128 word) * (ucast n :: 128 word))) :: 64 word)
           = unat h * unat n div 2 ^ 64"
proof -
  have h: "unat h < 2 ^ 64" and n: "unat n < 2 ^ 64"
    using unsigned_less [of h] unsigned_less [of n] by simp_all
  then have "unat h * unat n < 2 ^ 64 * 2 ^ 64"
    by (intro mult_strict_mono') simp_all
  then have hn: "unat h * unat n < 2 ^ 128"
    by simp
  have uh: "unat (ucast h :: 128 word) = unat h" and un: "unat (ucast n :: 128 word) = unat n"
    using h n by (simp_all add: unsigned_ucast_eq take_bit_nat_eq_self)
  have m: "unat ((ucast h :: 128 word) * (ucast n :: 128 word)) = unat h * unat n"
    using hn unat_mult_lem [of "ucast h :: 128 word" "ucast n"] by (simp add: uh un)
  have "unat (drop_bit 64 ((ucast h :: 128 word) * (ucast n :: 128 word)))
      = drop_bit 64 (unat ((ucast h :: 128 word) * (ucast n :: 128 word)))"
    by (rule unat_drop_bit_eq)
  also have "\<dots> = unat h * unat n div 2 ^ 64"
    by (simp only: m drop_bit_eq_div)
  finally have d: "unat (drop_bit 64 ((ucast h :: 128 word) * (ucast n :: 128 word)))
      = unat h * unat n div 2 ^ 64" .
  have "unat h * unat n div 2 ^ 64 < 2 ^ 64"
    using hn by (simp add: less_mult_imp_div_less)
  then show ?thesis
    by (simp only: unsigned_ucast_eq d) (simp add: take_bit_nat_eq_self)
qed

lemma mulhi32_unat:
  fixes h n :: "32 word"
  shows "unat (fastrange32 h n) = unat h * unat n div 2 ^ 32"
proof -
  have h: "unat h < 2 ^ 32" and n: "unat n < 2 ^ 32"
    using unsigned_less [of h] unsigned_less [of n] by simp_all
  then have "unat h * unat n < 2 ^ 32 * 2 ^ 32"
    by (intro mult_strict_mono') simp_all
  then have hn: "unat h * unat n < 2 ^ 64"
    by simp
  have uh: "unat (ucast h :: 64 word) = unat h" and un: "unat (ucast n :: 64 word) = unat n"
    using h n by (simp_all add: unsigned_ucast_eq take_bit_nat_eq_self)
  have m: "unat ((ucast h :: 64 word) * (ucast n :: 64 word)) = unat h * unat n"
    using hn unat_mult_lem [of "ucast h :: 64 word" "ucast n"] by (simp add: uh un)
  have "unat (drop_bit 32 ((ucast h :: 64 word) * (ucast n :: 64 word)))
      = drop_bit 32 (unat ((ucast h :: 64 word) * (ucast n :: 64 word)))"
    by (rule unat_drop_bit_eq)
  also have "\<dots> = unat h * unat n div 2 ^ 32"
    by (simp only: m drop_bit_eq_div)
  finally have d: "unat (drop_bit 32 ((ucast h :: 64 word) * (ucast n :: 64 word)))
      = unat h * unat n div 2 ^ 32" .
  have "unat h * unat n div 2 ^ 32 < 2 ^ 32"
    using hn by (simp add: less_mult_imp_div_less)
  then show ?thesis
    by (simp only: fastrange32_def unsigned_ucast_eq d) (simp add: take_bit_nat_eq_self)
qed

lemma mulhi_less:
  fixes a b k :: nat
  assumes "a < 2 ^ k" "0 < b"
  shows "a * b div 2 ^ k < b"
proof -
  have "a * b < 2 ^ k * b"
    using assms by simp
  then show ?thesis
    by (simp add: less_mult_imp_div_less mult.commute)
qed

text \<open>
  C9, as the code has it. For a table size \<open>n > 0\<close> every build of \<^verbatim>\<open>fastrange\<close>
  gives an index below \<open>n\<close>. The 32-bit build and the two 64-bit builds with a 128-bit
  product give the multiply-high reduction, the integer part of \<open>h * n / 2 ^ w\<close>; the
  64-bit fallback build gives \<open>h mod n\<close> instead.
\<close>

theorem fastrange_reduction:
  "unat (fastrange32 h32 n32) = unat h32 * unat n32 div 2 ^ 32
   \<and> (n32 \<noteq> 0 \<longrightarrow> fastrange32 h32 n32 < n32)
   \<and> (bld \<noteq> Fallback \<longrightarrow> (\<exists>r. fastrange bld h n = Some r \<and> unat r = unat h * unat n div 2 ^ 64))
   \<and> (n \<noteq> 0 \<longrightarrow> fastrange Fallback h n = Some (h mod n))
   \<and> (n \<noteq> 0 \<longrightarrow> (\<exists>r. fastrange bld h n = Some r \<and> r < n))"
proof -
  have "fastrange32 h32 n32 < n32" if "n32 \<noteq> 0"
  proof -
    have "unat h32 * unat n32 div 2 ^ 32 < unat n32"
      using that unsigned_less [of h32] by (intro mulhi_less) (simp_all add: unat_gt_0)
    then show ?thesis
      by (simp add: word_less_nat_alt mulhi32_unat)
  qed
  moreover have "\<exists>r. fastrange bld h n = Some r \<and> unat r = unat h * unat n div 2 ^ 64"
    if "bld \<noteq> Fallback"
    using that by (cases bld) (simp_all add: fastrange_def fastrange64_def umulh_def mulhi64_unat)
  moreover have "\<exists>r. fastrange bld h n = Some r \<and> r < n" if "n \<noteq> 0"
  proof -
    have "unat h * unat n div 2 ^ 64 < unat n"
      using that unsigned_less [of h] by (intro mulhi_less) (simp_all add: unat_gt_0)
    moreover have "h mod n < n"
      using that by (simp add: word_mod_less_divisor word_greater_zero_iff)
    ultimately show ?thesis
      using that
      by (cases bld) (simp_all add: fastrange_def fastrange64_def umulh_def word_less_nat_alt mulhi64_unat)
  qed
  ultimately show ?thesis
    by (simp add: mulhi32_unat fastrange_def fastrange64_def)
qed

theorem fastrange_reduction_witness:
  "(10 :: 32 word) \<noteq> 0 \<and> fastrange32 0x80000000 10 < 10
   \<and> Int128 \<noteq> Fallback
   \<and> (\<exists>r. fastrange Int128 0x8000000000000000 10 = Some r
          \<and> unat r = unat (0x8000000000000000 :: 64 word) * unat (10 :: 64 word) div 2 ^ 64)
   \<and> (10 :: 64 word) \<noteq> 0 \<and> fastrange Fallback 0x8000000000000000 10 = Some 8
   \<and> (\<exists>r. fastrange Int128 0x8000000000000000 10 = Some r \<and> r < 10)"
  using fastrange_reduction [of "0x80000000" 10 Int128 "0x8000000000000000" 10]
  by (simp add: word_mod_def)

text \<open>
  The claim as stated fails in the fallback build: for \<open>h = 1\<close> and \<open>n = 2\<close> the code
  returns \<open>1 mod 2 = 1\<close>, and the integer part of \<open>1 * 2 / 2 ^ 64\<close> is 0.
\<close>

theorem fastrange_fallback_counterexample:
  "\<not> (\<exists>r. fastrange Fallback 1 2 = Some r \<and> unat r = unat (1 :: 64 word) * unat (2 :: 64 word) div 2 ^ 64)"
  by (simp add: fastrange_def fastrange64_def)

subsection \<open>Lookup\<close>

text \<open>
  C4. When the check of the first bucket misses, \<^verbatim>\<open>find_position\<close> looks at the
  unlucky flag of the cell \<open>c0\<close> that the first hash selects: with the flag clear it
  returns \<^verbatim>\<open>SIZE_MAX\<close> and the second bucket is not consulted; a position returned
  after such a miss is a hit of the second bucket, and the flag was set. Both layouts.
\<close>

theorem find_second_bucket_only_if_unlucky:
  "(find_position_SoA P t k = Some r \<and> first_bucket_SoA P t k = Some Miss \<and> primary_metadata P t k = Some c0
      \<longrightarrow> (\<not> Is_Unlucky_Bucket_of c0 \<longrightarrow> r = SIZE_MAX)
          \<and> (r \<noteq> SIZE_MAX \<longrightarrow> Is_Unlucky_Bucket_of c0 \<and> second_bucket_SoA P t k = Some (Hit r)))
   \<and> (find_position_AoS P t k = Some r \<and> first_bucket_AoS P t k = Some Miss \<and> primary_metadata P t k = Some c0
      \<longrightarrow> (\<not> Is_Unlucky_Bucket_of c0 \<longrightarrow> r = SIZE_MAX)
          \<and> (r \<noteq> SIZE_MAX \<longrightarrow> Is_Unlucky_Bucket_of c0 \<and> second_bucket_AoS P t k = Some (Hit r)))"
  by (auto simp: find_position_SoA_def find_position_AoS_def Is_Unlucky_Bucket_of_def
      split: Option.bind_splits probe.splits if_splits)

text \<open>
  In \<open>chain_table\<close> key 2 is found in its second bucket (cell 2), and the cell of
  its first hash (cell 4) carries the unlucky flag; key 6 is absent, the cell of its
  first hash (cell 1) does not carry the flag, and the lookup ends after one bucket.
\<close>

theorem find_second_bucket_only_if_unlucky_witness:
  "find_position_SoA chain_params chain_table 2 = Some 2
   \<and> first_bucket_SoA chain_params chain_table 2 = Some Miss
   \<and> primary_metadata chain_params chain_table 2 = Some 129
   \<and> Is_Unlucky_Bucket_of (129 :: 16 word)
   \<and> second_bucket_SoA chain_params chain_table 2 = Some (Hit 2)
   \<and> find_position_AoS chain_params chain_table 6 = Some SIZE_MAX
   \<and> first_bucket_AoS chain_params chain_table 6 = Some Miss
   \<and> primary_metadata chain_params chain_table 6 = Some 9
   \<and> \<not> Is_Unlucky_Bucket_of (9 :: 16 word)"
proof -
  have a: "find_position_SoA chain_params chain_table 2 = Some 2"
    and b: "first_bucket_SoA chain_params chain_table 2 = Some Miss"
    and c: "primary_metadata chain_params chain_table 2 = Some 129"
    by (simp_all add: cbg_eval chain_params_def chain_table_def)
  have d: "find_position_AoS chain_params chain_table 6 = Some SIZE_MAX"
    and e: "first_bucket_AoS chain_params chain_table 6 = Some Miss"
    and f: "primary_metadata chain_params chain_table 6 = Some 9"
    by (simp_all add: cbg_eval chain_params_def chain_table_def)
  have g: "2 \<noteq> SIZE_MAX"
    by (simp add: SIZE_MAX_def)
  have h: "\<not> Is_Unlucky_Bucket_of (9 :: 16 word)"
    by (simp add: Is_Unlucky_Bucket_of_def)
  from find_second_bucket_only_if_unlucky [of chain_params chain_table 2 2 129] a b c g
  have "Is_Unlucky_Bucket_of (129 :: 16 word) \<and> second_bucket_SoA chain_params chain_table 2 = Some (Hit 2)"
    by blast
  with a b c d e f h show ?thesis
    by simp
qed

text \<open>
  C10. \<^verbatim>\<open>count\<close> returns 0 or 1, 1 exactly when \<^verbatim>\<open>find_position\<close> finds a cell, and
  the table it leaves behind is the table it was given; the number of cells that store
  the key plays no part.
\<close>

theorem count_zero_or_one:
  "count P t k = Some (r, t') \<Longrightarrow>
     t' = t \<and> (r = 0 \<or> r = 1) \<and> (r = 1 \<longleftrightarrow> (\<exists>pos. find_position P t k = Some pos \<and> pos \<noteq> SIZE_MAX))"
  by (auto simp: count_def split: Option.bind_splits if_splits)

text \<open>
  The table \<open>twice_table\<close> stores \<open>tail_key\<close> in two cells (5 and 6); \<^verbatim>\<open>count\<close> of the
  key is 1.
\<close>

theorem count_zero_or_one_witness:
  "count scenario_params twice_table tail_key = Some (1, twice_table)
   \<and> fst (elems twice_table ! 5) = tail_key \<and> fst (elems twice_table ! 6) = tail_key
   \<and> Get_Label twice_table 5 = Some 1 \<and> Get_Label twice_table 6 = Some 1
   \<and> (\<exists>pos. find_position scenario_params twice_table tail_key = Some pos \<and> pos \<noteq> SIZE_MAX)"
proof -
  have c: "count scenario_params twice_table tail_key = Some (1, twice_table)"
    by (simp add: count_def twice_table_found SIZE_MAX_def)
  have "fst (elems twice_table ! 5) = tail_key" "fst (elems twice_table ! 6) = tail_key"
    "Get_Label twice_table 5 = Some 1" "Get_Label twice_table 6 = Some 1"
    by (simp_all add: cbg_eval twice_table_def)
  with count_zero_or_one [OF c] c show ?thesis
    by simp
qed

subsection \<open>The size of the table\<close>

lemma erase_num_elems: "erase P t k = Some (r, t') \<Longrightarrow> num_elems t' = num_elems t"
  by (auto simp: erase_def Set_Empty_def put_def split: Option.bind_splits if_splits)

text \<open>
  C1. \<^verbatim>\<open>try_insert\<close> adds one to \<^verbatim>\<open>num_elems\<close> with every element it places, and
  \<^verbatim>\<open>erase\<close> empties the cell it found and leaves \<^verbatim>\<open>num_elems\<close> as it is (lemma
  \<open>erase_num_elems\<close>). On the table of 8 cells that the constructor returns,
  \<open>insert (7, "a")\<close> stores the pair in cell 0, \<open>erase 7\<close> returns 1 and the key is not
  found any more; no cell is occupied then, and \<^verbatim>\<open>size()\<close> is 1.
\<close>

theorem erase_leaves_size:
  "CBG_IMPL scenario_params 8 = Some fresh_table
   \<and> insert_cbg 3 scenario_params fresh_table (7, ''a'') = Returns one_key_table
   \<and> find_position scenario_params one_key_table 7 = Some 0
   \<and> GetValue one_key_table 0 = Some ''a''
   \<and> erase scenario_params one_key_table 7 = Some (1, erased_table)
   \<and> find_position scenario_params erased_table 7 = Some SIZE_MAX
   \<and> occupied erased_table = 0
   \<and> size_cbg erased_table = 1"
proof -
  have "GetValue one_key_table 0 = Some ''a''"
    and "find_position scenario_params erased_table 7 = Some SIZE_MAX"
    and "occupied erased_table = 0" and "size_cbg erased_table = 1"
    by (simp_all add: cbg_eval one_key_table_def erased_table_def)
  then show ?thesis
    by (simp add: fresh_table_constructed one_key_table_inserted one_key_table_found
        erased_table_erased)
qed

subsection \<open>Single-precision rounding\<close>

lemma round_half_even_error: "\<bar>of_int (round_half_even x) - x\<bar> \<le> 1 / 2"
proof -
  have "of_int \<lfloor>x\<rfloor> \<le> x" "x < of_int \<lfloor>x\<rfloor> + 1"
    by linarith+
  then show ?thesis
    unfolding round_half_even_def Let_def by (simp add: abs_le_iff)
qed

lemma round_half_even_of_int [simp]: "round_half_even (of_int n) = n"
  by (simp add: round_half_even_def)

lemma round_half_even_mono: "x \<le> y \<Longrightarrow> round_half_even x \<le> round_half_even y"
proof -
  assume xy: "x \<le> y"
  then have f: "\<lfloor>x\<rfloor> \<le> \<lfloor>y\<rfloor>"
    by (rule floor_mono)
  show ?thesis
  proof (cases "\<lfloor>x\<rfloor> = \<lfloor>y\<rfloor>")
    case True
    with xy show ?thesis
      by (auto simp: round_half_even_def Let_def)
  next
    case False
    with f have "\<lfloor>x\<rfloor> + 1 \<le> \<lfloor>y\<rfloor>"
      by simp
    moreover have "round_half_even x \<le> \<lfloor>x\<rfloor> + 1" "\<lfloor>y\<rfloor> \<le> round_half_even y"
      by (auto simp: round_half_even_def Let_def)
    ultimately show ?thesis
      by linarith
  qed
qed

lemma binade_bounds:
  assumes "0 < x"
  shows "power_int 2 (binade x) \<le> x \<and> x < power_int 2 (binade x + 1)"
proof (cases "1 \<le> x")
  case True
  then have p: "0 < \<lfloor>x\<rfloor>"
    by simp
  define b where "b = bitlen \<lfloor>x\<rfloor>"
  from p have b1: "1 \<le> b"
    unfolding b_def by (simp add: bitlen_alt_def)
  from bitlen_bounds [OF p] have lo: "2 ^ nat (b - 1) \<le> \<lfloor>x\<rfloor>" and hi: "\<lfloor>x\<rfloor> < 2 ^ nat b"
    unfolding b_def by simp_all
  have e: "binade x = b - 1"
    using True by (simp add: binade_def b_def)
  have "(2 :: rat) ^ nat (b - 1) = of_int (2 ^ nat (b - 1))"
    by simp
  also have "\<dots> \<le> of_int \<lfloor>x\<rfloor>"
    using lo by (simp only: of_int_le_iff)
  also have "\<dots> \<le> x"
    by simp
  finally have 1: "power_int 2 (b - 1) \<le> x"
    using b1 by (simp add: power_int_def)
  from hi have "\<lfloor>x\<rfloor> + 1 \<le> 2 ^ nat b"
    by simp
  then have "of_int (\<lfloor>x\<rfloor> + 1) \<le> (of_int (2 ^ nat b) :: rat)"
    by (simp only: of_int_le_iff)
  moreover have "x < of_int (\<lfloor>x\<rfloor> + 1)"
    by simp linarith
  ultimately have "x < 2 ^ nat b"
    by simp
  then have 2: "x < power_int 2 (b - 1 + 1)"
    using b1 by (simp add: power_int_def)
  from 1 2 e show ?thesis
    by simp
next
  case False
  define y where "y = 1 / x"
  from False assms have y1: "1 < y"
    by (simp add: y_def)
  define c where "c = \<lceil>y\<rceil> - 1"
  have cy: "of_int c < y" "y \<le> of_int c + 1"
    unfolding c_def by (simp_all add: ceiling_correct)
  from y1 have p: "0 < c"
    unfolding c_def by simp
  define b where "b = bitlen c"
  from p have b1: "1 \<le> b"
    unfolding b_def by (simp add: bitlen_alt_def)
  from bitlen_bounds [OF p] have lo: "2 ^ nat (b - 1) \<le> c" and hi: "c < 2 ^ nat b"
    unfolding b_def by simp_all
  have e: "binade x = - b"
    using False by (simp add: binade_def b_def c_def y_def)
  have "(2 :: rat) ^ nat (b - 1) = of_int (2 ^ nat (b - 1))"
    by simp
  also have "\<dots> \<le> of_int c"
    using lo by (simp only: of_int_le_iff)
  also have "\<dots> < y"
    by (rule cy)
  finally have ylo: "2 ^ nat (b - 1) < y" .
  from hi have "c + 1 \<le> 2 ^ nat b"
    by simp
  then have "of_int (c + 1) \<le> (of_int (2 ^ nat b) :: rat)"
    by (simp only: of_int_le_iff)
  with cy have yhi: "y \<le> 2 ^ nat b"
    by simp
  have x: "x = 1 / y"
    by (simp add: y_def)
  have "1 / 2 ^ nat b \<le> 1 / y"
    using yhi y1 by (intro divide_left_mono) simp_all
  then have 1: "power_int 2 (- b) \<le> x"
    using b1 by (simp add: x power_int_def field_simps)
  from y1 have y0: "0 < y"
    by simp
  have "1 / y < 1 / 2 ^ nat (b - 1)"
    using ylo y0 by (intro divide_strict_left_mono) simp_all
  then have 2: "x < power_int 2 (- b + 1)"
    using b1 by (cases "b = 1") (simp_all add: x power_int_def nat_diff_distrib field_simps)
  from 1 2 e show ?thesis
    by simp
qed

lemma powi_less_exp: "power_int (2 :: rat) m < power_int 2 n \<Longrightarrow> m < n"
proof (rule ccontr)
  assume a: "power_int (2 :: rat) m < power_int 2 n" and "\<not> m < n"
  then have "n \<le> m"
    by simp
  then have "power_int (2 :: rat) n \<le> power_int 2 m"
    by (intro power_int_increasing) simp_all
  with a show False
    by simp
qed

lemma binade_between:
  assumes "0 < x" "power_int 2 a \<le> x" "x < power_int 2 b"
  shows "a \<le> binade x \<and> binade x < b"
proof -
  from binade_bounds [OF assms(1)] assms(2,3)
  have "power_int (2 :: rat) a < power_int 2 (binade x + 1)" "power_int (2 :: rat) (binade x) < power_int 2 b"
    by linarith+
  then have "a < binade x + 1" "binade x < b"
    by (auto dest: powi_less_exp)
  then show ?thesis
    by simp
qed

lemma binade_unique:
  assumes "0 < x" "power_int 2 e \<le> x" "x < power_int 2 (e + 1)"
  shows "binade x = e"
  using binade_between [OF assms] by simp

text \<open>The significand and the value of the rounding of a positive number.\<close>

lemma rounding_pos:
  assumes x: "0 < x"
  defines "e \<equiv> binade x"
  defines "u \<equiv> power_int 2 (e - 23)"
  defines "r \<equiv> of_int (round_half_even (x / u)) * u"
  shows "power_int 2 e \<le> r \<and> r \<le> power_int 2 (e + 1) \<and> \<bar>r - x\<bar> \<le> x / 2 ^ 24"
proof -
  have u0: "0 < u"
    by (simp add: u_def)
  from binade_bounds [OF x] have lo: "power_int 2 e \<le> x" and hi: "x < power_int 2 (e + 1)"
    by (simp_all add: e_def)
  have pe: "power_int 2 e = 2 ^ 23 * u" and pe1: "power_int 2 (e + 1) = 2 ^ 24 * u"
    by (simp_all add: u_def power_int_diff power_int_add)
  have s: "2 ^ 23 \<le> x / u" "x / u \<le> 2 ^ 24"
    using lo hi u0 by (simp_all add: pe pe1 pos_le_divide_eq pos_divide_le_eq)
  have "round_half_even (of_int (2 ^ 23)) \<le> round_half_even (x / u)"
    using s by (intro round_half_even_mono) simp
  then have n1: "2 ^ 23 \<le> round_half_even (x / u)"
    by (simp only: round_half_even_of_int)
  have "round_half_even (x / u) \<le> round_half_even (of_int (2 ^ 24))"
    using s by (intro round_half_even_mono) simp
  then have n2: "round_half_even (x / u) \<le> 2 ^ 24"
    by (simp only: round_half_even_of_int)
  from n1 have "(of_int (2 ^ 23) :: rat) \<le> of_int (round_half_even (x / u))"
    by (simp only: of_int_le_iff)
  then have 1: "power_int 2 e \<le> r"
    using u0 by (simp add: pe r_def)
  from n2 have "(of_int (round_half_even (x / u)) :: rat) \<le> of_int (2 ^ 24)"
    by (simp only: of_int_le_iff)
  then have 2: "r \<le> power_int 2 (e + 1)"
    using u0 by (simp add: pe1 r_def)
  have "r - x = (of_int (round_half_even (x / u)) - x / u) * u"
    using u0 by (simp add: r_def field_simps)
  then have "\<bar>r - x\<bar> = \<bar>of_int (round_half_even (x / u)) - x / u\<bar> * u"
    using u0 by (simp add: abs_mult)
  also have "\<dots> \<le> 1 / 2 * u"
    using u0 round_half_even_error [of "x / u"] by (intro mult_right_mono) simp_all
  also have "\<dots> = power_int 2 e / 2 ^ 24"
    by (simp add: pe)
  also have "\<dots> \<le> x / 2 ^ 24"
    using lo by (simp add: divide_right_mono)
  finally have 3: "\<bar>r - x\<bar> \<le> x / 2 ^ 24" .
  from 1 2 3 show ?thesis
    by simp
qed

lemma round_float_pos:
  assumes x: "0 < x" and lo: "power_int 2 (- 126) \<le> x" and hi: "x < power_int 2 127"
  shows "\<exists>r. round_float x = Some r \<and> power_int 2 (binade x) \<le> r \<and> r \<le> power_int 2 (binade x + 1)
           \<and> \<bar>r - x\<bar> \<le> x / 2 ^ 24"
proof -
  define r :: rat where "r = of_int (round_half_even (x / power_int 2 (binade x - 23))) * power_int 2 (binade x - 23)"
  from rounding_pos [OF x]
  have R: "power_int 2 (binade x) \<le> r" "r \<le> power_int 2 (binade x + 1)" "\<bar>r - x\<bar> \<le> x / 2 ^ 24"
    by (simp_all add: r_def)
  from binade_between [OF x lo hi] have e: "- 126 \<le> binade x" "binade x < 127"
    by simp_all
  then have "power_int (2 :: rat) (binade x + 1) \<le> power_int 2 127"
    by (intro power_int_increasing) simp_all
  also have "\<dots> < power_int 2 128"
    by (intro power_int_strict_increasing) simp_all
  finally have "r < power_int 2 128"
    using R(2) by simp
  with e x have "round_float x = Some r"
    by (simp add: round_float_def Let_def r_def)
  with R show ?thesis
    by simp
qed

lemma round_float_mono:
  assumes "0 < x" "x \<le> y" "round_float x = Some a" "round_float y = Some b"
  shows "a \<le> b"
proof -
  from assms have y: "0 < y"
    by simp
  define ex where "ex = binade x"
  define ey where "ey = binade y"
  have a: "a = of_int (round_half_even (x / power_int 2 (ex - 23))) * power_int 2 (ex - 23)"
    using assms(1,3) by (auto simp: round_float_def Let_def ex_def split: if_splits)
  have b: "b = of_int (round_half_even (y / power_int 2 (ey - 23))) * power_int 2 (ey - 23)"
    using y assms(4) by (auto simp: round_float_def Let_def ey_def split: if_splits)
  from binade_bounds [OF assms(1)] binade_bounds [OF y] assms(2)
  have "power_int (2 :: rat) ex < power_int 2 (ey + 1)"
    unfolding ex_def ey_def by linarith
  then have le: "ex \<le> ey"
    by (auto dest: powi_less_exp)
  show ?thesis
  proof (cases "ex = ey")
    case True
    have "x / power_int 2 (ey - 23) \<le> y / power_int 2 (ey - 23)"
      using assms(2) by (simp add: divide_right_mono)
    then have "round_half_even (x / power_int 2 (ey - 23)) \<le> round_half_even (y / power_int 2 (ey - 23))"
      by (rule round_half_even_mono)
    then have "(of_int (round_half_even (x / power_int 2 (ey - 23))) :: rat)
        \<le> of_int (round_half_even (y / power_int 2 (ey - 23)))"
      by (simp only: of_int_le_iff)
    then show ?thesis
      by (simp add: a b True mult_right_mono)
  next
    case False
    with le have "ex + 1 \<le> ey"
      by simp
    then have "power_int (2 :: rat) (ex + 1) \<le> power_int 2 ey"
      by (intro power_int_increasing) simp_all
    moreover from rounding_pos [OF assms(1)] have "a \<le> power_int 2 (ex + 1)"
      by (simp add: a ex_def)
    moreover from rounding_pos [OF y] have "power_int 2 ey \<le> b"
      by (simp add: b ey_def)
    ultimately show ?thesis
      by linarith
  qed
qed

lemma round_float_rel:
  assumes "0 < x" "1 / 2 ^ 126 \<le> x" "x < 2 ^ 127"
  shows "\<exists>r. round_float x = Some r \<and> x * (1 - 1 / 2 ^ 24) \<le> r \<and> r \<le> x * (1 + 1 / 2 ^ 24) \<and> 0 < r"
proof -
  have "power_int (2 :: rat) (- 126) = 1 / 2 ^ 126" "power_int (2 :: rat) 127 = 2 ^ 127"
    by (simp_all add: power_int_minus_divide)
  with assms have "power_int 2 (- 126) \<le> x" "x < power_int 2 127"
    by simp_all
  from round_float_pos [OF assms(1) this] obtain r where r: "round_float x = Some r"
    and lo: "power_int 2 (binade x) \<le> r" and e: "\<bar>r - x\<bar> \<le> x / 2 ^ 24"
    by blast
  have "0 < power_int (2 :: rat) (binade x)"
    by simp
  with lo have "0 < r"
    by linarith
  moreover have "x * (1 - 1 / 2 ^ 24) = x - x / 2 ^ 24" "x * (1 + 1 / 2 ^ 24) = x + x / 2 ^ 24"
    by (simp_all add: algebra_simps)
  moreover from e have "x - x / 2 ^ 24 \<le> r" "r \<le> x + x / 2 ^ 24"
    by (simp_all only: abs_le_iff) linarith+
  ultimately have "round_float x = Some r \<and> x * (1 - 1 / 2 ^ 24) \<le> r \<and> r \<le> x * (1 + 1 / 2 ^ 24) \<and> 0 < r"
    using r by (simp only:)
  then show ?thesis ..
qed

lemma round_float_eval:
  assumes "0 < x" "power_int 2 e \<le> x" "x < power_int 2 (e + 1)" "- 126 \<le> e" "e \<le> 126"
  shows "round_float x = Some (of_int (round_half_even (x / power_int 2 (e - 23))) * power_int 2 (e - 23))"
proof -
  have b: "binade x = e"
    by (rule binade_unique [OF assms(1-3)])
  from rounding_pos [OF assms(1)]
  have "(of_int (round_half_even (x / power_int 2 (e - 23))) :: rat) * power_int 2 (e - 23) \<le> power_int 2 (e + 1)"
    by (simp add: b)
  also have "\<dots> < power_int 2 128"
    using assms(5) by (intro power_int_strict_increasing) simp_all
  finally show ?thesis
    using assms(1,4) by (simp add: round_float_def Let_def b)
qed

lemma chain_upper:
  fixes L N u F P C r :: rat
  assumes "0 < L" "0 < N" "0 < u" "u < 1" "0 < F" "0 < P" "0 < C"
    and "F \<le> L * (1 + u)" "P \<le> F * 100 * (1 + u)" "N * (1 - u) \<le> C" "r \<le> P / C * (1 + u)"
  shows "r \<le> 100 * L / N * ((1 + u) ^ 3 / (1 - u))"
proof -
  have "P \<le> L * (1 + u) * 100 * (1 + u)"
    using assms by (meson mult_right_mono order_trans less_imp_le add_pos_pos zero_less_one mult_nonneg_nonneg zero_le_numeral)
  moreover have "0 < N * (1 - u)"
    using assms by simp
  ultimately have "P / C \<le> L * (1 + u) * 100 * (1 + u) / (N * (1 - u))"
    using assms by (intro frac_le) simp_all
  then have "P / C * (1 + u) \<le> L * (1 + u) * 100 * (1 + u) / (N * (1 - u)) * (1 + u)"
    using assms by (intro mult_right_mono) simp_all
  also have "\<dots> = 100 * L / N * ((1 + u) ^ 3 / (1 - u))"
    by (simp add: power3_eq_cube)
  finally have "P / C * (1 + u) \<le> 100 * L / N * ((1 + u) ^ 3 / (1 - u))" .
  with assms(11) show ?thesis
    by (rule order_trans)
qed

lemma chain_lower:
  fixes L N u F P C r :: rat
  assumes "0 < L" "0 < N" "0 < u" "u < 1" "0 < F" "0 < P" "0 < C"
    and "L * (1 - u) \<le> F" "F * 100 * (1 - u) \<le> P" "C \<le> N * (1 + u)" "P / C * (1 - u) \<le> r"
  shows "100 * L / N * ((1 - u) ^ 3 / (1 + u)) \<le> r"
proof -
  have "L * (1 - u) * 100 * (1 - u) \<le> F * 100 * (1 - u)"
    using assms by (intro mult_right_mono) simp_all
  with assms have 1: "L * (1 - u) * 100 * (1 - u) \<le> P"
    by linarith
  have 0: "0 \<le> L * (1 - u) * 100 * (1 - u)"
    using assms by simp
  have "L * (1 - u) * 100 * (1 - u) / (N * (1 + u)) \<le> P / C"
    using assms 0 1 by (intro frac_le) simp_all
  then have "L * (1 - u) * 100 * (1 - u) / (N * (1 + u)) * (1 - u) \<le> P / C * (1 - u)"
    using assms by (intro mult_right_mono) simp_all
  also have "\<dots> \<le> r"
    by (rule assms)
  finally have "L * (1 - u) * 100 * (1 - u) / (N * (1 + u)) * (1 - u) \<le> r" .
  moreover have "L * (1 - u) * 100 * (1 - u) / (N * (1 + u)) * (1 - u) = 100 * L / N * ((1 - u) ^ 3 / (1 + u))"
    by (simp add: power3_eq_cube)
  ultimately show ?thesis
    by (simp only:)
qed

lemma rel_bounds:
  fixes a b lo hi :: rat
  assumes "lo \<le> a" "a \<le> hi" "a * (1 - 1 / 2 ^ 24) \<le> b" "b \<le> a * (1 + 1 / 2 ^ 24)" "0 \<le> lo"
  shows "lo / 2 \<le> b \<and> b \<le> 2 * hi"
proof -
  have "a * (1 - 1 / 2 ^ 24) = a - a / 2 ^ 24" "a * (1 + 1 / 2 ^ 24) = a + a / 2 ^ 24"
    by (simp_all add: algebra_simps)
  with assms show ?thesis
    by simp
qed

lemma round_float_within:
  assumes "lo \<le> x" "x \<le> hi" "1 / 2 ^ 126 \<le> lo" "hi < 2 ^ 127"
  shows "\<exists>r. round_float x = Some r \<and> x * (1 - 1 / 2 ^ 24) \<le> r \<and> r \<le> x * (1 + 1 / 2 ^ 24) \<and> 0 < r"
proof (rule round_float_rel)
  have "(0 :: rat) < 1 / 2 ^ 126"
    by simp
  with assms show "0 < x" "1 / 2 ^ 126 \<le> x" "x < 2 ^ 127"
    by linarith+
qed

lemma round_float_0 [simp]: "round_float 0 = Some 0"
  by (simp add: round_float_def)

lemma round_half_even_eqI:
  assumes "of_int n - 1 / 2 < x" "x < of_int n + 1 / 2"
  shows "round_half_even x = n"
proof (cases "of_int n \<le> x")
  case True
  with assms have "\<lfloor>x\<rfloor> = n"
    by (intro floor_unique) simp_all
  with assms show ?thesis
    by (simp add: round_half_even_def Let_def)
next
  case False
  with assms have "\<lfloor>x\<rfloor> = n - 1"
    by (intro floor_unique) simp_all
  with assms False show ?thesis
    by (simp add: round_half_even_def Let_def)
qed

lemma round_float_percent_top: "round_float (100 * (1 + 1 / 2 ^ 24)) = Some (100 + 1 / 2 ^ 17)"
proof -
  have "round_float (100 * (1 + 1 / 2 ^ 24))
      = Some (of_int (round_half_even (100 * (1 + 1 / 2 ^ 24) / power_int 2 (6 - 23))) * power_int 2 (6 - 23))"
    by (rule round_float_eval) simp_all
  also have "round_half_even (100 * (1 + 1 / 2 ^ 24) / power_int 2 (6 - 23)) = 13107201"
    by (rule round_half_even_eqI) simp_all
  also have "Some (of_int 13107201 * power_int 2 (6 - 23)) = Some (100 + 1 / 2 ^ 17 :: rat)"
    by simp
  finally show ?thesis .
qed

lemma round_half_even_tie:
  assumes "x = of_int n + 1 / 2"
  shows "round_half_even x = (if even n then n else n + 1)"
proof -
  have "\<lfloor>x\<rfloor> = n"
    using assms by (intro floor_unique) simp_all
  then show ?thesis
    using assms by (simp add: round_half_even_def Let_def)
qed

lemma round_float_exact:
  assumes "0 < x" "power_int 2 e \<le> x" "x < power_int 2 (e + 1)" "- 126 \<le> e" "e \<le> 126"
    and "x = of_int n * power_int 2 (e - 23)"
  shows "round_float x = Some x"
proof -
  have "x / power_int 2 (e - 23) = of_int n"
    by (simp add: assms(6))
  then have "round_half_even (x / power_int 2 (e - 23)) = n"
    by (simp only: round_half_even_of_int)
  with round_float_eval [OF assms(1-5)] assms(6) show ?thesis
    by (simp only:)
qed

lemma round_float_1: "round_float 1 = Some 1"
  by (rule round_float_exact [where e = 0 and n = "2 ^ 23"]) simp_all

lemma round_float_8: "round_float 8 = Some 8"
  by (rule round_float_exact [where e = 3 and n = "2 ^ 23"]) simp_all

lemma round_float_100: "round_float 100 = Some 100"
  by (rule round_float_exact [where e = 6 and n = "25 * 2 ^ 19"]) simp_all

lemma round_float_25_2: "round_float (25 / 2) = Some (25 / 2)"
  by (rule round_float_exact [where e = 3 and n = "25 * 2 ^ 19"]) simp_all

lemma one_key_table_load_factor: "load_factor one_key_table = Some (25 / 2)"
  by (simp add: load_factor_def float_of_size_def float_mul_def float_div_def size_cbg_def
      capacity_def one_key_table_def round_float_1 round_float_8 round_float_100 round_float_25_2)

lemma round_float_671091: "round_float 671091 = Some 671091"
  by (rule round_float_exact [where e = 19 and n = "671091 * 16"]) simp_all

lemma round_float_67109100: "round_float 67109100 = Some 67109104"
proof -
  have "round_float 67109100
      = Some (of_int (round_half_even (67109100 / power_int 2 (26 - 23))) * power_int 2 (26 - 23))"
    by (rule round_float_eval) simp_all
  also have "round_half_even (67109100 / power_int 2 (26 - 23)) = (if even (8388637 :: int) then 8388637 else 8388637 + 1)"
    by (rule round_half_even_tie) simp
  also have "Some (of_int (if even (8388637 :: int) then 8388637 else 8388637 + 1) * power_int 2 (26 - 23))
      = Some (67109104 :: rat)"
    by simp
  finally show ?thesis .
qed

lemma round_float_quotient: "round_float (67109104 / 671091) = Some (100 + 1 / 2 ^ 17)"
proof -
  have "round_float (67109104 / 671091)
      = Some (of_int (round_half_even (67109104 / 671091 / power_int 2 (6 - 23))) * power_int 2 (6 - 23))"
    by (rule round_float_eval) simp_all
  also have "round_half_even (67109104 / 671091 / power_int 2 (6 - 23)) = 13107201"
    by (rule round_half_even_eqI) simp_all
  also have "Some (of_int 13107201 * power_int 2 (6 - 23)) = Some (100 + 1 / 2 ^ 17 :: rat)"
    by simp
  finally show ?thesis .
qed

lemma load_factor_above_100:
  assumes "size_cbg t = 671091" "capacity t = 671091"
  shows "load_factor t = Some (100 + 1 / 2 ^ 17)"
  by (simp add: load_factor_def float_of_size_def float_mul_def float_div_def assms
      round_float_671091 round_float_67109100 round_float_quotient)

subsection \<open>The load factor\<close>

text \<open>
  C8, as the code has it. For a table of non-zero capacity \<^verbatim>\<open>load_factor\<close> returns a
  percentage: the \<^verbatim>\<open>float\<close> it computes is not negative and differs from 100 times
  the quotient of \<^verbatim>\<open>size()\<close> by \<^verbatim>\<open>capacity()\<close> by at most the \<open>2 ^ 21\<close>-th part of
  that number. When the size is at most the capacity the result is at most
  \<open>100 + 2 ^ -17\<close>; a table with 671091 elements in 671091 cells has that load
  factor (lemma \<open>load_factor_above_100\<close>), so 100 is not a bound.
\<close>

theorem load_factor_percentage:
  "capacity t \<noteq> 0 \<Longrightarrow>
     \<exists>r. load_factor t = Some r \<and> 0 \<le> r
        \<and> \<bar>r - 100 * of_nat (unat (size_cbg t)) / of_nat (unat (capacity t))\<bar>
             \<le> 100 * of_nat (unat (size_cbg t)) / of_nat (unat (capacity t)) / 2 ^ 21
        \<and> (size_cbg t \<le> capacity t \<longrightarrow> r \<le> 100 + 1 / 2 ^ 17)"
proof -
  assume c: "capacity t \<noteq> 0"
  define L :: rat where "L = of_nat (unat (size_cbg t))"
  define N :: rat where "N = of_nat (unat (capacity t))"
  define u :: rat where "u = 1 / 2 ^ 24"
  have u: "0 < u" "u < 1"
    by (simp_all add: u_def)
  have "unat (size_cbg t) < 2 ^ 64" "unat (capacity t) < 2 ^ 64"
    using unsigned_less [of "size_cbg t"] unsigned_less [of "capacity t"] by simp_all
  then have "(of_nat (unat (size_cbg t)) :: rat) < of_nat (2 ^ 64)" "(of_nat (unat (capacity t)) :: rat) < of_nat (2 ^ 64)"
    by (simp_all only: of_nat_less_iff)
  then have L64: "L < 2 ^ 64" and N64: "N < 2 ^ 64"
    by (simp_all add: L_def N_def)
  from c have "1 \<le> unat (capacity t)"
    by (simp add: unat_gt_0 Suc_le_eq)
  then have "(of_nat 1 :: rat) \<le> of_nat (unat (capacity t))"
    by (simp only: of_nat_le_iff)
  then have N1: "1 \<le> N"
    by (simp add: N_def)
  have L0: "0 \<le> L"
    unfolding L_def by (rule of_nat_0_le_iff)
  have "\<exists>r. round_float N = Some r \<and> N * (1 - 1 / 2 ^ 24) \<le> r \<and> r \<le> N * (1 + 1 / 2 ^ 24) \<and> 0 < r"
    by (rule round_float_within [OF N1 less_imp_le [OF N64]]) simp_all
  then obtain C where C: "round_float N = Some C"
    and Cb: "N * (1 - u) \<le> C" "C \<le> N * (1 + u)" and C0: "0 < C"
    unfolding u_def by blast
  have fc: "float_of_size (capacity t) = Some C"
    using C by (simp only: float_of_size_def N_def)
  from rel_bounds [OF N1 less_imp_le [OF N64] Cb [unfolded u_def]]
  have CB: "1 / 2 \<le> C" "C \<le> 2 ^ 65"
    by simp_all
  have "\<exists>r. load_factor t = Some r \<and> 0 \<le> r
        \<and> \<bar>r - 100 * L / N\<bar> \<le> 100 * L / N / 2 ^ 21
        \<and> (size_cbg t \<le> capacity t \<longrightarrow> r \<le> 100 + 1 / 2 ^ 17)"
  proof (cases "L = 0")
    case True
    then have "float_of_size (size_cbg t) = Some 0"
      by (simp only: float_of_size_def L_def [symmetric] round_float_0)
    then have "load_factor t = Some 0"
      using C0 by (simp add: load_factor_def fc float_mul_def float_div_def)
    with True show ?thesis
      by simp
  next
    case False
    have "unat (size_cbg t) \<noteq> 0"
    proof
      assume "unat (size_cbg t) = 0"
      then have "L = 0"
        by (simp only: L_def of_nat_0)
      with False show False ..
    qed
    then have "1 \<le> unat (size_cbg t)"
      by simp
    then have "(of_nat 1 :: rat) \<le> of_nat (unat (size_cbg t))"
      by (simp only: of_nat_le_iff)
    then have L1: "1 \<le> L"
      by (simp add: L_def)
    have "\<exists>r. round_float L = Some r \<and> L * (1 - 1 / 2 ^ 24) \<le> r \<and> r \<le> L * (1 + 1 / 2 ^ 24) \<and> 0 < r"
      by (rule round_float_within [OF L1 less_imp_le [OF L64]]) simp_all
    then obtain F where F: "round_float L = Some F"
      and Fb: "L * (1 - u) \<le> F" "F \<le> L * (1 + u)" and F0: "0 < F"
      unfolding u_def by blast
    have fs: "float_of_size (size_cbg t) = Some F"
      using F by (simp only: float_of_size_def L_def)
    from rel_bounds [OF L1 less_imp_le [OF L64] Fb [unfolded u_def]]
    have FB: "1 / 2 \<le> F" "F \<le> 2 ^ 65"
      by simp_all
    then have X1: "50 \<le> F * 100" "F * 100 \<le> 100 * 2 ^ 65"
      by simp_all
    have "\<exists>r. round_float (F * 100) = Some r \<and> F * 100 * (1 - 1 / 2 ^ 24) \<le> r
        \<and> r \<le> F * 100 * (1 + 1 / 2 ^ 24) \<and> 0 < r"
      by (rule round_float_within [OF X1]) simp_all
    then obtain P where P: "round_float (F * 100) = Some P"
      and Pb: "F * 100 * (1 - u) \<le> P" "P \<le> F * 100 * (1 + u)" and P0: "0 < P"
      unfolding u_def by blast
    from rel_bounds [OF X1 Pb [unfolded u_def]]
    have PB: "25 \<le> P" "P \<le> 200 * 2 ^ 65"
      by simp_all
    have "25 / 2 ^ 65 \<le> P / C"
      using PB CB C0 by (intro frac_le) simp_all
    moreover have "P / C \<le> 200 * 2 ^ 65 / (1 / 2)"
      using PB CB C0 by (intro frac_le) simp_all
    ultimately have X2: "25 / 2 ^ 65 \<le> P / C" "P / C \<le> 400 * 2 ^ 65"
      by simp_all
    have X20: "0 < P / C"
      using P0 C0 by simp
    have "\<exists>r. round_float (P / C) = Some r \<and> P / C * (1 - 1 / 2 ^ 24) \<le> r
        \<and> r \<le> P / C * (1 + 1 / 2 ^ 24) \<and> 0 < r"
      by (rule round_float_within [OF X2]) simp_all
    then obtain r where r: "round_float (P / C) = Some r"
      and rb: "P / C * (1 - u) \<le> r" "r \<le> P / C * (1 + u)" and r0: "0 < r"
      unfolding u_def by blast
    have lf: "load_factor t = Some r"
      using C0 by (simp add: load_factor_def fs fc float_mul_def float_div_def P r)
    define q where "q = 100 * L / N"
    have q0: "0 \<le> q"
      using L0 N1 by (simp add: q_def)
    have L0': "0 < L" and N0: "0 < N"
      using L1 N1 by simp_all
    have "r \<le> q * ((1 + u) ^ 3 / (1 - u))"
      unfolding q_def by (rule chain_upper [OF L0' N0 u F0 P0 C0 Fb(2) Pb(2) Cb(1) rb(2)])
    also have "\<dots> \<le> q * (1 + 1 / 2 ^ 21)"
      using q0 by (intro mult_left_mono) (simp_all add: u_def power3_eq_cube)
    finally have up: "r - q \<le> q / 2 ^ 21"
      by (simp add: algebra_simps)
    have "q * (1 - 1 / 2 ^ 21) \<le> q * ((1 - u) ^ 3 / (1 + u))"
      using q0 by (intro mult_left_mono) (simp_all add: u_def power3_eq_cube)
    also have "\<dots> \<le> r"
      unfolding q_def by (rule chain_lower [OF L0' N0 u F0 P0 C0 Fb(1) Pb(1) Cb(2) rb(1)])
    finally have lo: "q - r \<le> q / 2 ^ 21"
      by (simp add: algebra_simps)
    have err: "\<bar>r - q\<bar> \<le> q / 2 ^ 21"
    proof (rule abs_leI)
      show "r - q \<le> q / 2 ^ 21"
        by (rule up)
      from lo show "- (r - q) \<le> q / 2 ^ 21"
        by (simp only: minus_diff_eq)
    qed
    have top: "r \<le> 100 + 1 / 2 ^ 17" if "size_cbg t \<le> capacity t"
    proof -
      from that have "unat (size_cbg t) \<le> unat (capacity t)"
        by (simp only: word_le_nat_alt)
      then have LN: "L \<le> N"
        unfolding L_def N_def by (simp only: of_nat_le_iff)
      from round_float_mono [OF L0' LN F C] have FC: "F \<le> C" .
      have Y1: "50 \<le> C * 100" "C * 100 \<le> 100 * 2 ^ 65"
        using CB by simp_all
      have "\<exists>r. round_float (C * 100) = Some r \<and> C * 100 * (1 - 1 / 2 ^ 24) \<le> r
          \<and> r \<le> C * 100 * (1 + 1 / 2 ^ 24) \<and> 0 < r"
        by (rule round_float_within [OF Y1]) simp_all
      then obtain P' where P': "round_float (C * 100) = Some P'"
        and P'b: "P' \<le> C * 100 * (1 + u)"
        unfolding u_def by blast
      have "0 < F * 100" "F * 100 \<le> C * 100"
        using F0 FC by simp_all
      from round_float_mono [OF this P P'] P'b have "P \<le> C * 100 * (1 + u)"
        by simp
      then have "P / C \<le> 100 * (1 + 1 / 2 ^ 24)"
        using C0 by (simp add: pos_divide_le_eq u_def algebra_simps)
      from round_float_mono [OF X20 this r round_float_percent_top] show ?thesis .
    qed
    from lf r0 err top show ?thesis
      by (simp add: q_def)
  qed
  then show ?thesis
    unfolding L_def N_def .
qed

text \<open>One key in 8 cells: the load factor is 12.5.\<close>

theorem load_factor_percentage_witness:
  "capacity one_key_table \<noteq> 0 \<and> size_cbg one_key_table \<le> capacity one_key_table
   \<and> load_factor one_key_table = Some (25 / 2) \<and> (0 :: rat) \<le> 25 / 2
   \<and> \<bar>25 / 2 - 100 * of_nat (unat (size_cbg one_key_table)) / of_nat (unat (capacity one_key_table))\<bar>
        \<le> (100 * of_nat (unat (size_cbg one_key_table)) / of_nat (unat (capacity one_key_table)) / 2 ^ 21 :: rat)
   \<and> (25 / 2 :: rat) \<le> 100 + 1 / 2 ^ 17"
proof -
  have c: "capacity one_key_table \<noteq> 0" and s: "size_cbg one_key_table \<le> capacity one_key_table"
    by (simp_all add: capacity_def size_cbg_def one_key_table_def)
  from load_factor_percentage [OF c] s one_key_table_load_factor c show ?thesis
    by auto
qed

text \<open>
  The claim as stated fails on the table that holds one key in 8 cells: there
  \<^verbatim>\<open>load_factor\<close> is 12.5, which is neither 1 / 8 nor a number of the interval from 0 to 1.
\<close>

theorem load_factor_fraction_counterexample:
  "insert_cbg 3 scenario_params fresh_table (7, ''a'') = Returns one_key_table
   \<and> size_cbg one_key_table = 1 \<and> capacity one_key_table = 8
   \<and> load_factor one_key_table = Some (25 / 2)
   \<and> \<not> (\<exists>r. load_factor one_key_table = Some r
            \<and> r = of_nat (unat (size_cbg one_key_table)) / of_nat (unat (capacity one_key_table)))
   \<and> \<not> (\<exists>r. load_factor one_key_table = Some r \<and> 0 \<le> r \<and> r \<le> 1)"
proof -
  have "size_cbg one_key_table = 1" "capacity one_key_table = 8"
    by (simp_all add: capacity_def size_cbg_def one_key_table_def)
  then show ?thesis
    by (simp add: one_key_table_load_factor one_key_table_inserted)
qed

subsection \<open>Labels written by \<^verbatim>\<open>Update_Bin_At\<close>\<close>

lemma Get_Label_of_mod: "Get_Label_of m = unat m mod 8"
proof -
  have "(7 :: 'a word) = mask 3"
    by (simp add: mask_eq_exp_minus_1)
  then have "m AND 7 = take_bit 3 m"
    by (simp only: take_bit_eq_mask)
  then have "unat (m AND 7) = take_bit 3 (unat m)"
    by (simp only: unsigned_take_bit_eq)
  then show ?thesis
    by (simp add: Get_Label_of_def take_bit_eq_mod)
qed

lemma Get_Label_of_le: "Get_Label_of m \<le> L_MAX"
proof -
  have "unat m mod 8 < 8"
    by simp
  then show ?thesis
    by (simp only: Get_Label_of_mod L_MAX_def)
qed

lemma take_bit_3_cell:
  fixes a b c d :: "64 word"
  assumes "take_bit 3 a = 0" "take_bit 3 b = 0" "take_bit 3 c = 0"
  shows "take_bit 3 (a OR b OR c OR push_bit 3 d OR e) = take_bit 3 e"
  using assms by (simp add: take_bit_push_bit)

lemma Get_Label_of_Update_Bin_At_of:
  fixes m :: "'w::len word"
  assumes w: "3 \<le> LENGTH('w)" and l: "label \<le> 7"
  shows "Get_Label_of (Update_Bin_At_of soa m distance_to_base is_reverse_item label hash) = label"
proof -
  define X :: "64 word" where "X = (if soa then hash AND 0xFF00 else 0)
            OR (ucast m AND 0xC0)
            OR (if is_reverse_item then 0x20 else 0)
            OR push_bit 3 (if soa then distance_to_base
                           else ucast (ucast distance_to_base :: 8 word))
            OR (of_nat label :: size_t)"
  have a: "take_bit 3 (if soa then hash AND 0xFF00 else (0 :: 64 word)) = 0"
    by (simp add: take_bit_eq_mask word_bw_assocs mask_eq_exp_minus_1)
  have b: "take_bit 3 ((ucast m :: 64 word) AND 0xC0) = 0"
    by (simp add: take_bit_eq_mask word_bw_assocs mask_eq_exp_minus_1)
  have c: "take_bit 3 (if is_reverse_item then 0x20 else (0 :: 64 word)) = 0"
    by (simp add: take_bit_eq_mask word_bw_assocs mask_eq_exp_minus_1)
  have "take_bit 3 X = take_bit 3 (of_nat label :: 64 word)"
    unfolding X_def by (rule take_bit_3_cell [OF a b c])
  then have "unat (take_bit 3 X) = unat (take_bit 3 (of_nat label :: 64 word))"
    by simp
  then have "take_bit 3 (unat X) = take_bit 3 (unat (of_nat label :: 64 word))"
    by (simp only: unsigned_take_bit_eq)
  moreover have "unat (of_nat label :: 64 word) = label"
    using l by (simp add: unat_of_nat take_bit_nat_eq_self)
  ultimately have x: "unat X mod 8 = label"
    using l by (simp add: take_bit_eq_mod)
  have "(8 :: nat) dvd 2 ^ LENGTH('w)"
    using w le_imp_power_dvd [of 3 "LENGTH('w)" "2 :: nat"] by simp
  then have "unat X mod 2 ^ LENGTH('w) mod 8 = unat X mod 8"
    by (rule mod_mod_cancel)
  moreover have "unat (ucast X :: 'w word) = unat X mod 2 ^ LENGTH('w)"
    by (simp add: unsigned_ucast_eq take_bit_eq_mod)
  ultimately have "Get_Label_of (ucast X :: 'w word) = label"
    by (simp only: Get_Label_of_mod x)
  then show ?thesis
    by (simp only: Update_Bin_At_of_def X_def)
qed

lemma Get_Label_of_Set_Unlucky_Bucket_of: "Get_Label_of (Set_Unlucky_Bucket_of m) = Get_Label_of m"
  by (simp add: Get_Label_of_def Set_Unlucky_Bucket_of_def word_ao_dist word_bw_assocs)

subsection \<open>Insertion\<close>

lemma put_Some:
  "put t pos m = Some t' \<Longrightarrow>
     in_range (metadata t) pos \<and> t' = t\<lparr>metadata := (metadata t)[unat pos := m]\<rparr>"
  by (simp add: put_def split: if_splits)

lemma Update_Bin_At_Some:
  "Update_Bin_At soa t pos d r l h = Some t' \<Longrightarrow>
     in_range (metadata t) pos
     \<and> t' = t\<lparr>metadata := (metadata t)[unat pos := Update_Bin_At_of soa (metadata t ! unat pos) d r l h]\<rparr>"
  by (auto simp: Update_Bin_At_def meta_at_def put_def split: Option.bind_splits if_splits)

lemma Set_Unlucky_Bucket_Some:
  "Set_Unlucky_Bucket t pos = Some t' \<Longrightarrow>
     in_range (metadata t) pos
     \<and> t' = t\<lparr>metadata := (metadata t)[unat pos := Set_Unlucky_Bucket_of (metadata t ! unat pos)]\<rparr>"
  by (auto simp: Set_Unlucky_Bucket_def meta_at_def put_def split: Option.bind_splits if_splits)

lemma SaveElem_Some:
  "SaveElem t pos elem = Some t' \<Longrightarrow>
     in_range (elems t) pos \<and> t' = t\<lparr>elems := (elems t)[unat pos := elem]\<rparr>"
  by (simp add: SaveElem_def split: if_splits)

lemma place_Some:
  assumes "place P t pos d r l h elem = Some (res, t')"
  shows "res = Return True \<and> in_range (metadata t) pos \<and> in_range (elems t) pos
     \<and> t' = t\<lparr>metadata := (metadata t)[unat pos := Update_Bin_At_of (IS_SoA P) (metadata t ! unat pos) d r l h],
              elems := (elems t)[unat pos := elem], num_elems := num_elems t + 1\<rparr>"
proof -
  from assms obtain t1 t2 where u: "Update_Bin_At (IS_SoA P) t pos d r l h = Some t1"
    and s: "SaveElem t1 pos elem = Some t2"
    and r: "res = Return True" "t' = t2\<lparr>num_elems := num_elems t2 + 1\<rparr>"
    by (auto simp: place_def split: Option.bind_splits)
  from Update_Bin_At_Some [OF u] SaveElem_Some [OF s] r show ?thesis
    by simp
qed

lemma sum_list_map_update:
  "i < length xs \<Longrightarrow> sum_list (map f (xs[i := x])) + f (xs ! i) = sum_list (map f xs) + (f x :: nat)"
proof (induction xs arbitrary: i)
  case Nil
  then show ?case by simp
next
  case (Cons a xs)
  then show ?case by (cases i) auto
qed

lemma label_sum_update:
  "i < length (metadata t) \<Longrightarrow>
     label_sum (t\<lparr>metadata := (metadata t)[i := m]\<rparr>) + Get_Label_of (metadata t ! i)
       = label_sum t + Get_Label_of m"
  by (simp add: label_sum_def sum_list_map_update)

lemma minimum_labels_Some:
  assumes "minimum_labels t i1 i2 (m1, p1, m2, p2) js = Some (m1', p1', m2', p2')"
    and "Get_Label t p1 = Some m1" "Get_Label t p2 = Some m2"
  shows "Get_Label t p1' = Some m1' \<and> Get_Label t p2' = Some m2'"
  using assms
proof (induction js arbitrary: m1 p1 m2 p2)
  case Nil
  then show ?case by simp
next
  case (Cons i js)
  from Cons.prems(1) obtain l1 l2 where l: "Get_Label t (i1 + i) = Some l1" "Get_Label t (i2 + i) = Some l2"
    and m: "minimum_labels t i1 i2
       (if m1 > l1 then l1 else m1, if m1 > l1 then i1 + i else p1,
        if m2 > l2 then l2 else m2, if m2 > l2 then i2 + i else p2) js = Some (m1', p1', m2', p2')"
    by (auto split: Option.bind_splits)
  show ?case
    by (rule Cons.IH [OF m]) (use l Cons.prems(2,3) in auto)
qed

lemma find_candidates_labels:
  assumes "find_candidates P t key = Some c"
  shows "Get_Label t (pos1 c) = Some (min1 c) \<and> Get_Label t (pos2 c) = Some (min2 c)"
proof -
  from assms obtain i1 i2 m1 m2 m1' p1 m2' p2 where
    g: "Get_Label t i1 = Some m1" "Get_Label t i2 = Some m2"
    and m: "minimum_labels t i1 i2 (m1, i1, m2, i2) (offsets 1 (NUM_ELEMS_BUCKET P)) = Some (m1', p1, m2', p2)"
    and c: "min1 c = m1'" "pos1 c = p1" "min2 c = m2'" "pos2 c = p2"
    by (auto simp: find_candidates_def Let_def split: Option.bind_splits prod.splits)
  from minimum_labels_Some [OF m g] c show ?thesis
    by simp
qed

lemma Get_Label_metadata:
  "Get_Label t pos = Some l \<Longrightarrow> in_range (metadata t) pos \<and> l = Get_Label_of (metadata t ! unat pos)"
  by (auto simp: Get_Label_def meta_at_def split: if_splits)

lemma Get_Label_update:
  "in_range (metadata t) pos \<Longrightarrow>
     Get_Label (t\<lparr>metadata := (metadata t)[unat pos := m], elems := es, num_elems := k\<rparr>) pos
       = Some (Get_Label_of m)"
  by (simp add: Get_Label_def meta_at_def in_range_def)

lemma GetElem_update:
  "in_range (elems t) pos \<Longrightarrow>
     GetElem (t\<lparr>metadata := md, elems := (elems t)[unat pos := e], num_elems := k\<rparr>) pos = Some e"
  by (simp add: GetElem_def in_range_def)


text \<open>
  C2, as the code has it. \<^verbatim>\<open>insert\<close> does not look the key up. When the first bucket of
  the key has an empty cell, the pass of \<^verbatim>\<open>try_insert\<close> writes the new element into that
  cell, counts it, and changes no other cell: an entry with the same key that the table
  holds elsewhere stays where it is, with its value, and the table holds the key twice.
\<close>

theorem try_insert_places_without_lookup:
  assumes c: "find_candidates P t (fst elem) = Some c" and m: "min1 c = 0"
    and r: "try_insert_round P t elem = Some (r, t')"
  shows "r = Return True \<and> GetElem t' (pos1 c) = Some elem \<and> num_elems t' = num_elems t + 1
     \<and> num_buckets t' = num_buckets t
     \<and> (\<forall>q. q \<noteq> pos1 c \<longrightarrow> GetElem t' q = GetElem t q \<and> meta_at t' q = meta_at t q)"
proof -
  from r c m have "place P t (pos1 c) (pos1 c - bucket1_init c) (is_reversed_bucket1 c)
         (min (min2 c + 1) L_MAX) (hash1 c) elem = Some (r, t')"
    by (simp add: try_insert_round_def)
  from place_Some [OF this] show ?thesis
    by (auto simp: GetElem_def meta_at_def in_range_def word_unat_eq_iff)
qed

text \<open>
  The second \<open>insert\<close> of \<open>tail_key\<close>: the first bucket of the key has the empty cell 6,
  the pair with the value "b" goes there, and cell 5 keeps the pair with the value "a".
\<close>

theorem try_insert_places_without_lookup_witness:
  "\<exists>c. find_candidates scenario_params tail_table (fst (tail_key, ''b'')) = Some c
     \<and> min1 c = 0 \<and> pos1 c = 6
     \<and> try_insert_round scenario_params tail_table (tail_key, ''b'') = Some (Return True, twice_table)
     \<and> GetElem twice_table 6 = Some (tail_key, ''b'')
     \<and> num_elems twice_table = num_elems tail_table + 1
     \<and> GetElem twice_table 5 = GetElem tail_table 5
     \<and> GetElem tail_table 5 = Some (tail_key, ''a'')"
proof -
  from tail_table_candidates obtain c
    where c: "find_candidates scenario_params tail_table (fst (tail_key, ''b'')) = Some c"
      and m: "min1 c = 0" and p: "pos1 c = 6"
    by auto
  have q: "(5 :: size_t) \<noteq> pos1 c"
    by (simp add: p)
  have a: "GetElem tail_table 5 = Some (tail_key, ''a'')"
    by (simp add: cbg_eval tail_table_def)
  from try_insert_places_without_lookup [OF c m twice_table_round] q
  have "GetElem twice_table (pos1 c) = Some (tail_key, ''b'')"
    and "num_elems twice_table = num_elems tail_table + 1"
    and "GetElem twice_table 5 = GetElem tail_table 5"
    by blast+
  with c m p a twice_table_round show ?thesis
    by auto
qed

text \<open>
  The claim as stated fails for \<open>tail_key\<close>, whose first bucket is the last cell of a
  table of 8 cells and is reversed from construction. After \<open>insert (tail_key, "a")\<close>
  the key is found in cell 5 with the value "a"; after \<open>insert (tail_key, "b")\<close> it is
  found in cell 6, with the value "b".
\<close>

theorem insert_present_key_counterexample:
  "CBG_IMPL scenario_params 8 = Some fresh_table
   \<and> insert_cbg 3 scenario_params fresh_table (tail_key, ''a'') = Returns tail_table
   \<and> find_position scenario_params tail_table tail_key = Some 5
   \<and> GetValue tail_table 5 = Some ''a''
   \<and> insert_cbg 3 scenario_params tail_table (tail_key, ''b'') = Returns twice_table
   \<and> find_position scenario_params twice_table tail_key = Some 6
   \<and> GetValue twice_table 6 = Some ''b''
   \<and> elems twice_table \<noteq> elems tail_table
   \<and> size_cbg tail_table = 1 \<and> size_cbg twice_table = 2"
proof -
  have "GetValue tail_table 5 = Some ''a''" "GetValue twice_table 6 = Some ''b''"
    "elems twice_table \<noteq> elems tail_table" "size_cbg tail_table = 1" "size_cbg twice_table = 2"
    by (simp_all add: cbg_eval tail_table_def twice_table_def)
  then show ?thesis
    by (simp add: fresh_table_constructed tail_table_inserted tail_table_found
        twice_table_inserted twice_table_found)
qed

lemma evict_Return:
  "evict P t c elem = Some (r, t') \<Longrightarrow>
     (r = Return False \<longleftrightarrow> L_MAX \<le> min (min1 c) (min2 c)) \<and> (r \<noteq> Return False \<longrightarrow> (\<exists>victim. r = Evicted victim))"
  by (auto simp: evict_def split: if_splits Option.bind_splits)

lemma try_insert_after_passes:
  "passes n P t elem = Some (t', elem') \<Longrightarrow> try_insert (n + k) P t elem = try_insert k P t' elem'"
proof (induction n arbitrary: t elem)
  case 0
  then show ?case by simp
next
  case (Suc n)
  then show ?case
    by (auto split: option.splits prod.splits round.splits)
qed


text \<open>
  C3, as the code has it. When neither bucket has an empty cell and the hopscotch
  attempts fail, a pass of \<^verbatim>\<open>try_insert\<close> returns \<^verbatim>\<open>false\<close> exactly when the smaller of
  the two minimum labels has reached \<open>L_MAX\<close>, that is when both minima have; in every
  other case it evicts an entry. The second hopscotch attempt is made only when more
  than nine tenths of the cells are counted as occupied.
\<close>

theorem try_insert_fails_iff_both_minima_at_L_MAX:
  assumes c: "find_candidates P t (fst elem) = Some c"
    and n: "min1 c \<noteq> 0" "min2 c \<noteq> 0"
    and h1: "Find_Empty_Pos_Hopscotch P t (bucket1_pos c) (bucket1_init c) = Some (SIZE_MAX, t1)"
    and h2: "num_elems t1 * 10 > 9 * num_buckets t1 \<Longrightarrow>
               Find_Empty_Pos_Hopscotch P t1 (bucket2_pos c) (bucket2_init c) = Some (SIZE_MAX, t2)"
    and r: "try_insert_round P t elem = Some (r, t')"
  shows "(r = Return False \<longleftrightarrow> L_MAX \<le> min (min1 c) (min2 c))
     \<and> (r = Return False \<longleftrightarrow> L_MAX \<le> min1 c \<and> L_MAX \<le> min2 c)
     \<and> (r \<noteq> Return False \<longrightarrow> (\<exists>victim. r = Evicted victim))"
proof (cases "num_elems t1 * 10 > 9 * num_buckets t1")
  case True
  with r c n h1 h2 have "evict P t2 c elem = Some (r, t')"
    by (simp add: try_insert_round_def)
  from evict_Return [OF this] show ?thesis
    by auto
next
  case False
  with r c n h1 have "evict P t1 c elem = Some (r, t')"
    by (simp add: try_insert_round_def)
  from evict_Return [OF this] show ?thesis
    by auto
qed

text \<open>
  In \<open>chain_last\<close> both buckets of key 0 have the minimum label 7, the hopscotch
  attempt on the first bucket fails, the second attempt is not made, and the pass
  returns \<^verbatim>\<open>false\<close>.
\<close>

theorem try_insert_fails_iff_both_minima_at_L_MAX_witness:
  "\<exists>c. find_candidates chain_params chain_last (fst (0 :: nat, ())) = Some c
     \<and> min1 c \<noteq> 0 \<and> min2 c \<noteq> 0
     \<and> Find_Empty_Pos_Hopscotch chain_params chain_last (bucket1_pos c) (bucket1_init c)
           = Some (SIZE_MAX, chain_last)
     \<and> \<not> num_elems chain_last * 10 > 9 * num_buckets chain_last
     \<and> try_insert_round chain_params chain_last (0, ()) = Some (Return False, chain_last)
     \<and> L_MAX \<le> min1 c \<and> L_MAX \<le> min2 c"
proof -
  from chain_last_candidates obtain c
    where c: "find_candidates chain_params chain_last (fst (0 :: nat, ())) = Some c"
      and m: "min1 c = 7" "min2 c = 7" and b: "bucket1_pos c = 4" "bucket1_init c = 4"
    by auto
  have n: "min1 c \<noteq> 0" "min2 c \<noteq> 0"
    by (simp_all add: m)
  have h1: "Find_Empty_Pos_Hopscotch chain_params chain_last (bucket1_pos c) (bucket1_init c)
      = Some (SIZE_MAX, chain_last)"
    by (simp only: b chain_last_hopscotch)
  have g: "\<not> num_elems chain_last * 10 > 9 * num_buckets chain_last"
    by (simp add: chain_last_def)
  then have h2: "Find_Empty_Pos_Hopscotch chain_params chain_last (bucket2_pos c) (bucket2_init c)
      = Some (SIZE_MAX, chain_last)" if "num_elems chain_last * 10 > 9 * num_buckets chain_last"
    using that by simp
  from try_insert_fails_iff_both_minima_at_L_MAX [OF c n h1 h2 chain_last_round]
  have "L_MAX \<le> min1 c \<and> L_MAX \<le> min2 c"
    by simp
  with c n h1 g chain_last_round show ?thesis
    by blast
qed

text \<open>
  The claim as stated fails on \<open>limit_table\<close>, which \<^verbatim>\<open>try_insert\<close> reaches after 16
  passes on key 4. The two buckets of the element in hand have the minimum labels 7 and 6,
  so the larger one has reached \<open>L_MAX\<close>; the hopscotch attempt fails; and the pass does
  not return \<^verbatim>\<open>false\<close>: it evicts key 3, and the next pass places that key. The call
  returns \<^verbatim>\<open>true\<close> after 18 passes.
\<close>

theorem eviction_at_one_minimum_L_MAX_counterexample:
  "(\<exists>t. CBG_IMPL limit_params 8 = Some t
       \<and> insert_all 3 limit_params t [(0, ()), (1, ()), (2, ()), (3, ())] = Returns limit_start)
   \<and> passes 16 limit_params limit_start (4, ()) = Some (limit_table, (4, ()))
   \<and> (\<exists>c. find_candidates limit_params limit_table 4 = Some c \<and> min1 c = 7 \<and> min2 c = 6
          \<and> L_MAX \<le> max (min1 c) (min2 c)
          \<and> Find_Empty_Pos_Hopscotch limit_params limit_table (bucket1_pos c) (bucket1_init c)
                = Some (SIZE_MAX, limit_table))
   \<and> \<not> num_elems limit_table * 10 > 9 * num_buckets limit_table
   \<and> try_insert_round limit_params limit_table (4, ()) = Some (Evicted (3, ()), limit_next)
   \<and> try_insert_round limit_params limit_next (3, ()) = Some (Return True, limit_done)
   \<and> try_insert 18 limit_params limit_start (4, ()) = Returns (True, limit_done, (3, ()))"
proof -
  from limit_table_candidates obtain c
    where c: "find_candidates limit_params limit_table 4 = Some c"
      and m: "min1 c = 7" "min2 c = 6" and b: "bucket1_pos c = 5" "bucket1_init c = 5"
    by auto
  have "Find_Empty_Pos_Hopscotch limit_params limit_table (bucket1_pos c) (bucket1_init c)
      = Some (SIZE_MAX, limit_table)"
    by (simp only: b limit_table_hopscotch)
  moreover have "L_MAX \<le> max (min1 c) (min2 c)"
    by (simp add: m L_MAX_def)
  ultimately have e: "\<exists>c. find_candidates limit_params limit_table 4 = Some c \<and> min1 c = 7 \<and> min2 c = 6
          \<and> L_MAX \<le> max (min1 c) (min2 c)
          \<and> Find_Empty_Pos_Hopscotch limit_params limit_table (bucket1_pos c) (bucket1_init c)
                = Some (SIZE_MAX, limit_table)"
    using c m by blast
  have g: "\<not> num_elems limit_table * 10 > 9 * num_buckets limit_table"
    by (simp add: limit_table_def)
  have "try_insert (16 + 2) limit_params limit_start (4, ())
      = try_insert 2 limit_params limit_table (4, ())"
    by (rule try_insert_after_passes [OF limit_table_passes])
  also have "\<dots> = Returns (True, limit_done, (3, ()))"
    by (simp add: try_insert_numeral limit_next_round limit_done_round)
  finally have t: "try_insert 18 limit_params limit_start (4, ()) = Returns (True, limit_done, (3, ()))"
    by simp
  from limit_start_inserted limit_table_passes e g limit_next_round limit_done_round t
  show ?thesis
    by blast
qed

lemma min_succ_le_7: "min (n + 1) L_MAX \<le> 7" "1 \<le> min (n + 1) L_MAX"
  by (simp_all add: L_MAX_def)

lemma place_not_Evicted: "place P t pos d r l h elem = Some (Evicted victim, t') \<longleftrightarrow> False"
  by (auto dest: place_Some)

lemma try_insert_round_Evicted:
  assumes c: "find_candidates P t (fst elem) = Some c"
    and r: "try_insert_round P t elem = Some (Evicted victim, t')"
  shows "\<exists>t1 tX. Find_Empty_Pos_Hopscotch P t (bucket1_pos c) (bucket1_init c) = Some (SIZE_MAX, t1)
     \<and> (if num_elems t1 * 10 > 9 * num_buckets t1
         then Find_Empty_Pos_Hopscotch P t1 (bucket2_pos c) (bucket2_init c) = Some (SIZE_MAX, tX)
         else tX = t1)
     \<and> evict P tX c elem = Some (Evicted victim, t')"
  using r c
  by (auto simp: try_insert_round_def place_not_Evicted split: Option.bind_splits if_splits)

lemma evict_Evicted:
  fixes t :: "('w::len word, 'k, 'v) table"
  assumes w: "3 \<le> LENGTH('w)"
    and e: "evict P t c elem = Some (Evicted victim, t')"
  shows "min (min1 c) (min2 c) < L_MAX
     \<and> Get_Label t' (if min1 c \<le> min2 c then pos1 c else pos2 c)
         = Some (min (max (min1 c) (min2 c) + 1) L_MAX)
     \<and> GetElem t' (if min1 c \<le> min2 c then pos1 c else pos2 c) = Some elem
     \<and> GetElem t (if min1 c \<le> min2 c then pos1 c else pos2 c) = Some victim
     \<and> (Get_Label t (if min1 c \<le> min2 c then pos1 c else pos2 c) = Some (min (min1 c) (min2 c))
          \<longrightarrow> label_sum t + (min (max (min1 c) (min2 c) + 1) L_MAX - min (min1 c) (min2 c)) = label_sum t')"
proof (cases "min1 c \<le> min2 c")
  case True
  from e have lt: "min (min1 c) (min2 c) < L_MAX"
    by (auto simp: evict_def split: if_splits)
  with e True obtain t1 where u: "Update_Bin_At (IS_SoA P) t (pos1 c) (pos1 c - bucket1_init c) (is_reversed_bucket1 c)
               (min (min2 c + 1) L_MAX) (hash1 c) = Some t1"
    and v: "GetElem t1 (pos1 c) = Some victim" and s: "SaveElem t1 (pos1 c) elem = Some t'"
    by (auto simp: evict_def split: if_splits Option.bind_splits)
  note U = Update_Bin_At_Some [OF u] and S = SaveElem_Some [OF s]
  have lab: "Get_Label_of (Update_Bin_At_of (IS_SoA P) (metadata t ! unat (pos1 c)) (pos1 c - bucket1_init c)
      (is_reversed_bucket1 c) (min (min2 c + 1) L_MAX) (hash1 c)) = min (min2 c + 1) L_MAX"
    by (rule Get_Label_of_Update_Bin_At_of [OF w min_succ_le_7(1)])
  have mx: "max (min1 c) (min2 c) = min2 c" "min (min1 c) (min2 c) = min1 c"
    using True by simp_all
  have 1: "Get_Label t' (pos1 c) = Some (min (min2 c + 1) L_MAX)"
    using U S lab by (simp add: Get_Label_def meta_at_def in_range_def)
  have 2: "GetElem t' (pos1 c) = Some elem"
    using U S by (simp add: GetElem_def in_range_def)
  have 3: "GetElem t (pos1 c) = Some victim"
    using U v by (auto simp: GetElem_def in_range_def split: if_splits)
  have 4: "label_sum t + (min (min2 c + 1) L_MAX - min1 c) = label_sum t'"
    if "Get_Label t (pos1 c) = Some (min1 c)"
  proof -
    from Get_Label_metadata [OF that] have i: "unat (pos1 c) < length (metadata t)"
      and l: "Get_Label_of (metadata t ! unat (pos1 c)) = min1 c"
      by (simp_all add: in_range_def)
    from label_sum_update [OF i] U S lab l
    have "label_sum t' + min1 c = label_sum t + min (min2 c + 1) L_MAX"
      by (simp add: label_sum_def)
    then show ?thesis
      using True lt by (simp add: L_MAX_def)
  qed
  from lt 1 2 3 4 True show ?thesis
    by (simp add: mx)
next
  case False
  from e have lt: "min (min1 c) (min2 c) < L_MAX"
    by (auto simp: evict_def split: if_splits)
  with e False obtain t0 t1 where z: "Set_Unlucky_Bucket t (bucket1_pos c) = Some t0"
    and u: "Update_Bin_At (IS_SoA P) t0 (pos2 c) (pos2 c - bucket2_init c) (is_reversed_bucket2 c)
               (min (min1 c + 1) L_MAX) (hash0 c) = Some t1"
    and v: "GetElem t1 (pos2 c) = Some victim" and s: "SaveElem t1 (pos2 c) elem = Some t'"
    by (auto simp: evict_def split: if_splits Option.bind_splits)
  note Z = Set_Unlucky_Bucket_Some [OF z] and U = Update_Bin_At_Some [OF u] and S = SaveElem_Some [OF s]
  have lab: "Get_Label_of (Update_Bin_At_of (IS_SoA P) (metadata t0 ! unat (pos2 c)) (pos2 c - bucket2_init c)
      (is_reversed_bucket2 c) (min (min1 c + 1) L_MAX) (hash0 c)) = min (min1 c + 1) L_MAX"
    by (rule Get_Label_of_Update_Bin_At_of [OF w min_succ_le_7(1)])
  have mx: "max (min1 c) (min2 c) = min1 c" "min (min1 c) (min2 c) = min2 c"
    using False by simp_all
  have 1: "Get_Label t' (pos2 c) = Some (min (min1 c + 1) L_MAX)"
    using U S lab by (simp add: Get_Label_def meta_at_def in_range_def)
  have 2: "GetElem t' (pos2 c) = Some elem"
    using U S by (simp add: GetElem_def in_range_def)
  have 3: "GetElem t (pos2 c) = Some victim"
    using Z U v by (auto simp: GetElem_def in_range_def split: if_splits)
  have 4: "label_sum t + (min (min1 c + 1) L_MAX - min2 c) = label_sum t'"
    if "Get_Label t (pos2 c) = Some (min2 c)"
  proof -
    from Get_Label_metadata [OF that] have i: "unat (pos2 c) < length (metadata t)"
      and l: "Get_Label_of (metadata t ! unat (pos2 c)) = min2 c"
      by (simp_all add: in_range_def)
    from Z have j: "unat (bucket1_pos c) < length (metadata t)"
      by (simp add: in_range_def)
    have s0: "label_sum t0 = label_sum t"
      using label_sum_update [OF j, of "Set_Unlucky_Bucket_of (metadata t ! unat (bucket1_pos c))"] Z
      by (simp add: Get_Label_of_Set_Unlucky_Bucket_of)
    have l0: "Get_Label_of (metadata t0 ! unat (pos2 c)) = min2 c"
      using Z l i j by (cases "unat (bucket1_pos c) = unat (pos2 c)")
        (simp_all add: Get_Label_of_Set_Unlucky_Bucket_of)
    have i0: "unat (pos2 c) < length (metadata t0)"
      using Z i by simp
    from label_sum_update [OF i0] U S lab l0
    have "label_sum t' + min2 c = label_sum t0 + min (min1 c + 1) L_MAX"
      by (simp add: label_sum_def)
    then show ?thesis
      using False lt s0 by (simp add: L_MAX_def)
  qed
  from lt 1 2 3 4 False show ?thesis
    by (simp add: mx)
qed

lemma try_insert_round_Return_False:
  assumes c: "find_candidates P t (fst elem) = Some c"
    and r: "try_insert_round P t elem = Some (Return False, t')"
  shows "L_MAX \<le> min1 c \<and> L_MAX \<le> min2 c"
proof -
  have p: "place P t0 pos d rv l h elem = Some (Return False, t') \<longleftrightarrow> False" for t0 pos d rv l h
    by (auto dest: place_Some)
  from r c obtain tX where "evict P tX c elem = Some (Return False, t')"
    by (auto simp: try_insert_round_def p split: Option.bind_splits if_splits)
  from evict_Return [OF this] show ?thesis
    by simp
qed


text \<open>
  C5, as the code has it. Let \<open>min1\<close> and \<open>min2\<close> be the minimum labels that a pass of
  \<^verbatim>\<open>try_insert\<close> reads in the two buckets. A pass that returns \<^verbatim>\<open>false\<close> has found both at
  \<open>L_MAX\<close>. A pass that evicts has read the smaller minimum in the cell it then
  overwrites, and writes there the label \<open>min (max min1 min2 + 1) L_MAX\<close>, which is
  larger; when the hopscotch attempts of the pass left the table as it was, the entry
  evicted is the one that carried the smaller minimum, and the sum of all labels grows.
  Nothing is said about the number of passes.
\<close>

theorem eviction_pass_raises_label:
  fixes t :: "('w::len word, 'k, 'v) table"
  assumes w: "3 \<le> LENGTH('w)"
    and c: "find_candidates P t (fst elem) = Some c"
    and r: "try_insert_round P t elem = Some (r, t')"
  shows "(r = Return False \<longrightarrow> L_MAX \<le> min1 c \<and> L_MAX \<le> min2 c)
     \<and> (\<forall>victim. r = Evicted victim \<longrightarrow>
          min (min1 c) (min2 c) < min (max (min1 c) (min2 c) + 1) L_MAX
          \<and> Get_Label t (if min1 c \<le> min2 c then pos1 c else pos2 c) = Some (min (min1 c) (min2 c))
          \<and> Get_Label t' (if min1 c \<le> min2 c then pos1 c else pos2 c)
              = Some (min (max (min1 c) (min2 c) + 1) L_MAX)
          \<and> GetElem t' (if min1 c \<le> min2 c then pos1 c else pos2 c) = Some elem
          \<and> (Find_Empty_Pos_Hopscotch P t (bucket1_pos c) (bucket1_init c) = Some (SIZE_MAX, t)
               \<and> (num_elems t * 10 > 9 * num_buckets t \<longrightarrow>
                    Find_Empty_Pos_Hopscotch P t (bucket2_pos c) (bucket2_init c) = Some (SIZE_MAX, t))
               \<longrightarrow> GetElem t (if min1 c \<le> min2 c then pos1 c else pos2 c) = Some victim
                   \<and> label_sum t < label_sum t'))"
proof -
  have "min (min1 c) (min2 c) < min (max (min1 c) (min2 c) + 1) L_MAX
          \<and> Get_Label t (if min1 c \<le> min2 c then pos1 c else pos2 c) = Some (min (min1 c) (min2 c))
          \<and> Get_Label t' (if min1 c \<le> min2 c then pos1 c else pos2 c)
              = Some (min (max (min1 c) (min2 c) + 1) L_MAX)
          \<and> GetElem t' (if min1 c \<le> min2 c then pos1 c else pos2 c) = Some elem
          \<and> (Find_Empty_Pos_Hopscotch P t (bucket1_pos c) (bucket1_init c) = Some (SIZE_MAX, t)
               \<and> (num_elems t * 10 > 9 * num_buckets t \<longrightarrow>
                    Find_Empty_Pos_Hopscotch P t (bucket2_pos c) (bucket2_init c) = Some (SIZE_MAX, t))
               \<longrightarrow> GetElem t (if min1 c \<le> min2 c then pos1 c else pos2 c) = Some victim
                   \<and> label_sum t < label_sum t')"
    if v: "r = Evicted victim" for victim
  proof -
    from try_insert_round_Evicted [OF c r [unfolded v]] obtain t1 tX
      where h1: "Find_Empty_Pos_Hopscotch P t (bucket1_pos c) (bucket1_init c) = Some (SIZE_MAX, t1)"
        and h2: "if num_elems t1 * 10 > 9 * num_buckets t1
           then Find_Empty_Pos_Hopscotch P t1 (bucket2_pos c) (bucket2_init c) = Some (SIZE_MAX, tX)
           else tX = t1"
        and e: "evict P tX c elem = Some (Evicted victim, t')"
      by blast
    note E = evict_Evicted [OF w e]
    note L = find_candidates_labels [OF c]
    from E have lt: "min (min1 c) (min2 c) < min (max (min1 c) (min2 c) + 1) L_MAX"
      by (auto simp: L_MAX_def)
    have same: "GetElem t (if min1 c \<le> min2 c then pos1 c else pos2 c) = Some victim
                   \<and> label_sum t < label_sum t'"
      if "Find_Empty_Pos_Hopscotch P t (bucket1_pos c) (bucket1_init c) = Some (SIZE_MAX, t)"
        and "num_elems t * 10 > 9 * num_buckets t \<longrightarrow>
                    Find_Empty_Pos_Hopscotch P t (bucket2_pos c) (bucket2_init c) = Some (SIZE_MAX, t)"
    proof -
      from that h1 h2 have "tX = t"
        by (auto split: if_splits)
      with E L lt show ?thesis
        by (auto split: if_splits)
    qed
    from E L lt same show ?thesis
      by (auto split: if_splits)
  qed
  with try_insert_round_Return_False [OF c] r show ?thesis
    by blast
qed

text \<open>
  The 17th pass of \<^verbatim>\<open>try_insert\<close> on \<open>limit_start\<close>: the minima are 7 and 6, cell 4
  carries the 6 and key 3, the pass writes the label 7 and key 4 there, and the sum
  of the labels grows.
\<close>

theorem eviction_pass_raises_label_witness:
  "3 \<le> LENGTH(16)
   \<and> (\<exists>c. find_candidates limit_params limit_table (fst (4 :: nat, ())) = Some c
          \<and> min1 c = 7 \<and> min2 c = 6 \<and> pos2 c = 4)
   \<and> try_insert_round limit_params limit_table (4, ()) = Some (Evicted (3, ()), limit_next)
   \<and> Find_Empty_Pos_Hopscotch limit_params limit_table 5 5 = Some (SIZE_MAX, limit_table)
   \<and> \<not> num_elems limit_table * 10 > 9 * num_buckets limit_table
   \<and> Get_Label limit_table 4 = Some 6 \<and> Get_Label limit_next 4 = Some 7
   \<and> GetElem limit_table 4 = Some (3, ()) \<and> GetElem limit_next 4 = Some (4, ())
   \<and> label_sum limit_table < label_sum limit_next"
proof -
  from limit_table_candidates obtain c
    where c: "find_candidates limit_params limit_table (fst (4 :: nat, ())) = Some c"
      and m: "min1 c = 7" "min2 c = 6"
      and b: "bucket1_pos c = 5" "bucket1_init c = 5" "pos2 c = 4"
    by auto
  have w: "3 \<le> LENGTH(16)"
    by simp
  have h: "Find_Empty_Pos_Hopscotch limit_params limit_table (bucket1_pos c) (bucket1_init c)
      = Some (SIZE_MAX, limit_table)"
    by (simp only: b limit_table_hopscotch)
  have g: "\<not> num_elems limit_table * 10 > 9 * num_buckets limit_table"
    by (simp add: limit_table_def)
  from eviction_pass_raises_label [OF w c limit_next_round] h g
  have "Get_Label limit_table (if min1 c \<le> min2 c then pos1 c else pos2 c) = Some (min (min1 c) (min2 c))"
    and "Get_Label limit_next (if min1 c \<le> min2 c then pos1 c else pos2 c)
      = Some (min (max (min1 c) (min2 c) + 1) L_MAX)"
    and "GetElem limit_next (if min1 c \<le> min2 c then pos1 c else pos2 c) = Some (4, ())"
    and "GetElem limit_table (if min1 c \<le> min2 c then pos1 c else pos2 c) = Some (3, ())"
    and "label_sum limit_table < label_sum limit_next"
    by blast+
  then have "Get_Label limit_table 4 = Some 6" "Get_Label limit_next 4 = Some 7"
    "GetElem limit_table 4 = Some (3, ())" "GetElem limit_next 4 = Some (4, ())"
    "label_sum limit_table < label_sum limit_next"
    by (simp_all add: m b L_MAX_def)
  with c m b w g limit_next_round limit_table_hopscotch show ?thesis
    by blast
qed

text \<open>
  The claim as stated fails in both parts. In \<open>level_table\<close> (buckets of three cells) the
  pass of \<^verbatim>\<open>try_insert\<close> on key 5 evicts key 3 and the sum of all labels is 7 before and
  after: the hopscotch attempt of that pass fails, but on its way it reverses a bucket and
  moves key 3, with its label 2, into cell 13, and the label the pass then writes into
  cell 13 is 2 again. On \<open>chain_table\<close> (buckets of two cells, so that the bound of the
  claim is 28) \<^verbatim>\<open>try_insert\<close> on key 6 evicts 29 times and returns \<^verbatim>\<open>false\<close> in its 30th
  pass.
\<close>

theorem eviction_sum_and_bound_counterexample:
  "(\<exists>t. CBG_IMPL level_params 16 = Some t
       \<and> insert_all 3 level_params t [(0, ()), (1, ()), (2, ()), (3, ()), (4, ())] = Returns level_table)
   \<and> try_insert_round level_params level_table (5, ()) = Some (Evicted (3, ()), level_next)
   \<and> label_sum level_table = 7 \<and> label_sum level_next = 7
   \<and> (\<exists>t1. Find_Empty_Pos_Hopscotch level_params level_table 14 12 = Some (SIZE_MAX, t1)
          \<and> GetElem t1 13 = Some (3, ()) \<and> Get_Label t1 13 = Some 2)
   \<and> GetElem level_next 13 = Some (5, ()) \<and> Get_Label level_next 13 = Some 2
   \<and> (\<exists>t. CBG_IMPL chain_params 8 = Some t
          \<and> insert_all 3 chain_params t [(0, ()), (1, ()), (2, ()), (3, ()), (4, ()), (5, ())]
              = Returns chain_table)
   \<and> L_MAX * unat (NUM_ELEMS_BUCKET chain_params) * 2 = 28
   \<and> passes 29 chain_params chain_table (6, ()) = Some (chain_last, (0, ()))
   \<and> try_insert 29 chain_params chain_table (6, ()) = Out_Of_Fuel
   \<and> try_insert 30 chain_params chain_table (6, ()) = Returns (False, chain_last, (0, ()))"
proof -
  have n: "GetElem level_next 13 = Some (5, ())" "Get_Label level_next 13 = Some 2"
    by (simp_all add: cbg_eval level_next_def)
  have b: "L_MAX * unat (NUM_ELEMS_BUCKET chain_params) * 2 = 28"
    by (simp add: L_MAX_def chain_params_def listed_params_def)
  have "try_insert (29 + 0) chain_params chain_table (6, ()) = try_insert 0 chain_params chain_last (0, ())"
    by (rule try_insert_after_passes [OF chain_last_passes])
  then have f: "try_insert 29 chain_params chain_table (6, ()) = Out_Of_Fuel"
    by simp
  have "try_insert (29 + 1) chain_params chain_table (6, ()) = try_insert 1 chain_params chain_last (0, ())"
    by (rule try_insert_after_passes [OF chain_last_passes])
  also have "\<dots> = Returns (False, chain_last, (0, ()))"
    by (simp add: chain_last_round)
  finally have r: "try_insert 30 chain_params chain_table (6, ()) = Returns (False, chain_last, (0, ()))"
    by simp
  from level_table_inserted level_next_round level_label_sum level_table_hopscotch n
    chain_table_inserted b chain_last_passes f r
  show ?thesis
    by blast
qed

lemma minimum_labels_fold:
  assumes "minimum_labels t i1 i2 (m1, p1, m2, p2) js = Some (m1', p1', m2', p2')"
  shows "m1' = fold min (map (\<lambda>i. Get_Label_of (metadata t ! unat (i1 + i))) js) m1
       \<and> m2' = fold min (map (\<lambda>i. Get_Label_of (metadata t ! unat (i2 + i))) js) m2"
  using assms
proof (induction js arbitrary: m1 p1 m2 p2)
  case Nil
  then show ?case by simp
next
  case (Cons i js)
  from Cons.prems obtain l1 l2 where l: "Get_Label t (i1 + i) = Some l1" "Get_Label t (i2 + i) = Some l2"
    and m: "minimum_labels t i1 i2
       (if m1 > l1 then l1 else m1, if m1 > l1 then i1 + i else p1,
        if m2 > l2 then l2 else m2, if m2 > l2 then i2 + i else p2) js = Some (m1', p1', m2', p2')"
    by (auto split: Option.bind_splits)
  from l have e: "l1 = Get_Label_of (metadata t ! unat (i1 + i))" "l2 = Get_Label_of (metadata t ! unat (i2 + i))"
    by (simp_all add: Get_Label_metadata)
  have "(if m1 > l1 then l1 else m1) = min l1 m1" "(if m2 > l2 then l2 else m2) = min l2 m2"
    by auto
  with Cons.IH [OF m] e show ?case
    by simp
qed

lemma offsets_0: "1 \<le> b \<Longrightarrow> offsets 0 b = 0 # offsets 1 b"
proof -
  assume "1 \<le> b"
  then have "0 < unat b"
    by (simp add: word_le_nat_alt)
  then show ?thesis
    by (simp add: offsets_def upt_conv_Cons)
qed

lemma find_candidates_minima:
  assumes sa: "static_assert P" and c: "find_candidates P t key = Some c"
  shows "min1 c = Min (set (bucket_labels P t (bucket1_init c)))
       \<and> min2 c = Min (set (bucket_labels P t (bucket2_init c)))"
proof -
  from c obtain i1 i2 m1 m2 m1' p1 m2' p2 where
    g: "Get_Label t i1 = Some m1" "Get_Label t i2 = Some m2"
    and m: "minimum_labels t i1 i2 (m1, i1, m2, i2) (offsets 1 (NUM_ELEMS_BUCKET P)) = Some (m1', p1, m2', p2)"
    and cc: "min1 c = m1'" "min2 c = m2'" "bucket1_init c = i1" "bucket2_init c = i2"
    by (auto simp: find_candidates_def Let_def split: Option.bind_splits prod.splits)
  from sa have "1 \<le> NUM_ELEMS_BUCKET P"
    by (simp add: static_assert_def word_le_nat_alt)
  then have o: "offsets 0 (NUM_ELEMS_BUCKET P) = 0 # offsets 1 (NUM_ELEMS_BUCKET P)"
    by (rule offsets_0)
  from g have e: "m1 = Get_Label_of (metadata t ! unat i1)" "m2 = Get_Label_of (metadata t ! unat i2)"
    by (simp_all add: Get_Label_metadata)
  from minimum_labels_fold [OF m] cc e show ?thesis
    by (simp add: bucket_labels_def o Min.set_eq_fold del: set_simps)
qed


text \<open>
  C6, as the code has it. Let \<open>min1\<close> and \<open>min2\<close> be the minimum labels of the first
  and of the second bucket of the element, as a pass of \<^verbatim>\<open>try_insert\<close> reads them when it
  starts. Every placement of the pass writes one more than the minimum of the other
  bucket, clamped to \<open>L_MAX\<close>:
  on the fast path the element goes to the cell with the minimum of the first bucket, with
  the label \<open>min (min2 + 1) L_MAX\<close>;
  when the hopscotch search of the first bucket returns a cell, it goes there, with the
  label \<open>min (min2 + 1) L_MAX\<close>;
  when that search fails and the second bucket has an empty cell, it goes to the cell with
  the minimum of the second bucket, with the label \<open>min (min1 + 1) L_MAX\<close>;
  when the hopscotch search of the second bucket is made and returns a cell, it goes there,
  with the label \<open>min (min1 + 1) L_MAX\<close>;
  an eviction puts it into the cell with the minimum of the first bucket, with the label
  \<open>min (min2 + 1) L_MAX\<close>, when \<open>min1 \<le> min2\<close>, and into the cell with the minimum of the
  second bucket, with the label \<open>min (min1 + 1) L_MAX\<close>, otherwise.
  The label of every cell is at most \<open>L_MAX\<close>, and at least 1 when the cell is occupied.
  The statement is about \<^verbatim>\<open>try_insert\<close>; the direct placement of \<^verbatim>\<open>rehash\<close> is a
  different matter, see below.
\<close>

theorem try_insert_placement_label:
  fixes t :: "('w::len word, 'k, 'v) table"
  assumes w: "3 \<le> LENGTH('w)" and sa: "static_assert P"
    and c: "find_candidates P t (fst elem) = Some c"
    and r: "try_insert_round P t elem = Some (r, t')"
  shows "min1 c = Min (set (bucket_labels P t (bucket1_init c)))
     \<and> min2 c = Min (set (bucket_labels P t (bucket2_init c)))
     \<and> (min1 c = 0 \<longrightarrow>
          r = Return True \<and> GetElem t' (pos1 c) = Some elem
          \<and> Get_Label t' (pos1 c) = Some (min (min2 c + 1) L_MAX))
     \<and> (min1 c \<noteq> 0 \<longrightarrow>
          (\<exists>empty_pos t1.
             Find_Empty_Pos_Hopscotch P t (bucket1_pos c) (bucket1_init c) = Some (empty_pos, t1)
             \<and> (empty_pos \<noteq> SIZE_MAX \<longrightarrow>
                  r = Return True \<and> GetElem t' empty_pos = Some elem
                  \<and> Get_Label t' empty_pos = Some (min (min2 c + 1) L_MAX))
             \<and> (empty_pos = SIZE_MAX \<and> min2 c = 0 \<longrightarrow>
                  r = Return True \<and> GetElem t' (pos2 c) = Some elem
                  \<and> Get_Label t' (pos2 c) = Some (min (min1 c + 1) L_MAX))
             \<and> (empty_pos = SIZE_MAX \<and> min2 c \<noteq> 0 \<and> num_elems t1 * 10 > 9 * num_buckets t1 \<longrightarrow>
                  (\<exists>empty_pos2 t2.
                     Find_Empty_Pos_Hopscotch P t1 (bucket2_pos c) (bucket2_init c) = Some (empty_pos2, t2)
                     \<and> (empty_pos2 \<noteq> SIZE_MAX \<longrightarrow>
                          r = Return True \<and> GetElem t' empty_pos2 = Some elem
                          \<and> Get_Label t' empty_pos2 = Some (min (min1 c + 1) L_MAX))))))
     \<and> (\<forall>victim. r = Evicted victim \<longrightarrow>
          (if min1 c \<le> min2 c
           then GetElem t' (pos1 c) = Some elem \<and> Get_Label t' (pos1 c) = Some (min (min2 c + 1) L_MAX)
           else GetElem t' (pos2 c) = Some elem \<and> Get_Label t' (pos2 c) = Some (min (min1 c + 1) L_MAX)))
     \<and> (\<forall>m \<in> set (metadata t'). Get_Label_of m \<le> L_MAX \<and> (\<not> Is_Empty_of m \<longrightarrow> 1 \<le> Get_Label_of m))"
proof -
  have stored: "rr = Return True \<and> GetElem t' pos = Some elem \<and> Get_Label t' pos = Some (min (n + 1) L_MAX)"
    if "place P t0 pos d rv (min (Suc n) L_MAX) h elem = Some (rr, t')" for t0 pos d rv n h rr
  proof -
    have "Get_Label_of (Update_Bin_At_of (IS_SoA P) (metadata t0 ! unat pos) d rv (min (n + 1) L_MAX) h)
        = min (n + 1) L_MAX"
      by (rule Get_Label_of_Update_Bin_At_of [OF w min_succ_le_7(1)])
    with place_Some [OF that] show ?thesis
      by (simp add: Get_Label_def meta_at_def GetElem_def in_range_def)
  qed
  have fast: "r = Return True \<and> GetElem t' (pos1 c) = Some elem
      \<and> Get_Label t' (pos1 c) = Some (min (min2 c + 1) L_MAX)"
    if "min1 c = 0"
  proof -
    from r c that have "place P t (pos1 c) (pos1 c - bucket1_init c) (is_reversed_bucket1 c)
         (min (Suc (min2 c)) L_MAX) (hash1 c) elem = Some (r, t')"
      by (simp add: try_insert_round_def)
    then show ?thesis
      by (rule stored)
  qed
  have slow: "\<exists>empty_pos t1.
             Find_Empty_Pos_Hopscotch P t (bucket1_pos c) (bucket1_init c) = Some (empty_pos, t1)
             \<and> (empty_pos \<noteq> SIZE_MAX \<longrightarrow>
                  r = Return True \<and> GetElem t' empty_pos = Some elem
                  \<and> Get_Label t' empty_pos = Some (min (min2 c + 1) L_MAX))
             \<and> (empty_pos = SIZE_MAX \<and> min2 c = 0 \<longrightarrow>
                  r = Return True \<and> GetElem t' (pos2 c) = Some elem
                  \<and> Get_Label t' (pos2 c) = Some (min (min1 c + 1) L_MAX))
             \<and> (empty_pos = SIZE_MAX \<and> min2 c \<noteq> 0 \<and> num_elems t1 * 10 > 9 * num_buckets t1 \<longrightarrow>
                  (\<exists>empty_pos2 t2.
                     Find_Empty_Pos_Hopscotch P t1 (bucket2_pos c) (bucket2_init c) = Some (empty_pos2, t2)
                     \<and> (empty_pos2 \<noteq> SIZE_MAX \<longrightarrow>
                          r = Return True \<and> GetElem t' empty_pos2 = Some elem
                          \<and> Get_Label t' empty_pos2 = Some (min (min1 c + 1) L_MAX))))"
    if n: "min1 c \<noteq> 0"
  proof -
    from r c n obtain empty_pos t1
      where h: "Find_Empty_Pos_Hopscotch P t (bucket1_pos c) (bucket1_init c) = Some (empty_pos, t1)"
      by (auto simp: try_insert_round_def split: Option.bind_splits)
    have 1: "r = Return True \<and> GetElem t' empty_pos = Some elem
        \<and> Get_Label t' empty_pos = Some (min (min2 c + 1) L_MAX)" if e: "empty_pos \<noteq> SIZE_MAX"
    proof -
      from r c n h e obtain r1 where "place P t1 empty_pos
           (empty_pos - (bucket1_pos c + (if r1 then 1 - NUM_ELEMS_BUCKET P else 0))) r1
           (min (Suc (min2 c)) L_MAX) (hash1 c) elem = Some (r, t')"
        by (auto simp: try_insert_round_def split: Option.bind_splits)
      then show ?thesis
        by (rule stored)
    qed
    have 2: "r = Return True \<and> GetElem t' (pos2 c) = Some elem
        \<and> Get_Label t' (pos2 c) = Some (min (min1 c + 1) L_MAX)" if e: "empty_pos = SIZE_MAX" "min2 c = 0"
    proof -
      from r c n h e obtain t2 where "place P t2 (pos2 c) (pos2 c - bucket2_init c) (is_reversed_bucket2 c)
           (min (Suc (min1 c)) L_MAX) (hash0 c) elem = Some (r, t')"
        by (auto simp: try_insert_round_def split: Option.bind_splits)
      then show ?thesis
        by (rule stored)
    qed
    have 3: "\<exists>empty_pos2 t2.
        Find_Empty_Pos_Hopscotch P t1 (bucket2_pos c) (bucket2_init c) = Some (empty_pos2, t2)
        \<and> (empty_pos2 \<noteq> SIZE_MAX \<longrightarrow>
             r = Return True \<and> GetElem t' empty_pos2 = Some elem
             \<and> Get_Label t' empty_pos2 = Some (min (min1 c + 1) L_MAX))"
      if e: "empty_pos = SIZE_MAX" "min2 c \<noteq> 0" "num_elems t1 * 10 > 9 * num_buckets t1"
    proof -
      from r c n h e obtain empty_pos2 t2
        where h2: "Find_Empty_Pos_Hopscotch P t1 (bucket2_pos c) (bucket2_init c) = Some (empty_pos2, t2)"
        by (auto simp: try_insert_round_def split: Option.bind_splits)
      have "r = Return True \<and> GetElem t' empty_pos2 = Some elem
          \<and> Get_Label t' empty_pos2 = Some (min (min1 c + 1) L_MAX)" if e2: "empty_pos2 \<noteq> SIZE_MAX"
      proof -
        from r c n h e h2 e2 obtain t3 r2 where "place P t3 empty_pos2
             (empty_pos2 - (bucket2_pos c + (if r2 then 1 - NUM_ELEMS_BUCKET P else 0))) r2
             (min (Suc (min1 c)) L_MAX) (hash0 c) elem = Some (r, t')"
          by (auto simp: try_insert_round_def split: Option.bind_splits)
        then show ?thesis
          by (rule stored)
      qed
      with h2 show ?thesis
        by blast
    qed
    from 1 have 1: "empty_pos \<noteq> SIZE_MAX \<longrightarrow>
                  r = Return True \<and> GetElem t' empty_pos = Some elem
                  \<and> Get_Label t' empty_pos = Some (min (min2 c + 1) L_MAX)"
      by (rule impI)
    from 2 have 2: "empty_pos = SIZE_MAX \<and> min2 c = 0 \<longrightarrow>
                  r = Return True \<and> GetElem t' (pos2 c) = Some elem
                  \<and> Get_Label t' (pos2 c) = Some (min (min1 c + 1) L_MAX)"
      by simp
    from 3 have 3: "empty_pos = SIZE_MAX \<and> min2 c \<noteq> 0 \<and> num_elems t1 * 10 > 9 * num_buckets t1 \<longrightarrow>
                  (\<exists>empty_pos2 t2.
                     Find_Empty_Pos_Hopscotch P t1 (bucket2_pos c) (bucket2_init c) = Some (empty_pos2, t2)
                     \<and> (empty_pos2 \<noteq> SIZE_MAX \<longrightarrow>
                          r = Return True \<and> GetElem t' empty_pos2 = Some elem
                          \<and> Get_Label t' empty_pos2 = Some (min (min1 c + 1) L_MAX)))"
      by simp
    show ?thesis
      apply (rule exI [of _ empty_pos])
      apply (rule exI [of _ t1])
      apply (intro conjI)
         apply (rule h)
        apply (rule 1)
       apply (rule 2)
      apply (rule 3)
      done
  qed
  have ev: "if min1 c \<le> min2 c
           then GetElem t' (pos1 c) = Some elem \<and> Get_Label t' (pos1 c) = Some (min (min2 c + 1) L_MAX)
           else GetElem t' (pos2 c) = Some elem \<and> Get_Label t' (pos2 c) = Some (min (min1 c + 1) L_MAX)"
    if v: "r = Evicted victim" for victim
  proof -
    from try_insert_round_Evicted [OF c r [unfolded v]] obtain tX
      where "evict P tX c elem = Some (Evicted victim, t')"
      by blast
    from evict_Evicted [OF w this] show ?thesis
      by (cases "min1 c \<le> min2 c") (simp_all add: max_def)
  qed
  have inv: "Get_Label_of m \<le> L_MAX \<and> (\<not> Is_Empty_of m \<longrightarrow> 1 \<le> Get_Label_of m)" for m :: "'w word"
    using Get_Label_of_le [of m] by (simp add: Is_Empty_of_def)
  from find_candidates_minima [OF sa c] fast slow ev inv show ?thesis
    by blast
qed

text \<open>
  Two passes in which the two minima differ. Key 2 of the chain has the minima 1 and 0, the
  hopscotch search of its first bucket fails, and it goes to cell 2 of its second bucket
  with the label 2. Key 2 of \<open>hop_table\<close> has the minima 1 and 0, the hopscotch search of
  its first bucket returns cell 3, and it goes there with the label 1.
\<close>

theorem try_insert_placement_label_witness:
  "3 \<le> LENGTH(16) \<and> static_assert chain_params \<and> static_assert hop_params
   \<and> (\<exists>c. find_candidates chain_params chain_two (fst (2 :: nat, ())) = Some c
          \<and> min1 c = 1 \<and> min2 c = 0 \<and> pos2 c = 2
          \<and> Find_Empty_Pos_Hopscotch chain_params chain_two (bucket1_pos c) (bucket1_init c)
                = Some (SIZE_MAX, chain_two)
          \<and> Min (set (bucket_labels chain_params chain_two (bucket1_init c))) = 1
          \<and> Min (set (bucket_labels chain_params chain_two (bucket2_init c))) = 0)
   \<and> try_insert_round chain_params chain_two (2, ()) = Some (Return True, chain_three)
   \<and> GetElem chain_three 2 = Some (2, ()) \<and> Get_Label chain_three 2 = Some 2
   \<and> (\<exists>c. find_candidates hop_params hop_table (fst (2 :: nat, ())) = Some c
          \<and> min1 c = 1 \<and> min2 c = 0
          \<and> Find_Empty_Pos_Hopscotch hop_params hop_table (bucket1_pos c) (bucket1_init c)
                = Some (3, hop_moved))
   \<and> try_insert_round hop_params hop_table (2, ()) = Some (Return True, hop_done)
   \<and> GetElem hop_done 3 = Some (2, ()) \<and> Get_Label hop_done 3 = Some 1"
proof -
  have w: "3 \<le> LENGTH(16)"
    by simp
  have sa: "static_assert chain_params" "static_assert hop_params"
    by (simp_all add: static_assert_def chain_params_def hop_params_def listed_params_def)
  from chain_two_candidates obtain c
    where c: "find_candidates chain_params chain_two (fst (2 :: nat, ())) = Some c"
      and m: "min1 c = 1" "min2 c = 0"
      and b: "bucket1_pos c = 4" "bucket1_init c = 4" "pos2 c = 2"
    by auto
  have h: "Find_Empty_Pos_Hopscotch chain_params chain_two (bucket1_pos c) (bucket1_init c)
      = Some (SIZE_MAX, chain_two)"
    by (simp only: b chain_two_hopscotch)
  note T = try_insert_placement_label [OF w sa(1) c chain_three_round]
  from T m have mm: "Min (set (bucket_labels chain_params chain_two (bucket1_init c))) = 1"
    "Min (set (bucket_labels chain_params chain_two (bucket2_init c))) = 0"
    by simp_all
  from m have "min1 c \<noteq> 0"
    by simp
  with T obtain empty_pos t1
    where "Find_Empty_Pos_Hopscotch chain_params chain_two (bucket1_pos c) (bucket1_init c)
        = Some (empty_pos, t1)"
      and i: "empty_pos = SIZE_MAX \<and> min2 c = 0 \<longrightarrow>
        Return True = Return True \<and> GetElem chain_three (pos2 c) = Some (2, ())
        \<and> Get_Label chain_three (pos2 c) = Some (min (min1 c + 1) L_MAX)"
    by blast
  with h have "empty_pos = SIZE_MAX"
    by simp
  with i m have l: "GetElem chain_three 2 = Some (2, ())" "Get_Label chain_three 2 = Some 2"
    by (simp_all add: b L_MAX_def)
  from hop_table_candidates obtain d
    where d: "find_candidates hop_params hop_table (fst (2 :: nat, ())) = Some d"
      and n: "min1 d = 1" "min2 d = 0"
      and e: "bucket1_pos d = 3" "bucket1_init d = 3"
    by auto
  have k: "Find_Empty_Pos_Hopscotch hop_params hop_table (bucket1_pos d) (bucket1_init d)
      = Some (3, hop_moved)"
    by (simp only: e hop_table_hopscotch)
  note U = try_insert_placement_label [OF w sa(2) d hop_done_round]
  from n have "min1 d \<noteq> 0"
    by simp
  with U obtain empty_pos' t1'
    where "Find_Empty_Pos_Hopscotch hop_params hop_table (bucket1_pos d) (bucket1_init d)
        = Some (empty_pos', t1')"
      and j: "empty_pos' \<noteq> SIZE_MAX \<longrightarrow>
        Return True = Return True \<and> GetElem hop_done empty_pos' = Some (2, ())
        \<and> Get_Label hop_done empty_pos' = Some (min (min2 d + 1) L_MAX)"
    by blast
  with k have "empty_pos' = 3"
    by simp
  with j n have l': "GetElem hop_done 3 = Some (2, ())" "Get_Label hop_done 3 = Some 1"
    by (simp_all add: SIZE_MAX_def L_MAX_def)
  from c m b h mm have 1: "\<exists>c. find_candidates chain_params chain_two (fst (2 :: nat, ())) = Some c
          \<and> min1 c = 1 \<and> min2 c = 0 \<and> pos2 c = 2
          \<and> Find_Empty_Pos_Hopscotch chain_params chain_two (bucket1_pos c) (bucket1_init c)
                = Some (SIZE_MAX, chain_two)
          \<and> Min (set (bucket_labels chain_params chain_two (bucket1_init c))) = 1
          \<and> Min (set (bucket_labels chain_params chain_two (bucket2_init c))) = 0"
    by blast
  from d n k have 2: "\<exists>c. find_candidates hop_params hop_table (fst (2 :: nat, ())) = Some c
          \<and> min1 c = 1 \<and> min2 c = 0
          \<and> Find_Empty_Pos_Hopscotch hop_params hop_table (bucket1_pos c) (bucket1_init c)
                = Some (3, hop_moved)"
    by blast
  from w sa 1 chain_three_round l 2 hop_done_round l' show ?thesis
    by (simp only: simp_thms)
qed

text \<open>
  The claim as stated fails for the placements that \<^verbatim>\<open>rehash\<close> makes itself: they write
  the label 1 whatever the other bucket holds. \<^verbatim>\<open>reserve 16\<close> on \<open>regrow_table\<close> moves
  the keys 1 and 0 to the cells 12 and 13, and then key 2 to cell 10, the first cell of
  its first bucket, with the label 1. The second bucket of key 2 begins at cell 12 and
  has the labels 1 and 1 at that moment and afterwards, so the claim asks for the label 2.
\<close>

theorem rehash_placement_label_counterexample:
  "(\<exists>t. CBG_IMPL regrow_params 8 = Some t
       \<and> insert_all 3 regrow_params t [(0, ()), (1, ()), (2, ())] = Returns regrow_table)
   \<and> rehash_prepare regrow_params regrow_table 16 = Some regrow_prepared
   \<and> rehash_cell regrow_params regrow_prepared 7 [] = Some (regrow_moved_7, [])
   \<and> rehash_cell regrow_params regrow_moved_7 6 [] = Some (regrow_moved_6, [])
   \<and> fastrange (platform regrow_params) (snd (hasher regrow_params 2)) (num_buckets regrow_moved_6) = Some 12
   \<and> Is_Bucket_Reversed regrow_moved_6 12 = Some False
   \<and> bucket_labels regrow_params regrow_moved_6 12 = [1, 1]
   \<and> min (1 + Min (set (bucket_labels regrow_params regrow_moved_6 12))) L_MAX = 2
   \<and> rehash_cell regrow_params regrow_moved_6 5 [] = Some (regrow_done, [])
   \<and> reserve 3 regrow_params regrow_table 16 = Returns regrow_done
   \<and> GetElem regrow_done 10 = Some (2, ()) \<and> Get_Label regrow_done 10 = Some 1
   \<and> find_position regrow_params regrow_done 2 = Some 10
   \<and> bucket_labels regrow_params regrow_done 12 = [1, 1]"
proof -
  have "min (1 + Min (set (bucket_labels regrow_params regrow_moved_6 12))) L_MAX = 2"
    using regrow_moved_6_alternate by (simp add: L_MAX_def)
  with regrow_table_inserted regrow_prepared_prepared regrow_moved_7_moved regrow_moved_6_moved
    regrow_moved_6_alternate regrow_done_moved regrow_done_reserved regrow_done_label
  show ?thesis
    by blast
qed

end
